(* ===== verification/Prelude.thy ===== *)
theory Prelude
  imports Complex_Main "HOL-Library.Sublist" "HOL-Library.Char_ord"
begin

text \<open>
  Shared vocabulary of the development: the Weaviate object as the search code sees it
  (\<open>src/lib/weaviate/search.ts\<close>), JavaScript's nullish default \<open>??\<close>, the
  \<open>[minValue, maxValue]\<close> acceptance test, ASCII case folding and trimming of strings,
  the error type of the backend interface, and generic facts about ranked lists
  (sorted by non-increasing score) and order-preserving sublists, which every search
  mode of the retrieval engine reuses.

  Numbers: JavaScript numbers are IEEE doubles; the model computes scores exactly in
  \<open>rat\<close>, so the weights \<open>0.55\<close>/\<open>0.45\<close> are \<open>11/20\<close>/\<open>9/20\<close> and rounding is not modelled.
\<close>

named_theorems model_simps "equations of the model that evaluate concrete inputs"

type_synonym score = rat
type_synonym uuid = string

text \<open>
  A Weaviate object of the \<open>Chunks\<close> or \<open>Testimonies\<close> collection: its resolved
  identifier (\<open>obj.uuid ?? obj.id ?? ''\<close>, the empty string when absent), the
  properties the search code reads, and the metadata the backend attaches.
  \<open>start_time\<close> is \<open>None\<close> when the property is not a number
  (\<open>typeof start !== 'number'\<close>); missing string properties are \<open>''\<close>, missing array
  properties \<open>[]\<close>.
\<close>

record wobj =
  obj_id :: uuid
  start_time :: "rat option"
  theirstory_id :: string
  collection_id :: string
  ner_text :: "string list"
  ner_labels :: "string list"
  m_score :: "score option"
  m_certainty :: "score option"
  m_bm25 :: "score option"
  m_vector :: "score option"

text \<open>JavaScript's \<open>x ?? d\<close>.\<close>

fun nullish :: "'a option \<Rightarrow> 'a \<Rightarrow> 'a" where
  "nullish None d = d"
| "nullish (Some x) d = x"

text \<open>\<open>item.metadata?.score ?? 0\<close>, read by every sort and range test.\<close>

definition score0 :: "wobj \<Rightarrow> score" where
  "score0 ob = nullish (m_score ob) 0"

text \<open>
  The acceptance test of \<open>vectorSearch\<close> and \<open>hybridSearch\<close>:
  \<open>(minValue === undefined || s >= minValue) && (maxValue === undefined || s <= maxValue)\<close>.
\<close>

definition in_range :: "score option \<Rightarrow> score option \<Rightarrow> score \<Rightarrow> bool" where
  "in_range mn mx s \<longleftrightarrow>
     (case mn of None \<Rightarrow> True | Some a \<Rightarrow> a \<le> s) \<and> (case mx of None \<Rightarrow> True | Some b \<Rightarrow> s \<le> b)"

text \<open>
  The acceptance test of \<open>bm25Search\<close> and of the story-scoped vector and lexical
  searches: \<open>s >= (minValue ?? 0) && s <= (maxValue ?? 1)\<close>.
\<close>

definition in_unit_range :: "score option \<Rightarrow> score option \<Rightarrow> score \<Rightarrow> bool" where
  "in_unit_range mn mx s \<longleftrightarrow> nullish mn 0 \<le> s \<and> s \<le> nullish mx 1"

subsection \<open>Strings\<close>

text \<open>
  \<open>String.prototype.toLowerCase\<close> and \<open>trim\<close>, on the ASCII range: upper-case
  letters are folded, and the whitespace removed by \<open>trim\<close> is space, tab, line feed,
  vertical tab, form feed and carriage return.
\<close>

definition lower_char :: "char \<Rightarrow> char" where
  "lower_char c = (if CHR ''A'' \<le> c \<and> c \<le> CHR ''Z'' then char_of (of_char c + (32::nat)) else c)"

definition to_lower :: "string \<Rightarrow> string" where
  "to_lower s = map lower_char s"

definition is_ws :: "char \<Rightarrow> bool" where
  "is_ws c \<longleftrightarrow> c \<in> set [CHR '' '', CHR 0x09, CHR 0x0A, CHR 0x0B, CHR 0x0C, CHR 0x0D]"

definition trim :: "string \<Rightarrow> string" where
  "trim s = rev (dropWhile is_ws (rev (dropWhile is_ws s)))"

text \<open>JavaScript's \<open>String(n)\<close> of a natural number, and the plural ending of a count
  (\<open>n !== 1 ? 's' : ''\<close>).\<close>

fun nat_str :: "nat \<Rightarrow> string" where
  "nat_str n = (if n < 10 then [char_of (48 + n)] else nat_str (n div 10) @ [char_of (48 + n mod 10)])"

declare nat_str.simps [simp del]

definition plural_s :: "nat \<Rightarrow> string" where
  "plural_s n = (if n \<noteq> 1 then ''s'' else '''')"

lemma nat_str_last: "nat_str n \<noteq> [] \<and> last (nat_str n) = char_of (48 + n mod 10)"
  by (simp add: nat_str.simps [of n])

subsection \<open>Errors and the datastore interface\<close>

text \<open>
  The error taxonomy: a backend call (embedding service or datastore) that fails
  raises, and the raise is the \<open>Inl\<close> branch of every result.
\<close>

datatype error = DependencyUnavailable string

type_synonym 'a result = "error + 'a"

text \<open>\<open>await\<close> of a call that may raise: a raise propagates, a value is passed on.\<close>

definition bind_r :: "'a result \<Rightarrow> ('a \<Rightarrow> 'b result) \<Rightarrow> 'b result" where
  "bind_r r f = (case r of Inl e \<Rightarrow> Inl e | Inr a \<Rightarrow> f a)"

lemma bind_r_simps [simp]:
  "bind_r (Inl e) f = Inl e" "bind_r (Inr a) f = f a"
  by (simp_all add: bind_r_def)

lemma bind_r_Inr_iff: "bind_r r f = Inr b \<longleftrightarrow> (\<exists>a. r = Inr a \<and> f a = Inr b)"
  by (cases r) simp_all

subsection \<open>JavaScript \<open>Map\<close>s in insertion order\<close>

text \<open>\<open>m.set(k, v)\<close> on a JavaScript \<open>Map\<close>: a present key keeps its position and
  takes the new value, a new key goes last. Iteration (\<open>m.values()\<close>, \<open>for ... of\<close>)
  follows this order.\<close>

fun am_set :: "'k \<Rightarrow> 'v \<Rightarrow> ('k \<times> 'v) list \<Rightarrow> ('k \<times> 'v) list" where
  "am_set k v [] = [(k, v)]"
| "am_set k v ((k', v') # al) = (if k = k' then (k, v) # al else (k', v') # am_set k v al)"

lemma map_of_am_set [simp]: "map_of (am_set k v al) = (map_of al)(k \<mapsto> v)"
  by (induction k v al rule: am_set.induct) (auto simp: fun_eq_iff)

lemma am_set_absent: "map_of al k = None \<Longrightarrow> am_set k v al = al @ [(k, v)]"
  by (induction al) (auto split: if_splits)

lemma keys_am_set:
  "map fst (am_set k v al) = (if k \<in> set (map fst al) then map fst al else map fst al @ [k])"
  by (induction k v al rule: am_set.induct) auto

lemma distinct_am_set [simp]: "distinct (map fst al) \<Longrightarrow> distinct (map fst (am_set k v al))"
  by (simp add: keys_am_set)

lemma set_am_set: "set (am_set k v al) \<subseteq> insert (k, v) (set al)"
  by (induction k v al rule: am_set.induct) auto

subsection \<open>Ranked lists\<close>

text \<open>
  A ranked list has non-increasing scores. Filtering and truncation keep a list
  ranked; both are order-preserving sublists.
\<close>

definition ranked :: "wobj list \<Rightarrow> bool" where
  "ranked xs \<longleftrightarrow> sorted_wrt (\<lambda>a b. score0 b \<le> score0 a) xs"

lemma subseq_set:
  assumes "subseq xs ys"
  shows "set xs \<subseteq> set ys"
proof
  fix z assume "z \<in> set xs"
  with assms obtain z' where "z' \<in> set ys" and "z = z'"
    by (blast dest: list_emb_set)
  then show "z \<in> set ys" by simp
qed

lemma subseq_sorted_wrt:
  "subseq xs ys \<Longrightarrow> sorted_wrt R ys \<Longrightarrow> sorted_wrt R xs"
proof (induction xs ys rule: list_emb.induct)
  case (list_emb_Nil ys)
  then show ?case by simp
next
  case (list_emb_Cons xs ys y)
  then show ?case by simp
next
  case (list_emb_Cons2 x y xs ys)
  from list_emb_Cons2.hyps(2) have sub: "set xs \<subseteq> set ys" by (rule subseq_set)
  from list_emb_Cons2.prems have hd: "\<forall>z \<in> set ys. R y z" and tl: "sorted_wrt R ys"
    by simp_all
  from list_emb_Cons2.IH [OF tl] have "sorted_wrt R xs" .
  with hd sub \<open>x = y\<close> show ?case by auto
qed

lemma ranked_subseq [intro]: "subseq xs ys \<Longrightarrow> ranked ys \<Longrightarrow> ranked xs"
  unfolding ranked_def by (rule subseq_sorted_wrt)

lemma ranked_filter [simp, intro]: "ranked xs \<Longrightarrow> ranked (filter P xs)"
  unfolding ranked_def by (rule sorted_wrt_filter)

lemma ranked_take [simp, intro]: "ranked xs \<Longrightarrow> ranked (take n xs)"
  unfolding ranked_def by (rule sorted_wrt_take)

lemma ranked_sort_key: "ranked (sort_key (\<lambda>ob. - score0 ob) xs)"
proof -
  have "sorted (map (\<lambda>ob. - score0 ob) (sort_key (\<lambda>ob. - score0 ob) xs))"
    by (rule sorted_sort_key)
  then show ?thesis
    unfolding ranked_def sorted_map sorted_wrt_iff_nth_less by auto
qed

lemma subseq_take [simp, intro]: "subseq (take n xs) xs"
  by (rule prefix_imp_subseq [OF take_is_prefix])

lemma in_range_None [simp]: "in_range None None s"
  by (simp add: in_range_def)

text \<open>
  A search hit with the given identifier, start time, score and certainty, and no story,
  collection or entities: the shape of the concrete inputs the witnesses evaluate.
\<close>

definition hit :: "uuid \<Rightarrow> rat option \<Rightarrow> score option \<Rightarrow> score option \<Rightarrow> wobj" where
  "hit i st sc ce = \<lparr>obj_id = i, start_time = st, theirstory_id = [], collection_id = [],
     ner_text = [], ner_labels = [], m_score = sc, m_certainty = ce, m_bm25 = None,
     m_vector = None\<rparr>"

lemma hit_sel [simp]:
  "obj_id (hit i st sc ce) = i" "start_time (hit i st sc ce) = st"
  "m_score (hit i st sc ce) = sc" "m_certainty (hit i st sc ce) = ce"
  by (simp_all add: hit_def)

declare score0_def [model_simps] in_range_def [model_simps] in_unit_range_def [model_simps]

end
