(* ===== verification/Filters.thy ===== *)
theory Filters
  imports Prelude
begin

text \<open>
  The Filter Builder: the property filters that \<open>src/lib/weaviate/search.ts\<close> hands to
  the datastore. \<open>buildCombinedFilters\<close> (lines 58--81) composes the entity-label and
  collection filters of the corpus-wide searches; the story-scoped searches build their
  filter inline (lines 419--426, repeated in the vector and lexical variants), and the
  entity lookups build theirs from the entity text and label (lines 639--652 and
  690--698). A filter is a value of the datatype \<open>filter\<close>, its meaning on an object is
  \<open>filter_holds\<close>: the datastore's \<open>containsAny\<close>, \<open>equal\<close>, \<open>notEqual\<close> and
  \<open>And\<close> on exact string values.
\<close>

datatype wprop = P_ner_labels | P_ner_text | P_collection_id | P_theirstory_id

datatype filter =
    ContainsAny wprop "string list"
  | Equal wprop string
  | NotEqual wprop string
  | AndF "filter list"

text \<open>The values of a property: an array property is its list, a scalar one a singleton.\<close>

fun prop_values :: "wprop \<Rightarrow> wobj \<Rightarrow> string list" where
  "prop_values P_ner_labels ob = ner_labels ob"
| "prop_values P_ner_text ob = ner_text ob"
| "prop_values P_collection_id ob = [collection_id ob]"
| "prop_values P_theirstory_id ob = [theirstory_id ob]"

fun filter_holds :: "filter \<Rightarrow> wobj \<Rightarrow> bool" where
  "filter_holds (ContainsAny p vs) ob = list_ex (\<lambda>v. v \<in> set vs) (prop_values p ob)"
| "filter_holds (Equal p v) ob = (prop_values p ob = [v])"
| "filter_holds (NotEqual p v) ob = (prop_values p ob \<noteq> [v])"
| "filter_holds (AndF fs) ob = list_all (\<lambda>f. filter_holds f ob) fs"

text \<open>No filter (\<open>undefined\<close>) admits every object.\<close>

fun applies :: "filter option \<Rightarrow> wobj \<Rightarrow> bool" where
  "applies None ob = True"
| "applies (Some f) ob = filter_holds f ob"

text \<open>
  \<open>buildCombinedFilters\<close>: the entity-label filter when \<open>nerFilters\<close> is non-empty, the
  collection filter when \<open>collectionFilters\<close> is non-empty, no filter when both are
  empty, the single filter alone, and their \<open>And\<close> otherwise. An absent optional array
  is the empty list.
\<close>

definition buildCombinedFilters :: "string list \<Rightarrow> string list \<Rightarrow> filter option" where
  "buildCombinedFilters nerFilters collectionFilters =
     (let filtersArray =
        (if nerFilters \<noteq> [] then [ContainsAny P_ner_labels nerFilters] else []) @
        (if collectionFilters \<noteq> [] then [ContainsAny P_collection_id collectionFilters] else [])
      in case filtersArray of
           [] \<Rightarrow> None
         | [f] \<Rightarrow> Some f
         | _ \<Rightarrow> Some (AndF filtersArray))"

text \<open>
  The filter of \<open>hybridSearchForStoryId\<close>, \<open>vectorSearchForStoryId\<close> and
  \<open>bm25SearchForStoryId\<close>: equality on \<open>theirstory_id\<close>, and the entity-label filter
  when one is given.
\<close>

definition story_filter :: "string \<Rightarrow> string list \<Rightarrow> filter" where
  "story_filter theirStoryId nerFilters =
     (let filtersArray = [Equal P_theirstory_id theirStoryId] @
        (if nerFilters \<noteq> [] then [ContainsAny P_ner_labels nerFilters] else [])
      in if 1 < length filtersArray then AndF filtersArray else hd filtersArray)"

text \<open>
  The filter of \<open>getNerEntityRecordingCounts\<close> for one pair: the lower-cased text among
  the chunk's \<open>ner_text\<close> and the label among its \<open>ner_labels\<close>, each tested on its own
  array.
\<close>

definition entity_filter :: "string \<Rightarrow> string \<Rightarrow> filter" where
  "entity_filter text label =
     AndF [ContainsAny P_ner_text [to_lower text], ContainsAny P_ner_labels [label]]"

text \<open>
  The filter of \<open>searchNerEntitiesAcrossCollection\<close>: the entity filter, and
  \<open>theirstory_id \<noteq> excludeStoryUuid\<close> when an exclusion is given (a non-empty string).
\<close>

definition cross_collection_filter :: "string \<Rightarrow> string \<Rightarrow> string \<Rightarrow> filter" where
  "cross_collection_filter entityText entityLabel excludeStoryUuid =
     AndF ([ContainsAny P_ner_text [to_lower entityText], ContainsAny P_ner_labels [entityLabel]] @
           (if excludeStoryUuid \<noteq> [] then [NotEqual P_theirstory_id excludeStoryUuid] else []))"

subsection \<open>Properties\<close>

text \<open>The semantic reading of the entity-label and collection conditions.\<close>

definition label_match :: "string list \<Rightarrow> wobj \<Rightarrow> bool" where
  "label_match ner ob \<longleftrightarrow> list_ex (\<lambda>l. l \<in> set ner) (ner_labels ob)"

lemma holds_label [simp]:
  "filter_holds (ContainsAny P_ner_labels ner) ob = label_match ner ob"
  by (simp add: label_match_def)

lemma holds_collection [simp]:
  "filter_holds (ContainsAny P_collection_id cs) ob = (collection_id ob \<in> set cs)"
  by simp

lemmas filter_defs = buildCombinedFilters_def story_filter_def entity_filter_def
  cross_collection_filter_def

text \<open>
  C3: the combined filter admits exactly the objects that satisfy the entity-label
  condition (when labels are requested) and the collection condition (when collections
  are requested); the empty request admits everything.
\<close>

theorem buildCombinedFilters_sem:
  "applies (buildCombinedFilters ner cs) ob \<longleftrightarrow>
     (ner = [] \<or> label_match ner ob) \<and> (cs = [] \<or> collection_id ob \<in> set cs)"
  by (cases "ner = []"; cases "cs = []") (simp_all add: buildCombinedFilters_def label_match_def)

lemma buildCombinedFilters_None_iff:
  "buildCombinedFilters ner cs = None \<longleftrightarrow> ner = [] \<and> cs = []"
  by (cases "ner = []"; cases "cs = []") (simp_all add: buildCombinedFilters_def label_match_def)

lemma story_filter_sem:
  "filter_holds (story_filter sid ner) ob \<longleftrightarrow>
     theirstory_id ob = sid \<and> (ner = [] \<or> label_match ner ob)"
  by (cases "ner = []") (auto simp: story_filter_def label_match_def)

lemma cross_collection_filter_sem:
  "filter_holds (cross_collection_filter t l ex) ob \<longleftrightarrow>
     to_lower t \<in> set (ner_text ob) \<and> l \<in> set (ner_labels ob) \<and>
     (ex = [] \<or> theirstory_id ob \<noteq> ex)"
  by (cases "ex = []") (auto simp: cross_collection_filter_def list_ex_iff)

lemma entity_filter_sem:
  "filter_holds (entity_filter t l) ob \<longleftrightarrow>
     to_lower t \<in> set (ner_text ob) \<and> l \<in> set (ner_labels ob)"
  by (auto simp: entity_filter_def list_ex_iff)

end
