(* ===== verification/Scores.thy ===== *)
theory Scores
  imports Prelude
begin

text \<open>
  The Score Normalizer of \<open>src/lib/weaviate/search.ts\<close>: min-max rescaling of BM25
  scores. \<open>bm25Search\<close> (lines 369--385, and \<open>bm25SearchForStoryId\<close>, lines
  599--615) takes the maximum and minimum of the result's own scores;
  \<open>hybridSearch\<close> (lines 252--262, and \<open>hybridSearchForStoryId\<close>, lines 436--446)
  takes them with \<open>0\<close> added to the list (\<open>Math.max(...bmScores, 0)\<close>), so its
  minimum is never above \<open>0\<close>, and keys the result by object identifier.
\<close>

definition normalize :: "score \<Rightarrow> score \<Rightarrow> score \<Rightarrow> score" where
  "normalize mx mn raw = (if mx = mn then 1 else (raw - mn) / (mx - mn))"

text \<open>\<open>bm25Search\<close>: every object's metadata score replaced by its normalized score.\<close>

definition bm25_normalize :: "wobj list \<Rightarrow> wobj list" where
  "bm25_normalize objs =
     (case map score0 objs of
        [] \<Rightarrow> []
      | s # ss \<Rightarrow>
          (let maxScore = fold max ss s; minScore = fold min ss s
           in map (\<lambda>ob. ob\<lparr>m_score := Some (normalize maxScore minScore (score0 ob))\<rparr>) objs))"

text \<open>\<open>hybridSearch\<close>: the bounds with \<open>0\<close> among the scores, and the map from
  identifier to normalized score (\<open>if (id) bmMap.set(id, norm)\<close>: a later object with
  the same identifier overwrites an earlier one).\<close>

definition hybrid_bounds :: "wobj list \<Rightarrow> score \<times> score" where
  "hybrid_bounds objs = (let bmScores = map score0 objs in (fold max bmScores 0, fold min bmScores 0))"

definition bmMap :: "wobj list \<Rightarrow> (uuid \<rightharpoonup> score)" where
  "bmMap objs =
     (let (bmMax, bmMin) = hybrid_bounds objs
      in fold (\<lambda>ob m. if obj_id ob \<noteq> [] then m(obj_id ob \<mapsto> normalize bmMax bmMin (score0 ob)) else m)
           objs Map.empty)"

subsection \<open>The rescaling\<close>

lemma normalize_bounds:
  assumes "mn \<le> raw" and "raw \<le> mx"
  shows "0 \<le> normalize mx mn raw \<and> normalize mx mn raw \<le> 1"
proof (cases "mx = mn")
  case True
  then show ?thesis by (simp add: normalize_def)
next
  case False
  with assms have pos: "0 < mx - mn" by simp
  from assms have "raw - mn \<le> mx - mn" by simp
  with pos assms False show ?thesis
    by (simp add: normalize_def divide_le_eq_1)
qed

lemma normalize_mono:
  assumes "mn \<le> mx" and "r1 \<le> r2"
  shows "normalize mx mn r1 \<le> normalize mx mn r2"
  using assms by (cases "mx = mn") (simp_all add: normalize_def divide_right_mono)

lemma normalize_max [simp]: "normalize mx mn mx = 1"
  by (simp add: normalize_def)

lemma normalize_min: "mx \<noteq> mn \<Longrightarrow> normalize mx mn mn = 0"
  by (simp add: normalize_def)

lemma fold_max_ge: "x \<in> set (a # xs) \<Longrightarrow> (x::'a::linorder) \<le> fold max xs a"
  unfolding Max.set_eq_fold [symmetric] by (rule Max_ge) simp_all

lemma fold_min_le: "x \<in> set (a # xs) \<Longrightarrow> fold min xs a \<le> (x::'a::linorder)"
  unfolding Min.set_eq_fold [symmetric] by (rule Min_le) simp_all

subsection \<open>\<open>bm25Search\<close>\<close>

lemma bm25_normalize_Nil [simp]: "bm25_normalize [] = []"
  by (simp add: bm25_normalize_def)

lemma bm25_normalize_eq:
  "objs \<noteq> [] \<Longrightarrow>
   bm25_normalize objs =
     map (\<lambda>ob. ob\<lparr>m_score := Some (normalize (Max (score0 ` set objs)) (Min (score0 ` set objs))
                  (score0 ob))\<rparr>) objs"
  by (cases objs) (simp_all add: bm25_normalize_def Max.set_eq_fold [symmetric]
      Min.set_eq_fold [symmetric])

lemma length_bm25_normalize [simp]: "length (bm25_normalize objs) = length objs"
  by (cases "objs = []") (simp_all add: bm25_normalize_eq)

text \<open>Normalization only rewrites the score: identifier and properties are kept.\<close>

lemma bm25_normalize_nth:
  assumes "i < length objs"
  shows "bm25_normalize objs ! i =
    (objs ! i)\<lparr>m_score := Some (normalize (Max (score0 ` set objs)) (Min (score0 ` set objs))
                   (score0 (objs ! i)))\<rparr>"
proof -
  from assms have "objs \<noteq> []" by auto
  with assms show ?thesis by (simp add: bm25_normalize_eq)
qed

text \<open>
  C4: for every object of a non-empty BM25 result, the normalized score is the min-max
  rescaling of its raw score over the result's own scores; it is \<open>1\<close> for every object
  when all scores are equal, so there is no division by zero.
\<close>

theorem bm25_normalize_score:
  assumes "i < length objs"
  shows "score0 (bm25_normalize objs ! i) =
    (let mx = Max (score0 ` set objs); mn = Min (score0 ` set objs)
     in if mx = mn then 1 else (score0 (objs ! i) - mn) / (mx - mn))"
  using assms by (simp add: bm25_normalize_nth score0_def normalize_def Let_def)

theorem bm25_normalize_score_witness:
  "score0 (bm25_normalize [hit ''a'' (Some 0) (Some 2) None, hit ''b'' (Some 1) (Some 4) None] ! 0) = 0 \<and>
   score0 (bm25_normalize [hit ''a'' (Some 0) (Some 2) None, hit ''b'' (Some 1) (Some 4) None] ! 1) = 1"
  using bm25_normalize_score [of 0 "[hit ''a'' (Some 0) (Some 2) None, hit ''b'' (Some 1) (Some 4) None]"]
    bm25_normalize_score [of 1 "[hit ''a'' (Some 0) (Some 2) None, hit ''b'' (Some 1) (Some 4) None]"]
  by (simp add: score0_def)

lemma bm25_normalize_unit:
  "list_all (\<lambda>ob. 0 \<le> score0 ob \<and> score0 ob \<le> 1) (bm25_normalize objs)"
proof (cases "objs = []")
  case False
  have "0 \<le> normalize (Max (score0 ` set objs)) (Min (score0 ` set objs)) (score0 ob) \<and>
        normalize (Max (score0 ` set objs)) (Min (score0 ` set objs)) (score0 ob) \<le> 1"
    if "ob \<in> set objs" for ob
    using that False by (intro normalize_bounds) simp_all
  with False show ?thesis
    by (simp add: bm25_normalize_eq list_all_iff score0_def)
qed simp

lemma bm25_normalize_ranked:
  assumes "ranked objs"
  shows "ranked (bm25_normalize objs)"
proof (cases "objs = []")
  case False
  let ?mx = "Max (score0 ` set objs)" and ?mn = "Min (score0 ` set objs)"
  from False have le: "?mn \<le> ?mx" by (simp add: Min_le_iff)
  have "sorted_wrt (\<lambda>a b. normalize ?mx ?mn (score0 b) \<le> normalize ?mx ?mn (score0 a)) objs"
    using assms unfolding ranked_def
    by (rule sorted_wrt_mono_rel [rotated]) (simp add: normalize_mono [OF le])
  with False show ?thesis
    by (simp add: bm25_normalize_eq ranked_def sorted_wrt_map score0_def)
qed (simp add: ranked_def)

subsection \<open>\<open>hybridSearch\<close>\<close>

lemma hybrid_bounds_le:
  assumes "ob \<in> set objs"
  shows "snd (hybrid_bounds objs) \<le> score0 ob \<and> score0 ob \<le> fst (hybrid_bounds objs)"
  using assms by (simp add: hybrid_bounds_def Let_def fold_max_ge fold_min_le)

lemma bmMap_fold_inv:
  assumes "\<forall>ob \<in> set xs. P (normalize mx mn (score0 ob))" and "\<forall>v \<in> ran m. P v"
  shows "\<forall>v \<in> ran (fold (\<lambda>ob m. if obj_id ob \<noteq> [] then m(obj_id ob \<mapsto> normalize mx mn (score0 ob))
      else m) xs m). P v"
  using assms
proof (induction xs arbitrary: m)
  case (Cons x xs)
  have "\<forall>v \<in> ran (if obj_id x \<noteq> [] then m(obj_id x \<mapsto> normalize mx mn (score0 x)) else m). P v"
    using Cons.prems by (auto simp: ran_def)
  with Cons show ?case by simp
qed simp

lemma bmMap_unit:
  "bmMap objs k = Some v \<Longrightarrow> 0 \<le> v \<and> v \<le> 1"
proof -
  assume k: "bmMap objs k = Some v"
  obtain mx mn where b: "hybrid_bounds objs = (mx, mn)" by fastforce
  have "0 \<le> normalize mx mn (score0 ob) \<and> normalize mx mn (score0 ob) \<le> 1"
    if "ob \<in> set objs" for ob
    using hybrid_bounds_le [OF that] b by (intro normalize_bounds) simp_all
  then have "\<forall>ob \<in> set objs. 0 \<le> normalize mx mn (score0 ob) \<and> normalize mx mn (score0 ob) \<le> 1"
    by blast
  then have "\<forall>v \<in> ran (bmMap objs). 0 \<le> v \<and> v \<le> 1"
    unfolding bmMap_def b Let_def prod.case by (rule bmMap_fold_inv) simp
  with k show ?thesis by (auto simp: ran_def)
qed

end
