(* ===== verification/Dedup.thy ===== *)
theory Dedup
  imports Prelude
begin

text \<open>
  The Result Merger/Deduplicator. Two routines of the code collapse hits that share a
  start time:
  \<^item> \<open>dedupe_by_start_time\<close>: the \<open>seen\<close>-set filter that ends \<open>vectorSearch\<close>,
    \<open>hybridSearch\<close>, \<open>bm25Search\<close> and \<open>hybridSearchForStoryId\<close>
    (\<open>src/lib/weaviate/search.ts\<close> lines 211--219, 331--338, 392--399, 505--512): a hit
    without a numeric \<open>start_time\<close> is dropped, a hit whose start time was seen is
    dropped, otherwise it is kept and its start time remembered;
  \<^item> \<open>unique_matches\<close>: the filter of the store's story-scoped searches
    (\<open>src/app/stores/useSemanticSearchStore.ts\<close> lines 393--396, 444--447, 494--497),
    which keeps the hit at \<open>index\<close> when \<open>index\<close> is the \<open>findIndex\<close> of its start time;
    there an absent start time is a key like any other (\<open>undefined === undefined\<close>).
  Both are proved equal to one reference, \<open>keep_first\<close>: keep the first element of each
  key, in order.
\<close>

fun dedupe_aux :: "rat set \<Rightarrow> wobj list \<Rightarrow> wobj list" where
  "dedupe_aux seen [] = []"
| "dedupe_aux seen (x # xs) =
     (case start_time x of
        None \<Rightarrow> dedupe_aux seen xs
      | Some s \<Rightarrow> if s \<in> seen then dedupe_aux seen xs else x # dedupe_aux (insert s seen) xs)"

definition dedupe_by_start_time :: "wobj list \<Rightarrow> wobj list" where
  "dedupe_by_start_time xs = dedupe_aux {} xs"

text \<open>\<open>Array.prototype.findIndex\<close>: the first index where \<open>P\<close> holds, \<open>-1\<close> if none.\<close>

fun find_index :: "('a \<Rightarrow> bool) \<Rightarrow> 'a list \<Rightarrow> int" where
  "find_index P [] = -1"
| "find_index P (x # xs) = (if P x then 0 else (let r = find_index P xs in if r = -1 then -1 else r + 1))"

definition unique_matches :: "wobj list \<Rightarrow> wobj list" where
  "unique_matches self =
     map fst (filter (\<lambda>(ob, index). int index = find_index (\<lambda>t. start_time t = start_time ob) self)
       (zip self [0..<length self]))"

subsection \<open>The reference: first element of each key\<close>

function keep_first :: "('a \<Rightarrow> 'k) \<Rightarrow> 'a list \<Rightarrow> 'a list" where
  "keep_first f [] = []"
| "keep_first f (x # xs) = x # keep_first f (filter (\<lambda>y. f y \<noteq> f x) xs)"
  by pat_completeness auto
termination
  by (relation "measure (\<lambda>(f, xs). length xs)") (auto simp: le_imp_less_Suc)

lemma keep_first_filter:
  "keep_first f (filter (\<lambda>y. f y \<notin> K) xs) = filter (\<lambda>y. f y \<notin> K) (keep_first f xs)"
proof (induction f xs arbitrary: K rule: keep_first.induct)
  case (2 f x xs)
  show ?case
  proof (cases "f x \<in> K")
    case True
    have eq: "filter (\<lambda>y. f y \<notin> K) (filter (\<lambda>y. f y \<noteq> f x) xs) = filter (\<lambda>y. f y \<notin> K) xs"
      using True by (induction xs) auto
    have "keep_first f (filter (\<lambda>y. f y \<notin> K) xs) =
          filter (\<lambda>y. f y \<notin> K) (keep_first f (filter (\<lambda>y. f y \<noteq> f x) xs))"
      using "2.IH" [of K] eq by metis
    with True show ?thesis by simp
  next
    case False
    have "filter (\<lambda>y. f y \<noteq> f x) (filter (\<lambda>y. f y \<notin> K) xs) =
          filter (\<lambda>y. f y \<notin> K) (filter (\<lambda>y. f y \<noteq> f x) xs)"
      by (simp add: filter_filter conj_commute)
    with False "2.IH" show ?thesis by simp
  qed
qed simp

lemma set_keep_first: "set (keep_first f xs) \<subseteq> set xs"
  by (induction f xs rule: keep_first.induct) auto

lemma keys_keep_first: "f ` set (keep_first f xs) = f ` set xs"
  by (induction f xs rule: keep_first.induct) (auto simp: image_iff)

lemma distinct_keep_first: "distinct (map f (keep_first f xs))"
proof (induction f xs rule: keep_first.induct)
  case (2 f x xs)
  have "f x \<notin> f ` set (keep_first f (filter (\<lambda>y. f y \<noteq> f x) xs))"
    using set_keep_first by fastforce
  with "2.IH" show ?case by simp
qed simp

lemma subseq_keep_first: "subseq (keep_first f xs) xs"
proof (induction f xs rule: keep_first.induct)
  case (2 f x xs)
  then have "subseq (keep_first f (filter (\<lambda>y. f y \<noteq> f x) xs)) xs"
    using subseq_order.order_trans subseq_filter_left by blast
  then show ?case by simp
qed simp

lemma keep_first_snoc:
  "keep_first f (xs @ [x]) = keep_first f xs @ (if f x \<in> f ` set xs then [] else [x])"
proof (induction f xs rule: keep_first.induct)
  case (2 f y ys)
  show ?case
  proof (cases "f x = f y")
    case True
    then show ?thesis by simp
  next
    case False
    then have "filter (\<lambda>z. f z \<noteq> f y) (ys @ [x]) = filter (\<lambda>z. f z \<noteq> f y) ys @ [x]" by simp
    moreover have "(f x \<in> f ` set (filter (\<lambda>z. f z \<noteq> f y) ys)) = (f x \<in> f ` set ys)"
      using False by auto
    ultimately show ?thesis using False "2.IH" by simp
  qed
qed simp

subsection \<open>The search routine\<close>

lemma dedupe_aux_keep_first:
  "dedupe_aux seen xs =
     keep_first start_time (filter (\<lambda>y. start_time y \<notin> insert None (Some ` seen)) xs)"
proof (induction xs arbitrary: seen)
  case (Cons x xs)
  show ?case
  proof (cases "start_time x")
    case (Some s)
    have "filter (\<lambda>y. start_time y \<noteq> Some s) (filter (\<lambda>y. start_time y \<notin> insert None (Some ` seen)) xs) =
          filter (\<lambda>y. start_time y \<notin> insert None (Some ` insert s seen)) xs"
      by (auto simp: filter_filter intro!: filter_cong)
    with Some Cons.IH show ?thesis by auto
  qed (simp add: Cons.IH)
qed simp

text \<open>
  C2: the deduplication of the search engine keeps, in input order, the
  first hit of each numeric start time and drops every hit without one.
\<close>

theorem dedupe_by_start_time_spec:
  "dedupe_by_start_time xs = keep_first start_time (filter (\<lambda>y. start_time y \<noteq> None) xs)"
  using dedupe_aux_keep_first [of "{}" xs] by (simp add: dedupe_by_start_time_def)

lemma dedupe_subseq [simp, intro]: "subseq (dedupe_by_start_time xs) xs"
  unfolding dedupe_by_start_time_spec
  using subseq_keep_first subseq_filter_left subseq_order.order_trans by blast

lemma dedupe_distinct: "distinct (map start_time (dedupe_by_start_time xs))"
  by (simp add: dedupe_by_start_time_spec distinct_keep_first)

lemma dedupe_has_start: "list_all (\<lambda>y. start_time y \<noteq> None) (dedupe_by_start_time xs)"
  using set_keep_first by (fastforce simp: dedupe_by_start_time_spec list_all_iff)

lemma dedupe_keys:
  "start_time ` set (dedupe_by_start_time xs) = start_time ` set xs - {None}"
  by (auto simp: dedupe_by_start_time_spec keys_keep_first)

lemma ranked_dedupe [simp, intro]: "ranked xs \<Longrightarrow> ranked (dedupe_by_start_time xs)"
  by (rule ranked_subseq [OF dedupe_subseq])

subsection \<open>The store's routine\<close>

lemma find_index_eq:
  "find_index P xs = (if \<exists>x \<in> set xs. P x then int (length (takeWhile (\<lambda>x. \<not> P x) xs)) else -1)"
  by (induction xs) (auto simp: Let_def)

lemma length_takeWhile_lt: "z \<in> set xs \<Longrightarrow> \<not> P z \<Longrightarrow> length (takeWhile P xs) < length xs"
  by (induction xs) auto

lemma find_index_snoc_in:
  assumes "\<exists>x \<in> set xs. P x"
  shows "find_index P (xs @ [y]) = find_index P xs"
proof -
  from assms obtain z where z: "z \<in> set xs" "P z" by blast
  then have "takeWhile (\<lambda>x. \<not> P x) (xs @ [y]) = takeWhile (\<lambda>x. \<not> P x) xs"
    by (intro takeWhile_append1) auto
  with z show ?thesis by (auto simp: find_index_eq)
qed

lemma unique_matches_snoc:
  "unique_matches (xs @ [x]) =
     unique_matches xs @ (if start_time x \<in> start_time ` set xs then [] else [x])"
proof -
  let ?P = "\<lambda>zs (ob, index). int index = find_index (\<lambda>t. start_time t = start_time ob) zs"
  have zip: "zip (xs @ [x]) [0..<length (xs @ [x])] = zip xs [0..<length xs] @ [(x, length xs)]"
    by simp
  have pre: "filter (?P (xs @ [x])) (zip xs [0..<length xs]) = filter (?P xs) (zip xs [0..<length xs])"
  proof (rule filter_cong [OF refl])
    fix p assume "p \<in> set (zip xs [0..<length xs])"
    then obtain ob i where p: "p = (ob, i)" and "ob \<in> set xs"
      by (metis in_set_zipE prod.exhaust)
    moreover have "find_index (\<lambda>t. start_time t = start_time ob) (xs @ [x]) =
        find_index (\<lambda>t. start_time t = start_time ob) xs"
      using \<open>ob \<in> set xs\<close> by (intro find_index_snoc_in) auto
    ultimately show "?P (xs @ [x]) p = ?P xs p" by simp
  qed
  have last: "?P (xs @ [x]) (x, length xs) \<longleftrightarrow> start_time x \<notin> start_time ` set xs"
  proof (cases "start_time x \<in> start_time ` set xs")
    case True
    then obtain z where "z \<in> set xs" "start_time z = start_time x" by auto
    then have "length (takeWhile (\<lambda>t. start_time t \<noteq> start_time x) xs) < length xs"
      by (intro length_takeWhile_lt [of z]) simp_all
    with True show ?thesis by (auto simp: find_index_snoc_in find_index_eq)
  next
    case False
    then have "takeWhile (\<lambda>t. start_time t \<noteq> start_time x) xs = xs"
      by (metis (mono_tags) imageI takeWhile_eq_all_conv)
    with False show ?thesis by (auto simp: find_index_eq takeWhile_append2 image_iff)
  qed
  have "unique_matches (xs @ [x]) =
      map fst (filter (?P (xs @ [x])) (zip xs [0..<length xs])) @
      map fst (filter (?P (xs @ [x])) [(x, length xs)])"
    by (simp only: unique_matches_def zip filter_append map_append)
  also have "map fst (filter (?P (xs @ [x])) (zip xs [0..<length xs])) = unique_matches xs"
    by (simp only: pre unique_matches_def)
  also have "map fst (filter (?P (xs @ [x])) [(x, length xs)]) =
      (if start_time x \<in> start_time ` set xs then [] else [x])"
  proof (cases "?P (xs @ [x]) (x, length xs)")
    case True
    with last show ?thesis by (simp only: filter.simps if_True if_False list.map fst_conv) simp
  next
    case False
    with last show ?thesis by (simp only: filter.simps if_True if_False list.map) simp
  qed
  finally show ?thesis .
qed

text \<open>
  C5: the store's \<open>findIndex\<close> filter keeps the first hit of each start
  time, the absent one included, in input order.
\<close>

theorem unique_matches_spec: "unique_matches xs = keep_first start_time xs"
proof (induction xs rule: rev_induct)
  case (snoc x xs)
  then show ?case by (simp add: unique_matches_snoc keep_first_snoc)
qed (simp add: unique_matches_def)

end
