(* ===== verification/Retrieval.thy ===== *)
theory Retrieval
  imports Filters Scores Dedup
begin

text \<open>
  The Retrieval Engine of \<open>src/lib/weaviate/search.ts\<close>: the embedding client
  \<open>getLocalEmbedding\<close> (lines 83--100), the three corpus-wide modes \<open>vectorSearch\<close>
  (179--225), \<open>hybridSearch\<close> (227--344) and \<open>bm25Search\<close> (346--405), their
  story-scoped variants (407--626) and \<open>searchNerEntitiesAcrossCollection\<close>
  (629--673). The datastore and the embedding endpoint are external: they are the
  fields of the record \<open>backend\<close>, each call returning a value or raising. A search
  mode is the composition, in the code's order of \<open>await\<close>s, of these calls with the
  filter builder, the score normalizer and the deduplicator.
\<close>

text \<open>The HTTP response of the embedding endpoint: \<open>res.ok\<close>, \<open>res.status\<close>, and the
  parsed body's \<open>vector\<close>.\<close>

datatype embed_response = EmbedResponse (resp_ok: bool) (resp_status: nat) (resp_vector: "rat list")

record backend =
  bk_bm25 :: "string \<Rightarrow> filter option \<Rightarrow> nat \<Rightarrow> nat \<Rightarrow> wobj list result"
  bk_near_vector :: "rat list \<Rightarrow> filter option \<Rightarrow> nat \<Rightarrow> nat \<Rightarrow> wobj list result"
  bk_fetch :: "filter option \<Rightarrow> nat \<Rightarrow> nat \<Rightarrow> wobj list result"
  bk_embed_http :: "string \<Rightarrow> embed_response result"

text \<open>\<open>getLocalEmbedding\<close>: a transport failure raises, a non-success status raises,
  otherwise the vector is returned.\<close>

definition getLocalEmbedding :: "backend \<Rightarrow> string \<Rightarrow> rat list result" where
  "getLocalEmbedding bk text =
     bind_r (bk_embed_http bk text) (\<lambda>res.
       if \<not> resp_ok res then Inl (DependencyUnavailable ''Embedding service failed'')
       else Inr (resp_vector res))"

subsection \<open>Vector mode\<close>

definition vectorSearch ::
  "backend \<Rightarrow> string \<Rightarrow> nat \<Rightarrow> nat \<Rightarrow> string list \<Rightarrow> string list \<Rightarrow> score option \<Rightarrow> score option
   \<Rightarrow> wobj list result" where
  "vectorSearch bk searchTerm limit offset filters collectionFilters minValue maxValue =
     (let combinedFilter = buildCombinedFilters filters collectionFilters
      in bind_r (getLocalEmbedding bk searchTerm) (\<lambda>vector.
         bind_r (bk_near_vector bk vector combinedFilter limit offset) (\<lambda>rawResults.
         let filteredObjects = filter (\<lambda>item. case m_certainty item of
                 None \<Rightarrow> False | Some score \<Rightarrow> in_range minValue maxValue score) rawResults
         in Inr (take limit (dedupe_by_start_time filteredObjects)))))"

subsection \<open>Hybrid mode\<close>

text \<open>\<open>vecMap\<close>: identifier to certainty (\<open>?? 0\<close>), later objects overwriting.\<close>

definition vecMap :: "wobj list \<Rightarrow> (uuid \<rightharpoonup> score)" where
  "vecMap objs =
     fold (\<lambda>ob m. if obj_id ob \<noteq> [] then m(obj_id ob \<mapsto> nullish (m_certainty ob) 0) else m) objs Map.empty"

text \<open>\<open>(W_VEC, W_BM25)\<close>: \<open>0.55/0.45\<close> when BM25 returned something, \<open>1/0\<close> otherwise.\<close>

definition weights :: "bool \<Rightarrow> score \<times> score" where
  "weights hasBm25 = (if hasBm25 then (11/20, 9/20) else (1, 0))"

text \<open>The object \<open>upsert\<close> stores (lines 296--310): \<open>bm = bmMap.get(id) ?? 0\<close>,
  \<open>vec = vecMap.get(id) ?? obj.metadata.certainty ?? 0\<close>, the combined score
  \<open>W_VEC * vec + W_BM25 * bm\<close> as its score, and both components beside it.\<close>

definition fused :: "score \<Rightarrow> score \<Rightarrow> (uuid \<rightharpoonup> score) \<Rightarrow> (uuid \<rightharpoonup> score) \<Rightarrow> wobj \<Rightarrow> wobj" where
  "fused W_VEC W_BM25 bm vm ob =
     (let id = obj_id ob;
          bmv = nullish (bm id) 0;
          vec = nullish (vm id) (nullish (m_certainty ob) 0);
          combined = W_VEC * vec + W_BM25 * bmv
      in ob\<lparr>m_score := Some combined, m_bm25 := Some bmv, m_vector := Some vec\<rparr>)"

text \<open>\<open>upsert\<close> (lines 292--312): skip an object without identifier; store its fused
  object unless an object with the same identifier is stored with a score at least as
  high (\<open>!prev || (prev.metadata?.score ?? 0) < combined\<close>).\<close>

definition upsert ::
  "score \<Rightarrow> score \<Rightarrow> (uuid \<rightharpoonup> score) \<Rightarrow> (uuid \<rightharpoonup> score) \<Rightarrow> (uuid \<times> wobj) list \<Rightarrow> wobj
   \<Rightarrow> (uuid \<times> wobj) list" where
  "upsert W_VEC W_BM25 bm vm mergedById ob =
     (let id = obj_id ob
      in if id = [] then mergedById
         else
           (let f = fused W_VEC W_BM25 bm vm ob
            in if (case map_of mergedById id of None \<Rightarrow> True | Some prev \<Rightarrow> score0 prev < score0 f)
               then am_set id f mergedById
               else mergedById))"

text \<open>The merge (lines 285--315): BM25 objects first, then vector objects, through
  \<open>upsert\<close>; the values in the map's order.\<close>

definition hybrid_merge :: "wobj list \<Rightarrow> wobj list \<Rightarrow> wobj list" where
  "hybrid_merge bm25Objs vecObjs =
     (let (W_VEC, W_BM25) = weights (bm25Objs \<noteq> [])
      in map snd (fold (\<lambda>ob m. upsert W_VEC W_BM25 (bmMap bm25Objs) (vecMap vecObjs) m ob)
                    (bm25Objs @ vecObjs) []))"

text \<open>The ranking tail (lines 318--343): stable sort by combined score, descending;
  the range test on the combined score; deduplication; the first \<open>limit\<close>.\<close>

definition hybrid_rank :: "nat \<Rightarrow> score option \<Rightarrow> score option \<Rightarrow> wobj list \<Rightarrow> wobj list" where
  "hybrid_rank limit minValue maxValue merged =
     take limit (dedupe_by_start_time
       (filter (\<lambda>item. in_range minValue maxValue (score0 item)) (sort_key (\<lambda>ob. - score0 ob) merged)))"

definition hybridSearch ::
  "backend \<Rightarrow> string \<Rightarrow> nat \<Rightarrow> nat \<Rightarrow> string list \<Rightarrow> string list \<Rightarrow> score option \<Rightarrow> score option
   \<Rightarrow> wobj list result" where
  "hybridSearch bk searchTerm limit offset filters collectionFilters minValue maxValue =
     (let combinedFilter = buildCombinedFilters filters collectionFilters
      in bind_r (bk_bm25 bk searchTerm combinedFilter limit offset) (\<lambda>bm25Res.
         bind_r (getLocalEmbedding bk searchTerm) (\<lambda>vector.
         bind_r (bk_near_vector bk vector combinedFilter limit offset) (\<lambda>vecRes.
         Inr (hybrid_rank limit minValue maxValue (hybrid_merge bm25Res vecRes))))))"

subsection \<open>Lexical mode\<close>

definition bm25Search ::
  "backend \<Rightarrow> string \<Rightarrow> nat \<Rightarrow> nat \<Rightarrow> string list \<Rightarrow> string list \<Rightarrow> score option \<Rightarrow> score option
   \<Rightarrow> wobj list result" where
  "bm25Search bk searchTerm limit offset filters collectionFilters minValue maxValue =
     (let combinedFilter = buildCombinedFilters filters collectionFilters
      in bind_r (bk_bm25 bk searchTerm combinedFilter limit offset) (\<lambda>response.
         let filteredObjects = filter (\<lambda>obj. in_unit_range minValue maxValue (score0 obj))
               (bm25_normalize response)
         in Inr (take limit (dedupe_by_start_time filteredObjects))))"

subsection \<open>Story-scoped modes\<close>

text \<open>The datastore's default offset is \<open>0\<close>; these variants pass none.\<close>

definition hybridSearchForStoryId ::
  "backend \<Rightarrow> string \<Rightarrow> string \<Rightarrow> nat \<Rightarrow> string list \<Rightarrow> score option \<Rightarrow> score option
   \<Rightarrow> wobj list result" where
  "hybridSearchForStoryId bk theirStoryId searchTerm limit nerFilters minValue maxValue =
     (let combinedFilter = Some (story_filter theirStoryId nerFilters)
      in bind_r (bk_bm25 bk searchTerm combinedFilter limit 0) (\<lambda>bm25Res.
         bind_r (getLocalEmbedding bk searchTerm) (\<lambda>vector.
         bind_r (bk_near_vector bk vector combinedFilter limit 0) (\<lambda>vecRes.
         Inr (hybrid_rank limit minValue maxValue (hybrid_merge bm25Res vecRes))))))"

text \<open>\<open>vectorSearchForStoryId\<close>: the certainty becomes the score; the range test reads the
  certainty with the defaults \<open>0\<close> and \<open>1\<close>; no deduplication, no truncation.\<close>

definition vectorSearchForStoryId ::
  "backend \<Rightarrow> string \<Rightarrow> string \<Rightarrow> nat \<Rightarrow> string list \<Rightarrow> score option \<Rightarrow> score option
   \<Rightarrow> wobj list result" where
  "vectorSearchForStoryId bk theirStoryId searchTerm limit nerFilters minValue maxValue =
     (let combinedFilter = Some (story_filter theirStoryId nerFilters)
      in bind_r (getLocalEmbedding bk searchTerm) (\<lambda>vector.
         bind_r (bk_near_vector bk vector combinedFilter limit 0) (\<lambda>response.
         let processedObjects = map (\<lambda>obj. obj\<lparr>m_score := Some (nullish (m_certainty obj) 0)\<rparr>) response
         in Inr (filter (\<lambda>obj. in_unit_range minValue maxValue (nullish (m_certainty obj) 0))
                   processedObjects))))"

definition bm25SearchForStoryId ::
  "backend \<Rightarrow> string \<Rightarrow> string \<Rightarrow> nat \<Rightarrow> string list \<Rightarrow> score option \<Rightarrow> score option
   \<Rightarrow> wobj list result" where
  "bm25SearchForStoryId bk theirStoryId searchTerm limit nerFilters minValue maxValue =
     (let combinedFilter = Some (story_filter theirStoryId nerFilters)
      in bind_r (bk_bm25 bk searchTerm combinedFilter limit 0) (\<lambda>response.
         Inr (filter (\<lambda>obj. in_unit_range minValue maxValue (score0 obj)) (bm25_normalize response))))"

subsection \<open>Cross-collection entity search\<close>

text \<open>A datastore failure is caught and re-raised with a fixed message.\<close>

definition searchNerEntitiesAcrossCollection ::
  "backend \<Rightarrow> string \<Rightarrow> string \<Rightarrow> string \<Rightarrow> nat \<Rightarrow> wobj list result" where
  "searchNerEntitiesAcrossCollection bk entityText entityLabel excludeStoryUuid limit =
     (case bk_fetch bk (Some (cross_collection_filter entityText entityLabel excludeStoryUuid)) limit 0 of
        Inl _ \<Rightarrow> Inl (DependencyUnavailable ''Failed to search NER entities across collection'')
      | Inr response \<Rightarrow> Inr response)"

subsection \<open>A datastore that keeps its contract\<close>

text \<open>
  The contract the code relies on: a query returns only objects its filter admits, and
  at most \<open>limit\<close> of them. The reference datastore \<open>list_backend\<close> holds its corpus
  as a list, in the order it ranks it, and answers every query with the window
  \<open>[offset, offset + limit)\<close> of the objects the filter admits.
\<close>

definition backend_sound :: "backend \<Rightarrow> bool" where
  "backend_sound bk \<longleftrightarrow>
     (\<forall>f l off r. bk_fetch bk f l off = Inr r \<longrightarrow> list_all (applies f) r \<and> length r \<le> l) \<and>
     (\<forall>t f l off r. bk_bm25 bk t f l off = Inr r \<longrightarrow> list_all (applies f) r \<and> length r \<le> l) \<and>
     (\<forall>v f l off r. bk_near_vector bk v f l off = Inr r \<longrightarrow> list_all (applies f) r \<and> length r \<le> l)"

definition window :: "wobj list \<Rightarrow> filter option \<Rightarrow> nat \<Rightarrow> nat \<Rightarrow> wobj list" where
  "window corpus f l off = take l (drop off (filter (applies f) corpus))"

definition list_backend :: "wobj list \<Rightarrow> backend" where
  "list_backend corpus =
     \<lparr>bk_bm25 = (\<lambda>term f l off. Inr (window corpus f l off)),
      bk_near_vector = (\<lambda>vec f l off. Inr (window corpus f l off)),
      bk_fetch = (\<lambda>f l off. Inr (window corpus f l off)),
      bk_embed_http = (\<lambda>text. Inr (EmbedResponse True 200 []))\<rparr>"

lemma list_backend_sel [simp]:
  "bk_fetch (list_backend corpus) f l off = Inr (window corpus f l off)"
  "bk_bm25 (list_backend corpus) t f l off = Inr (window corpus f l off)"
  "bk_near_vector (list_backend corpus) v f l off = Inr (window corpus f l off)"
  "bk_embed_http (list_backend corpus) t = Inr (EmbedResponse True 200 [])"
  by (simp_all add: list_backend_def)

lemma window_sound: "list_all (applies f) (window corpus f l off) \<and> length (window corpus f l off) \<le> l"
proof -
  have "applies f x" if "x \<in> set (window corpus f l off)" for x
  proof -
    from that have "x \<in> set (take l (drop off (filter (applies f) corpus)))" by (simp only: window_def)
    then have "x \<in> set (filter (applies f) corpus)" by (blast dest: in_set_takeD in_set_dropD)
    then show ?thesis by simp
  qed
  then have "list_all (applies f) (window corpus f l off)" by (simp add: list_all_iff)
  moreover have "length (window corpus f l off) \<le> l" by (simp add: window_def)
  ultimately show ?thesis ..
qed

lemma backend_sound_list_backend: "backend_sound (list_backend corpus)"
  unfolding backend_sound_def by (simp add: window_sound)

subsection \<open>The ranking tail\<close>

lemma hybrid_rank_subseq:
  "subseq (hybrid_rank l mn mx m)
     (filter (\<lambda>item. in_range mn mx (score0 item)) (sort_key (\<lambda>ob. - score0 ob) m))"
  unfolding hybrid_rank_def using subseq_take dedupe_subseq subseq_order.order_trans by blast

text \<open>The ranked-result-set invariant: non-increasing combined score, one hit per start
  time, every score in the requested range, at most \<open>limit\<close> hits.\<close>

lemma hybrid_rank_props:
  "ranked (hybrid_rank l mn mx m) \<and> distinct (map start_time (hybrid_rank l mn mx m)) \<and>
   list_all (\<lambda>x. in_range mn mx (score0 x)) (hybrid_rank l mn mx m) \<and> length (hybrid_rank l mn mx m) \<le> l"
proof (intro conjI)
  show "ranked (hybrid_rank l mn mx m)"
    unfolding hybrid_rank_def by (intro ranked_take ranked_dedupe ranked_filter ranked_sort_key)
  show "distinct (map start_time (hybrid_rank l mn mx m))"
    unfolding hybrid_rank_def take_map [symmetric] by (intro distinct_take dedupe_distinct)
  have "set (hybrid_rank l mn mx m) \<subseteq> set (filter (\<lambda>item. in_range mn mx (score0 item))
      (sort_key (\<lambda>ob. - score0 ob) m))"
    by (rule subseq_set [OF hybrid_rank_subseq])
  then show "list_all (\<lambda>x. in_range mn mx (score0 x)) (hybrid_rank l mn mx m)"
    by (auto simp: list_all_iff)
  show "length (hybrid_rank l mn mx m) \<le> l"
    by (simp add: hybrid_rank_def)
qed

text \<open>
  C1: a successful hybrid search returns a ranked result set: combined scores
  non-increasing, no two hits with the same start time, every combined score inside
  \<open>[minValue, maxValue]\<close>, and at most \<open>limit\<close> hits.
\<close>

theorem hybridSearch_ranked:
  assumes "hybridSearch bk t limit offset ner cs mn mx = Inr r"
  shows "ranked r \<and> distinct (map start_time r) \<and> list_all (\<lambda>x. in_range mn mx (score0 x)) r \<and>
         length r \<le> limit"
proof -
  from assms obtain b vs where "r = hybrid_rank limit mn mx (hybrid_merge b vs)"
    by (auto simp: hybridSearch_def bind_r_Inr_iff Let_def)
  then show ?thesis by (simp only: hybrid_rank_props)
qed

lemmas hybrid_eval = hybridSearch_def getLocalEmbedding_def buildCombinedFilters_def window_def
  hybrid_merge_def hybrid_rank_def bmMap_def vecMap_def hybrid_bounds_def weights_def upsert_def
  fused_def normalize_def dedupe_by_start_time_def score0_def Let_def

theorem hybridSearch_ranked_witness:
  "\<exists>r. hybridSearch (list_backend [hit ''a'' (Some 0) (Some 2) (Some (3/5)),
         hit ''b'' (Some 1) (Some 4) (Some (9/10))]) ''q'' 10 0 [] [] None None = Inr r \<and>
       ranked r \<and> distinct (map start_time r) \<and> list_all (\<lambda>x. in_range None None (score0 x)) r \<and>
       length r \<le> 10"
proof -
  let ?bk = "list_backend [hit ''a'' (Some 0) (Some 2) (Some (3/5)), hit ''b'' (Some 1) (Some 4) (Some (9/10))]"
  have h: "hybridSearch ?bk ''q'' 10 0 [] [] None None =
    Inr [(hit ''b'' (Some 1) (Some 4) (Some (9/10)))\<lparr>m_score := Some (189/200), m_bm25 := Some 1,
            m_vector := Some (9/10)\<rparr>,
         (hit ''a'' (Some 0) (Some 2) (Some (3/5)))\<lparr>m_score := Some (111/200), m_bm25 := Some (1/2),
            m_vector := Some (3/5)\<rparr>]"
    by (simp add: hybrid_eval)
  from h hybridSearch_ranked [OF h] show ?thesis by blast
qed

text \<open>
  The fusion example: BM25 scores \<open>2\<close> and \<open>4\<close> and certainties \<open>0.6\<close> and
  \<open>0.9\<close> for the same two identifiers give the combined scores
  \<open>0.55 * 0.9 + 0.45 * 1 = 0.945\<close> and \<open>0.55 * 0.6 + 0.45 * 0.5 = 0.555\<close>, the BM25
  scores being divided by their maximum, and the hits come out by combined score,
  descending.
\<close>

theorem hybridSearch_example:
  "hybridSearch (list_backend [hit ''a'' (Some 0) (Some 2) (Some (3/5)),
      hit ''b'' (Some 1) (Some 4) (Some (9/10))]) ''q'' 10 0 [] [] None None =
    Inr [(hit ''b'' (Some 1) (Some 4) (Some (9/10)))\<lparr>m_score := Some (189/200), m_bm25 := Some 1,
            m_vector := Some (9/10)\<rparr>,
         (hit ''a'' (Some 0) (Some 2) (Some (3/5)))\<lparr>m_score := Some (111/200), m_bm25 := Some (1/2),
            m_vector := Some (3/5)\<rparr>]"
  by (simp add: hybrid_eval)

end
