(* ===== verification/Entities.thy ===== *)
theory Entities
  imports Retrieval
begin

text \<open>
  The Entity Aggregator of \<open>src/lib/weaviate/search.ts\<close>: the count key
  \<open>NER_ENTITY_RECORDING_COUNT_KEY\<close> (lines 675--676), the on-demand lookup
  \<open>getNerEntityRecordingCounts\<close> (679--717), the snapshot reader
  \<open>getEntityRecordingCountsMap\<close> (722--737) and the bulk rebuild
  \<open>buildEntityRecordingCountsMap\<close> (739--788), whose loop pages through the whole
  corpus up to the datastore's result ceiling. The map \<open>keyToIds\<close> of the rebuild is an
  association list in the \<open>Map\<close>'s insertion order, the order in which the snapshot's
  keys are written.
\<close>

definition NER_ENTITY_RECORDING_COUNT_KEY :: "string \<Rightarrow> string \<Rightarrow> string" where
  "NER_ENTITY_RECORDING_COUNT_KEY text label = to_lower text @ ''|'' @ label"

subsection \<open>On-demand lookup\<close>

text \<open>The distinct non-empty recording ids of a response (\<open>if (id) ids.add(id)\<close>).\<close>

definition recording_ids :: "wobj list \<Rightarrow> string set" where
  "recording_ids objs = set (filter (\<lambda>id. id \<noteq> []) (map theirstory_id objs))"

text \<open>One pair's count: a fetch bounded to \<open>1000\<close> objects; a failure is caught and
  counts \<open>0\<close>.\<close>

definition count_for :: "backend \<Rightarrow> string \<times> string \<Rightarrow> nat" where
  "count_for bk e =
     (case e of (text, label) \<Rightarrow>
        (case bk_fetch bk (Some (entity_filter text label)) 1000 0 of
           Inl _ \<Rightarrow> 0
         | Inr response \<Rightarrow> card (recording_ids response)))"

text \<open>The loop body: \<open>result[NER_ENTITY_RECORDING_COUNT_KEY(text, label)] = count\<close>.\<close>

definition put_count :: "backend \<Rightarrow> string \<times> string \<Rightarrow> (string \<rightharpoonup> nat) \<Rightarrow> (string \<rightharpoonup> nat)" where
  "put_count bk e result = result(NER_ENTITY_RECORDING_COUNT_KEY (fst e) (snd e) \<mapsto> count_for bk e)"

definition getNerEntityRecordingCounts :: "backend \<Rightarrow> (string \<times> string) list \<Rightarrow> (string \<rightharpoonup> nat)" where
  "getNerEntityRecordingCounts bk entities =
     (if entities = [] then Map.empty else fold (put_count bk) entities Map.empty)"

subsection \<open>The snapshot\<close>

text \<open>The value \<open>JSON.parse\<close> returns; \<open>None\<close> is a missing file or a parse error.
  An object \<open>JObj\<close> lists its own entries in \<open>Object.entries\<close> order; as for any
  parsed object, its keys are distinct.\<close>

datatype json = JNull | JBool bool | JNum rat | JStr string | JArr "json list" | JObj "(string \<times> json) list"

text \<open>\<open>getEntityRecordingCountsMap\<close>: only a non-null, non-array object is read, and
  only its entries with a non-negative number.\<close>

text \<open>The loop body: \<open>if (typeof value === 'number' && value >= 0) result[key] = value\<close>.\<close>

fun read_entry :: "string \<times> json \<Rightarrow> (string \<rightharpoonup> rat) \<Rightarrow> (string \<rightharpoonup> rat)" where
  "read_entry (key, JNum v) result = (if 0 \<le> v then result(key \<mapsto> v) else result)"
| "read_entry (key, _) result = result"

definition getEntityRecordingCountsMap :: "json option \<Rightarrow> (string \<rightharpoonup> rat)" where
  "getEntityRecordingCountsMap parsed =
     (case parsed of
        Some (JObj entries) \<Rightarrow> fold read_entry entries Map.empty
      | _ \<Rightarrow> Map.empty)"

text \<open>\<open>JSON.stringify(result)\<close> of the rebuilt counts, keys in the map's order.\<close>

definition counts_json :: "(string \<times> nat) list \<Rightarrow> json" where
  "counts_json result = JObj (map (\<lambda>(k, n). (k, JNum (of_nat n))) result)"

subsection \<open>Bulk rebuild\<close>

definition BUILD_ENTITY_COUNTS_PAGE_SIZE :: nat where
  "BUILD_ENTITY_COUNTS_PAGE_SIZE = 100"

definition BUILD_ENTITY_COUNTS_MAX_OFFSET :: nat where
  "BUILD_ENTITY_COUNTS_MAX_OFFSET = 10000 - BUILD_ENTITY_COUNTS_PAGE_SIZE"

text \<open>The (text, label) pairs of a chunk (lines 762--768): index-aligned entries of
  \<open>ner_text\<close> and \<open>ner_labels\<close> up to the shorter length, the text lower-cased and
  trimmed, the label trimmed, empty ones skipped.\<close>

definition chunk_pairs :: "wobj \<Rightarrow> (string \<times> string) list" where
  "chunk_pairs ob =
     filter (\<lambda>(text, label). text \<noteq> [] \<and> label \<noteq> [])
       (map (\<lambda>(t, l). (trim (to_lower t), trim l)) (zip (ner_text ob) (ner_labels ob)))"

text \<open>\<open>if (!keyToIds.has(key)) keyToIds.set(key, new Set()); keyToIds.get(key)!.add(id)\<close>\<close>

definition add_id :: "string \<Rightarrow> string \<Rightarrow> (string \<times> string set) list \<Rightarrow> (string \<times> string set) list" where
  "add_id key theirstoryId keyToIds =
     (case map_of keyToIds key of
        None \<Rightarrow> am_set key {theirstoryId} keyToIds
      | Some ids \<Rightarrow> am_set key (insert theirstoryId ids) keyToIds)"

text \<open>One object of a page (lines 759--772): skipped without a recording id.\<close>

definition accumulate_obj :: "(string \<times> string set) list \<Rightarrow> wobj \<Rightarrow> (string \<times> string set) list" where
  "accumulate_obj keyToIds ob =
     (let theirstoryId = theirstory_id ob
      in if theirstoryId = [] then keyToIds
         else fold (\<lambda>(text, label) acc. add_id (NER_ENTITY_RECORDING_COUNT_KEY text label) theirstoryId acc)
                (chunk_pairs ob) keyToIds)"

definition accumulate_page :: "(string \<times> string set) list \<Rightarrow> wobj list \<Rightarrow> (string \<times> string set) list" where
  "accumulate_page keyToIds objs = fold (\<lambda>ob acc. accumulate_obj acc ob) objs keyToIds"

text \<open>The loop (lines 752--776): while the last page was full and the offset is within
  the ceiling, fetch the next page, accumulate it, and advance. A failed fetch raises
  out of the function.\<close>

function build_loop ::
  "backend \<Rightarrow> nat \<Rightarrow> bool \<Rightarrow> (string \<times> string set) list \<Rightarrow> (string \<times> string set) list result" where
  "build_loop bk offset hasMore keyToIds =
     (if hasMore \<and> offset \<le> BUILD_ENTITY_COUNTS_MAX_OFFSET then
        (case bk_fetch bk None BUILD_ENTITY_COUNTS_PAGE_SIZE offset of
           Inl e \<Rightarrow> Inl e
         | Inr response \<Rightarrow>
             build_loop bk (offset + BUILD_ENTITY_COUNTS_PAGE_SIZE)
               (length response = BUILD_ENTITY_COUNTS_PAGE_SIZE) (accumulate_page keyToIds response))
      else Inr keyToIds)"
  by pat_completeness auto
termination
  by (relation "measure (\<lambda>(bk, offset, hasMore, acc). Suc BUILD_ENTITY_COUNTS_MAX_OFFSET - offset)")
     (auto simp: BUILD_ENTITY_COUNTS_PAGE_SIZE_def)

declare build_loop.simps [simp del]

definition buildEntityRecordingCountsMap :: "backend \<Rightarrow> (string \<times> nat) list result" where
  "buildEntityRecordingCountsMap bk =
     bind_r (build_loop bk 0 True []) (\<lambda>keyToIds. Inr (map (\<lambda>(key, ids). (key, card ids)) keyToIds))"

subsection \<open>The rebuild pages through a prefix of the corpus\<close>

lemma filter_applies_None [simp]: "filter (applies None) xs = xs"
  by (induction xs) simp_all

lemma accumulate_page_append:
  "accumulate_page acc (xs @ ys) = accumulate_page (accumulate_page acc xs) ys"
  by (simp add: accumulate_page_def)

lemma accumulate_page_Nil [simp]: "accumulate_page acc [] = acc"
  by (simp add: accumulate_page_def)

lemma build_loop_done:
  assumes "\<not> (hasMore \<and> offset \<le> BUILD_ENTITY_COUNTS_MAX_OFFSET)"
  shows "build_loop bk offset hasMore acc = Inr acc"
  by (subst build_loop.simps) (simp only: assms if_False)

lemma build_loop_step:
  "hasMore \<Longrightarrow> offset \<le> BUILD_ENTITY_COUNTS_MAX_OFFSET \<Longrightarrow>
   build_loop (list_backend c) offset hasMore acc =
     build_loop (list_backend c) (offset + 100) (length (take 100 (drop offset c)) = 100)
       (accumulate_page acc (take 100 (drop offset c)))"
  by (simp add: build_loop.simps [of _ offset] window_def BUILD_ENTITY_COUNTS_PAGE_SIZE_def)

text \<open>With \<open>n\<close> pages left before the ceiling, the loop accumulates the next
  \<open>100 * n\<close> objects of the corpus, or all that remain when a short page ends it.\<close>

lemma build_loop_list_backend:
  assumes "n \<le> 100" and "\<not> hasMore \<longrightarrow> drop (10000 - 100 * n) c = []"
  shows "build_loop (list_backend c) (10000 - 100 * n) hasMore acc =
           Inr (accumulate_page acc (take (100 * n) (drop (10000 - 100 * n) c)))"
  using assms
proof (induction n arbitrary: hasMore acc)
  case 0
  then show ?case by (simp add: build_loop_done BUILD_ENTITY_COUNTS_MAX_OFFSET_def
      BUILD_ENTITY_COUNTS_PAGE_SIZE_def)
next
  case (Suc n)
  let ?off = "10000 - 100 * Suc n"
  let ?page = "take 100 (drop ?off c)"
  show ?case
  proof (cases hasMore)
    case False
    with Suc.prems show ?thesis by (simp add: build_loop_done)
  next
    case True
    have off: "?off + 100 = 10000 - 100 * n" and le: "?off \<le> BUILD_ENTITY_COUNTS_MAX_OFFSET"
      using Suc.prems(1) by (simp_all add: BUILD_ENTITY_COUNTS_MAX_OFFSET_def
          BUILD_ENTITY_COUNTS_PAGE_SIZE_def)
    have more: "\<not> (length ?page = 100) \<longrightarrow> drop (10000 - 100 * n) c = []"
      by (auto simp: min_def off [symmetric])
    have "build_loop (list_backend c) ?off hasMore acc =
          build_loop (list_backend c) (10000 - 100 * n) (length ?page = 100) (accumulate_page acc ?page)"
      using True le by (simp only: build_loop_step off)
    also have "\<dots> = Inr (accumulate_page (accumulate_page acc ?page)
                        (take (100 * n) (drop (10000 - 100 * n) c)))"
      using Suc.prems(1) more by (intro Suc.IH) simp_all
    also have "?page @ take (100 * n) (drop (10000 - 100 * n) c) = take (100 * Suc n) (drop ?off c)"
      by (simp add: take_add off [symmetric] add.commute)
    ultimately show ?thesis by (simp add: accumulate_page_append [symmetric])
  qed
qed

lemma buildEntityRecordingCountsMap_list_backend:
  "buildEntityRecordingCountsMap (list_backend c) =
     Inr (map (\<lambda>(key, ids). (key, card ids)) (accumulate_page [] (take 10000 c)))"
  using build_loop_list_backend [of 100 True c "[]"] by (simp add: buildEntityRecordingCountsMap_def)

subsection \<open>What the rebuild counts\<close>

lemma map_fst_card: "map fst (map (\<lambda>(key, ids). (key, card ids)) xs) = map fst xs"
  by (simp add: case_prod_beta)

text \<open>The keys of a chunk's pairs, and the recordings whose chunks carry a key.\<close>

definition pair_keys :: "wobj \<Rightarrow> string list" where
  "pair_keys ob = map (\<lambda>(t, l). NER_ENTITY_RECORDING_COUNT_KEY t l) (chunk_pairs ob)"

definition ids_with :: "string \<Rightarrow> wobj list \<Rightarrow> string set" where
  "ids_with k objs =
     set (map theirstory_id (filter (\<lambda>ob. theirstory_id ob \<noteq> [] \<and> k \<in> set (pair_keys ob)) objs))"

lemma map_of_add_id:
  "map_of (add_id key i al) = (map_of al)(key \<mapsto> insert i (nullish (map_of al key) {}))"
  by (cases "map_of al key") (simp_all add: add_id_def)

lemma distinct_add_id [simp]: "distinct (map fst al) \<Longrightarrow> distinct (map fst (add_id key i al))"
  by (cases "map_of al key") (simp_all add: add_id_def)

lemma fold_add_id:
  "map_of (fold (\<lambda>(text, label) acc. add_id (NER_ENTITY_RECORDING_COUNT_KEY text label) i acc) ps acc) k =
     (if k \<in> set (map (\<lambda>(t, l). NER_ENTITY_RECORDING_COUNT_KEY t l) ps)
      then Some (insert i (nullish (map_of acc k) {})) else map_of acc k)"
proof (induction ps arbitrary: acc)
  case (Cons p ps)
  obtain t l where p: "p = (t, l)" by fastforce
  show ?case
    by (cases "map_of acc k") (auto simp: Cons.IH p map_of_add_id)
qed simp

lemma map_of_accumulate_obj:
  "map_of (accumulate_obj acc ob) k =
     (if theirstory_id ob \<noteq> [] \<and> k \<in> set (pair_keys ob)
      then Some (insert (theirstory_id ob) (nullish (map_of acc k) {})) else map_of acc k)"
  by (simp add: accumulate_obj_def fold_add_id pair_keys_def Let_def)

lemma map_of_accumulate_page:
  "map_of (accumulate_page acc objs) k =
     (if ids_with k objs = {} then map_of acc k else Some (nullish (map_of acc k) {} \<union> ids_with k objs))"
proof (induction objs arbitrary: acc)
  case (Cons ob objs)
  have step: "accumulate_page acc (ob # objs) = accumulate_page (accumulate_obj acc ob) objs"
    by (simp add: accumulate_page_def)
  show ?case
    by (cases "map_of acc k") (auto simp: step Cons.IH map_of_accumulate_obj ids_with_def filter_empty_conv)
qed (simp add: ids_with_def)

lemma distinct_accumulate_page: "distinct (map fst acc) \<Longrightarrow> distinct (map fst (accumulate_page acc objs))"
proof (induction objs arbitrary: acc)
  case (Cons ob objs)
  have "distinct (map fst (fold (\<lambda>(text, label) acc. add_id (NER_ENTITY_RECORDING_COUNT_KEY text label) i acc) ps acc))"
    if "distinct (map fst acc)" for ps i acc
    using that by (induction ps arbitrary: acc) auto
  then have "distinct (map fst (accumulate_obj acc ob))"
    using Cons.prems by (simp add: accumulate_obj_def Let_def)
  then show ?case using Cons.IH by (simp add: accumulate_page_def)
qed simp

text \<open>
  C6: the snapshot rebuild, run against a datastore that pages through its corpus,
  returns one entry per key, and the count of a key is the number of distinct recordings
  whose chunks, among the first \<open>10000\<close> of the corpus, carry that key in an
  index-aligned (text, label) pair; keys no such chunk carries are absent.
\<close>

theorem buildEntityRecordingCountsMap_counts:
  "\<exists>r. buildEntityRecordingCountsMap (list_backend c) = Inr r \<and> distinct (map fst r) \<and>
     (\<forall>k. map_of r k = (if ids_with k (take 10000 c) = {} then None
                        else Some (card (ids_with k (take 10000 c)))))"
proof -
  let ?acc = "accumulate_page [] (take 10000 c)"
  let ?r = "map (\<lambda>(key, ids). (key, card ids)) ?acc"
  have "distinct (map fst ?acc)" by (rule distinct_accumulate_page) simp
  then have "distinct (map fst ?r)" by (simp only: map_fst_card)
  moreover have "map_of ?r k = (if ids_with k (take 10000 c) = {} then None
                                else Some (card (ids_with k (take 10000 c))))" for k
    by (simp add: map_of_map map_of_accumulate_page)
  ultimately show ?thesis using buildEntityRecordingCountsMap_list_backend by blast
qed

text \<open>
  The rebuild stops at the datastore's result ceiling without saying so: the chunks
  after the first \<open>10000\<close> have no effect on its result, and the result carries no
  mark that the scan was partial.
\<close>

theorem buildEntityRecordingCountsMap_ceiling:
  "buildEntityRecordingCountsMap (list_backend c) = buildEntityRecordingCountsMap (list_backend (take 10000 c))"
  by (simp add: buildEntityRecordingCountsMap_list_backend)

text \<open>The loop reads the datastore only at the offsets of whole pages from its start, up
  to the ceiling.\<close>

lemma build_loop_fetches:
  assumes "\<forall>off. offset \<le> off \<longrightarrow> off \<le> BUILD_ENTITY_COUNTS_MAX_OFFSET \<longrightarrow>
             BUILD_ENTITY_COUNTS_PAGE_SIZE dvd (off - offset) \<longrightarrow>
             bk_fetch bk1 None BUILD_ENTITY_COUNTS_PAGE_SIZE off = bk_fetch bk2 None BUILD_ENTITY_COUNTS_PAGE_SIZE off"
  shows "build_loop bk1 offset hasMore acc = build_loop bk2 offset hasMore acc"
  using assms
proof (induction bk1 offset hasMore acc rule: build_loop.induct)
  case (1 bk1 offset hasMore acc)
  show ?case
  proof (cases "hasMore \<and> offset \<le> BUILD_ENTITY_COUNTS_MAX_OFFSET")
    case True
    let ?P = BUILD_ENTITY_COUNTS_PAGE_SIZE
    have same: "bk_fetch bk1 None ?P offset = bk_fetch bk2 None ?P offset"
      using "1.prems" True by simp
    have next_ok: "\<forall>off. offset + ?P \<le> off \<longrightarrow> off \<le> BUILD_ENTITY_COUNTS_MAX_OFFSET \<longrightarrow>
             ?P dvd (off - (offset + ?P)) \<longrightarrow> bk_fetch bk1 None ?P off = bk_fetch bk2 None ?P off"
    proof (intro allI impI)
      fix off assume a: "offset + ?P \<le> off" "off \<le> BUILD_ENTITY_COUNTS_MAX_OFFSET" "?P dvd (off - (offset + ?P))"
      have "off - offset = (off - (offset + ?P)) + ?P" using a(1) by simp
      then have "?P dvd (off - offset)" using a(3) by (metis dvd_add dvd_refl)
      then show "bk_fetch bk1 None ?P off = bk_fetch bk2 None ?P off" using "1.prems" a by simp
    qed
    show ?thesis
    proof (cases "bk_fetch bk1 None ?P offset")
      case (Inl e)
      then show ?thesis using True same by (simp add: build_loop.simps [of _ offset])
    next
      case (Inr response)
      have "build_loop bk1 (offset + ?P) (length response = ?P) (accumulate_page acc response) =
            build_loop bk2 (offset + ?P) (length response = ?P) (accumulate_page acc response)"
        using True Inr next_ok by (rule "1.IH")
      then show ?thesis using True Inr same by (simp add: build_loop.simps [of _ offset])
    qed
  qed (simp add: build_loop_done)
qed

text \<open>
  C8: the rebuild terminates after at most \<open>100\<close> page fetches, at the offsets
  \<open>0, 100, \<dots>, 9900\<close>: two datastores that answer those fetches alike give the same
  result, whatever they answer elsewhere.
\<close>

theorem buildEntityRecordingCountsMap_fetches:
  assumes "\<forall>off \<le> BUILD_ENTITY_COUNTS_MAX_OFFSET. BUILD_ENTITY_COUNTS_PAGE_SIZE dvd off \<longrightarrow>
             bk_fetch bk1 None BUILD_ENTITY_COUNTS_PAGE_SIZE off = bk_fetch bk2 None BUILD_ENTITY_COUNTS_PAGE_SIZE off"
  shows "buildEntityRecordingCountsMap bk1 = buildEntityRecordingCountsMap bk2"
proof -
  have "build_loop bk1 0 True [] = build_loop bk2 0 True []"
    by (rule build_loop_fetches) (use assms in simp)
  then show ?thesis by (simp add: buildEntityRecordingCountsMap_def)
qed

definition failing_beyond :: "backend \<Rightarrow> backend" where
  "failing_beyond bk =
     bk\<lparr>bk_fetch := \<lambda>f l off. if 10000 \<le> off \<or> \<not> 100 dvd off then Inl (DependencyUnavailable ''down'')
                               else bk_fetch bk f l off\<rparr>"

theorem buildEntityRecordingCountsMap_fetches_witness:
  "buildEntityRecordingCountsMap (list_backend []) = buildEntityRecordingCountsMap (failing_beyond (list_backend [])) \<and>
   bk_fetch (failing_beyond (list_backend [])) None BUILD_ENTITY_COUNTS_PAGE_SIZE 10000 =
     Inl (DependencyUnavailable ''down'')"
proof
  have h: "\<forall>off \<le> BUILD_ENTITY_COUNTS_MAX_OFFSET. BUILD_ENTITY_COUNTS_PAGE_SIZE dvd off \<longrightarrow>
      bk_fetch (list_backend []) None BUILD_ENTITY_COUNTS_PAGE_SIZE off =
      bk_fetch (failing_beyond (list_backend [])) None BUILD_ENTITY_COUNTS_PAGE_SIZE off"
    by (simp add: failing_beyond_def BUILD_ENTITY_COUNTS_MAX_OFFSET_def BUILD_ENTITY_COUNTS_PAGE_SIZE_def)
  show "buildEntityRecordingCountsMap (list_backend []) = buildEntityRecordingCountsMap (failing_beyond (list_backend []))"
    by (rule buildEntityRecordingCountsMap_fetches [OF h])
  show "bk_fetch (failing_beyond (list_backend [])) None BUILD_ENTITY_COUNTS_PAGE_SIZE 10000 =
     Inl (DependencyUnavailable ''down'')"
    by (simp add: failing_beyond_def)
qed

subsection \<open>Snapshot round trip\<close>

lemma fold_read_counts:
  assumes "distinct (map fst r)"
  shows "fold read_entry (map (\<lambda>(k, n). (k, JNum (of_nat n))) r) m k =
         (case map_of r k of None \<Rightarrow> m k | Some n \<Rightarrow> Some (of_nat n))"
  using assms
proof (induction r arbitrary: m)
  case (Cons p r)
  obtain k0 n0 where p: "p = (k0, n0)" by fastforce
  with Cons.prems have nk: "map_of r k0 = None" and d: "distinct (map fst r)"
    by (simp_all add: map_of_eq_None_iff)
  have "fold read_entry (map (\<lambda>(k, n). (k, JNum (of_nat n))) (p # r)) m k =
        fold read_entry (map (\<lambda>(k, n). (k, JNum (of_nat n))) r) (m(k0 \<mapsto> of_nat n0)) k"
    by (simp add: p)
  also have "\<dots> = (case map_of r k of None \<Rightarrow> (m(k0 \<mapsto> of_nat n0)) k | Some n \<Rightarrow> Some (of_nat n))"
    by (rule Cons.IH [OF d])
  finally show ?case using nk p by (cases "k = k0") (simp_all split: option.splits)
qed simp

text \<open>
  C9: reading back a snapshot written from counts with distinct keys gives exactly
  those counts: every key with its count, no other key.
\<close>

theorem snapshot_roundtrip:
  assumes "distinct (map fst r)"
  shows "getEntityRecordingCountsMap (Some (counts_json r)) k = map_option of_nat (map_of r k)"
  using fold_read_counts [OF assms, of Map.empty k]
  by (simp add: getEntityRecordingCountsMap_def counts_json_def option.map_sel split: option.splits)

theorem snapshot_roundtrip_witness:
  "getEntityRecordingCountsMap (Some (counts_json [(''paris|LOC'', 2), (''rome|LOC'', 1)])) ''rome|LOC'' = Some 1"
  using snapshot_roundtrip [of "[(''paris|LOC'', 2), (''rome|LOC'', 1)]" "''rome|LOC''"] by simp

lemma getEntityRecordingCountsMap_missing: "getEntityRecordingCountsMap None = Map.empty"
  by (simp add: getEntityRecordingCountsMap_def)

subsection \<open>On-demand lookup\<close>

lemma fold_counts_lookup:
  assumes "distinct (map (\<lambda>e. NER_ENTITY_RECORDING_COUNT_KEY (fst e) (snd e)) es)"
  shows "fold (put_count bk) es m k =
         (case map_of (map (\<lambda>e. (NER_ENTITY_RECORDING_COUNT_KEY (fst e) (snd e), count_for bk e)) es) k of
            None \<Rightarrow> m k | Some n \<Rightarrow> Some n)"
  using assms
proof (induction es arbitrary: m)
  case (Cons e es)
  let ?k0 = "NER_ENTITY_RECORDING_COUNT_KEY (fst e) (snd e)"
  from Cons.prems have d: "distinct (map (\<lambda>e. NER_ENTITY_RECORDING_COUNT_KEY (fst e) (snd e)) es)"
    by simp
  from Cons.prems have nk: "map_of (map (\<lambda>e. (NER_ENTITY_RECORDING_COUNT_KEY (fst e) (snd e), count_for bk e)) es) ?k0 = None"
    by (auto simp: map_of_eq_None_iff comp_def image_iff)
  have "fold (put_count bk) (e # es) m k = fold (put_count bk) es (m(?k0 \<mapsto> count_for bk e)) k"
    by (simp add: put_count_def)
  also have "\<dots> = (case map_of (map (\<lambda>e. (NER_ENTITY_RECORDING_COUNT_KEY (fst e) (snd e), count_for bk e)) es) k of
            None \<Rightarrow> (m(?k0 \<mapsto> count_for bk e)) k | Some n \<Rightarrow> Some n)"
    by (rule Cons.IH [OF d])
  finally show ?case using nk by (cases "k = ?k0") (simp_all split: option.splits)
qed simp

lemma count_for_failure:
  "bk_fetch bk (Some (entity_filter t l)) 1000 0 = Inl err \<Longrightarrow> count_for bk (t, l) = 0"
  by (simp add: count_for_def)

lemma count_for_bound: "backend_sound bk \<Longrightarrow> count_for bk e \<le> 1000"
proof -
  assume sound: "backend_sound bk"
  obtain t l where e: "e = (t, l)" by fastforce
  show ?thesis
  proof (cases "bk_fetch bk (Some (entity_filter t l)) 1000 0")
    case (Inr response)
    have "card (recording_ids response) \<le> length (filter (\<lambda>id. id \<noteq> []) (map theirstory_id response))"
      unfolding recording_ids_def by (rule card_length)
    also have "\<dots> \<le> length response" by (simp add: length_filter_le [THEN order_trans])
    also have "\<dots> \<le> 1000" using sound Inr by (auto simp: backend_sound_def)
    finally show ?thesis using Inr e by (simp add: count_for_def)
  qed (simp add: count_for_def e)
qed

text \<open>
  C10: for a batch whose keys are distinct, the lookup reports, under each pair's key,
  that pair's own count: the distinct recordings among at most \<open>1000\<close> matching chunks,
  or \<open>0\<close> when that pair's query failed, whatever happened to the other pairs.
\<close>

theorem getNerEntityRecordingCounts_lookup:
  assumes "distinct (map (\<lambda>e. NER_ENTITY_RECORDING_COUNT_KEY (fst e) (snd e)) es)" and "e \<in> set es"
  shows "getNerEntityRecordingCounts bk es (NER_ENTITY_RECORDING_COUNT_KEY (fst e) (snd e)) =
           Some (case bk_fetch bk (Some (entity_filter (fst e) (snd e))) 1000 0 of
                   Inl _ \<Rightarrow> 0 | Inr response \<Rightarrow> card (recording_ids response))"
proof -
  have "map_of (map (\<lambda>e. (NER_ENTITY_RECORDING_COUNT_KEY (fst e) (snd e), count_for bk e)) es)
          (NER_ENTITY_RECORDING_COUNT_KEY (fst e) (snd e)) = Some (count_for bk e)"
    using assms by (intro map_of_is_SomeI) (auto simp: comp_def)
  moreover from assms(2) have "es \<noteq> []" by auto
  ultimately show ?thesis
    using fold_counts_lookup [OF assms(1), of bk Map.empty "NER_ENTITY_RECORDING_COUNT_KEY (fst e) (snd e)"]
    by (simp add: getNerEntityRecordingCounts_def count_for_def split: prod.splits)
qed


text \<open>A chunk of the given recording with the given entity arrays: the shape of the
  concrete inputs the witnesses below evaluate.\<close>

definition chunk :: "string \<Rightarrow> string list \<Rightarrow> string list \<Rightarrow> wobj" where
  "chunk sid texts labels = \<lparr>obj_id = ''c'', start_time = None, theirstory_id = sid, collection_id = [],
     ner_text = texts, ner_labels = labels, m_score = None, m_certainty = None, m_bm25 = None,
     m_vector = None\<rparr>"

theorem getNerEntityRecordingCounts_lookup_witness:
  "getNerEntityRecordingCounts (list_backend [chunk ''s1'' [''paris''] [''LOC''], chunk ''s2'' [''paris''] [''LOC'']])
     [(''paris'', ''LOC'')] (NER_ENTITY_RECORDING_COUNT_KEY ''paris'' ''LOC'') = Some 2"
  using getNerEntityRecordingCounts_lookup [of "[(''paris'', ''LOC'')]" "(''paris'', ''LOC'')"
      "list_backend [chunk ''s1'' [''paris''] [''LOC''], chunk ''s2'' [''paris''] [''LOC'']]"]
  by (simp add: window_def entity_filter_def chunk_def recording_ids_def to_lower_def lower_char_def)

subsection \<open>The count key\<close>

lemma sep_append_inj:
  assumes "c \<notin> set xs" and "c \<notin> set xs'" and "xs @ c # ys = xs' @ c # ys'"
  shows "xs = xs' \<and> ys = ys'"
  using assms
proof (induction xs arbitrary: xs')
  case Nil
  then show ?case by (cases xs') auto
next
  case (Cons x xs)
  then show ?case by (cases xs') auto
qed

lemma lower_char_bar: "lower_char c = CHR ''|'' \<longleftrightarrow> c = CHR ''|''"
proof
  assume l: "lower_char c = CHR ''|''"
  show "c = CHR ''|''"
  proof (cases "CHR ''A'' \<le> c \<and> c \<le> CHR ''Z''")
    case True
    then have "65 \<le> (of_char c :: nat)" "(of_char c :: nat) \<le> 90" by (simp_all add: less_eq_char_def)
    moreover from True l have "char_of (of_char c + (32::nat)) = CHR ''|''" by (simp add: lower_char_def)
    then have "of_char (char_of (of_char c + (32::nat)) :: char) = (124::nat)" by simp
    ultimately show ?thesis by (simp add: of_char_of)
  qed (use l in \<open>auto simp: lower_char_def split: if_splits\<close>)
qed (simp add: lower_char_def)

lemma bar_to_lower: "CHR ''|'' \<in> set (to_lower t) \<longleftrightarrow> CHR ''|'' \<in> set t"
  by (auto simp: to_lower_def image_iff) (metis lower_char_bar)+

text \<open>
  C7: when no entity text contains the separator \<open>|\<close>, two pairs have the same count key
  exactly when their texts agree up to case and their labels are equal.
\<close>

theorem count_key_inj:
  assumes "CHR ''|'' \<notin> set t1" and "CHR ''|'' \<notin> set t2"
  shows "NER_ENTITY_RECORDING_COUNT_KEY t1 l1 = NER_ENTITY_RECORDING_COUNT_KEY t2 l2 \<longleftrightarrow>
           to_lower t1 = to_lower t2 \<and> l1 = l2"
  using sep_append_inj [of "CHR ''|''" "to_lower t1" "to_lower t2" l1 l2] assms
  by (auto simp: NER_ENTITY_RECORDING_COUNT_KEY_def bar_to_lower)

theorem count_key_inj_witness:
  "NER_ENTITY_RECORDING_COUNT_KEY ''Paris'' ''LOC'' = NER_ENTITY_RECORDING_COUNT_KEY ''paris'' ''LOC''"
proof -
  have p: "char_of (112::nat) = CHR ''p''" by code_simp
  show ?thesis
    using count_key_inj [of "''Paris''" "''paris''" "''LOC''" "''LOC''"]
    by (simp add: to_lower_def lower_char_def p)
qed

text \<open>
  With the separator in an entity text the key is not injective: the pairs
  \<open>(a|b, c)\<close> and \<open>(a, b|c)\<close> share one count.
\<close>

theorem count_key_collision:
  "(''a|b'', ''c'') \<noteq> (''a'', ''b|c'') \<and>
   NER_ENTITY_RECORDING_COUNT_KEY ''a|b'' ''c'' = NER_ENTITY_RECORDING_COUNT_KEY ''a'' ''b|c''"
  by (simp add: NER_ENTITY_RECORDING_COUNT_KEY_def to_lower_def lower_char_def)

text \<open>
  The on-demand lookup and the snapshot disagree on the same corpus. The lookup's
  filter tests the text and the label on separate arrays, so a chunk with entities
  \<open>paris/LOC\<close> and \<open>rome/PER\<close> counts for \<open>(rome, LOC)\<close>; the rebuild pairs the
  arrays index by index and has no key \<open>rome|LOC\<close>.
\<close>

theorem lookup_rebuild_divergence:
  "getNerEntityRecordingCounts (list_backend [chunk ''s1'' [''paris'', ''rome''] [''LOC'', ''PER'']])
     [(''rome'', ''LOC'')] (NER_ENTITY_RECORDING_COUNT_KEY ''rome'' ''LOC'') = Some 1 \<and>
   (\<exists>r. buildEntityRecordingCountsMap (list_backend [chunk ''s1'' [''paris'', ''rome''] [''LOC'', ''PER'']]) = Inr r \<and>
        map_of r (NER_ENTITY_RECORDING_COUNT_KEY ''rome'' ''LOC'') = None)"
proof -
  let ?ob = "chunk ''s1'' [''paris'', ''rome''] [''LOC'', ''PER'']"
  have lookup: "getNerEntityRecordingCounts (list_backend [?ob]) [(''rome'', ''LOC'')]
                  (NER_ENTITY_RECORDING_COUNT_KEY ''rome'' ''LOC'') = Some 1"
    by (simp add: getNerEntityRecordingCounts_def put_count_def count_for_def window_def
        entity_filter_def chunk_def recording_ids_def to_lower_def lower_char_def)
  have "pair_keys ?ob = [''paris|LOC'', ''rome|PER'']"
    by (simp add: pair_keys_def chunk_pairs_def chunk_def trim_def is_ws_def
        to_lower_def lower_char_def NER_ENTITY_RECORDING_COUNT_KEY_def)
  then have "ids_with (NER_ENTITY_RECORDING_COUNT_KEY ''rome'' ''LOC'') [?ob] = {}"
    by (simp add: ids_with_def NER_ENTITY_RECORDING_COUNT_KEY_def to_lower_def lower_char_def)
  then show ?thesis
    using lookup buildEntityRecordingCountsMap_list_backend [of "[?ob]"]
    by (simp add: map_of_map map_of_accumulate_page)
qed

end
