(* ===== verification/Collections.thy ===== *)
theory Collections
  imports Retrieval
begin

text \<open>
  The collection listing of \<open>src/lib/weaviate/search.ts\<close>: the local metadata loader
  \<open>loadCollectionMetadataMap\<close> (lines 28--56), the paged story fetch
  \<open>getAllStoriesFromCollection\<close> (118--137) and \<open>getAvailableCollections\<close>
  (139--177), which counts the recordings of each collection and names it from the
  local metadata or the recordings' own properties. The directory listing and the file
  reads are inputs: a list of directory entries, each with the outcome of reading and
  parsing its \<open>collection.json\<close>. The comparator \<open>localeCompare\<close> is a collation
  key \<open>collate\<close> into a linear order, so the sort is the stable \<open>sort_key\<close>.
\<close>

text \<open>JavaScript's \<open>a || b\<close> on strings: the empty string is falsy.\<close>

definition js_or :: "string \<Rightarrow> string \<Rightarrow> string" where
  "js_or a b = (if a = [] then b else a)"

text \<open>\<open>CollectionJsonMetadata\<close>, an absent field read as \<open>''\<close>.\<close>

record collection_meta =
  cm_id :: string
  cm_name :: string
  cm_description :: string
  cm_image :: string

text \<open>A directory entry of \<open>json/interviews\<close>: its name, whether it is a directory, and
  the outcome of \<open>readFile\<close> and \<open>JSON.parse\<close> of its \<open>collection.json\<close>
  (\<open>Inl\<close>: missing, unreadable or invalid).\<close>

record dir_entry =
  de_name :: string
  de_is_dir :: bool
  de_file :: "collection_meta result"

text \<open>The loop body of \<open>loadCollectionMetadataMap\<close>: a later entry with the same id
  overwrites an earlier one (\<open>metadataById.set\<close>).\<close>

definition load_entry :: "dir_entry \<Rightarrow> (string \<rightharpoonup> collection_meta) \<Rightarrow> (string \<rightharpoonup> collection_meta)" where
  "load_entry entry metadataById =
     (if \<not> de_is_dir entry then metadataById
      else case de_file entry of
             Inl _ \<Rightarrow> metadataById
           | Inr parsed \<Rightarrow>
               (let id = trim (js_or (cm_id parsed) (de_name entry))
                in if id = [] then metadataById else metadataById(id \<mapsto> parsed)))"

text \<open>A failed \<open>readdir\<close> gives the empty map.\<close>

definition loadCollectionMetadataMap :: "dir_entry list result \<Rightarrow> (string \<rightharpoonup> collection_meta)" where
  "loadCollectionMetadataMap directoryEntries =
     (case directoryEntries of
        Inl _ \<Rightarrow> Map.empty
      | Inr entries \<Rightarrow> fold load_entry entries Map.empty)"

text \<open>\<open>getAllStoriesFromCollection\<close>: one filtered page of the collection, filtered by
  the selected collections only.\<close>

definition getAllStoriesFromCollection ::
  "backend \<Rightarrow> nat \<Rightarrow> nat \<Rightarrow> string list \<Rightarrow> wobj list result" where
  "getAllStoriesFromCollection bk limit offset collectionFilters =
     (let combinedFilter = buildCombinedFilters [] collectionFilters
      in bk_fetch bk combinedFilter limit offset)"

text \<open>The properties of a \<open>Testimonies\<close> object the listing reads (missing ones \<open>''\<close>).\<close>

record testimony =
  t_collection_id :: string
  t_collection_name :: string
  t_collection_description :: string

text \<open>\<open>CollectionFilterOption\<close>; the optional image is \<open>None\<close> when undefined.\<close>

record collection_option =
  co_id :: string
  co_name :: string
  co_description :: string
  co_itemCount :: nat
  co_image :: "string option"

text \<open>The loop body of \<open>getAvailableCollections\<close> (lines 151--174): an object without
  collection id is skipped; the first object of a collection fixes its name and
  description, later ones add to the count and supply an image if none is known yet.\<close>

definition collect_item ::
  "(string \<rightharpoonup> collection_meta) \<Rightarrow> (string \<times> collection_option) list \<Rightarrow> testimony
   \<Rightarrow> (string \<times> collection_option) list" where
  "collect_item collectionMetadataMap m item =
     (let id = trim (t_collection_id item)
      in if id = [] then m
         else
           (let metadata = collectionMetadataMap id;
                name = js_or (trim (js_or (case metadata of None \<Rightarrow> [] | Some md \<Rightarrow> cm_name md)
                                          (t_collection_name item))) id;
                description = trim (js_or (case metadata of None \<Rightarrow> [] | Some md \<Rightarrow> cm_description md)
                                          (t_collection_description item));
                img = trim (case metadata of None \<Rightarrow> [] | Some md \<Rightarrow> cm_image md);
                image = (if img = [] then None else Some img)
            in case map_of m id of
                 None \<Rightarrow> am_set id \<lparr>co_id = id, co_name = name, co_description = description,
                                    co_itemCount = 1, co_image = image\<rparr> m
               | Some existing \<Rightarrow>
                   am_set id (existing\<lparr>co_image := (case co_image existing of None \<Rightarrow> image | Some i \<Rightarrow> Some i),
                                       co_itemCount := co_itemCount existing + 1\<rparr>) m))"

definition getAvailableCollections ::
  "(nat \<Rightarrow> testimony list result) \<Rightarrow> dir_entry list result \<Rightarrow> (string \<Rightarrow> 'k::linorder) \<Rightarrow> nat
   \<Rightarrow> collection_option list result" where
  "getAvailableCollections fetchTestimonies directoryEntries collate limit =
     (let collectionMetadataMap = loadCollectionMetadataMap directoryEntries
      in bind_r (fetchTestimonies limit) (\<lambda>objects.
           Inr (sort_key (\<lambda>c. collate (co_name c))
                  (map snd (fold (\<lambda>item m. collect_item collectionMetadataMap m item) objects [])))))"

subsection \<open>The listing counts the recordings of each collection\<close>

text \<open>The trimmed collection ids of a list of objects, and how many objects carry one.\<close>

definition listed_ids :: "testimony list \<Rightarrow> string set" where
  "listed_ids objs = set (filter (\<lambda>k. k \<noteq> []) (map (\<lambda>it. trim (t_collection_id it)) objs))"

definition item_count :: "string \<Rightarrow> testimony list \<Rightarrow> nat" where
  "item_count k objs = length (filter (\<lambda>it. trim (t_collection_id it) = k) objs)"

text \<open>What the loop keeps true of the map after a prefix \<open>objs\<close> of the response.\<close>

definition listing_ok :: "testimony list \<Rightarrow> (string \<times> collection_option) list \<Rightarrow> bool" where
  "listing_ok objs m \<longleftrightarrow> distinct (map fst m) \<and> set (map fst m) = listed_ids objs \<and>
     (\<forall>k c. map_of m k = Some c \<longrightarrow> co_id c = k \<and> co_name c \<noteq> [] \<and> co_itemCount c = item_count k objs)"

lemma listed_ids_snoc:
  "listed_ids (objs @ [it]) =
     (if trim (t_collection_id it) = [] then listed_ids objs else insert (trim (t_collection_id it)) (listed_ids objs))"
  by (auto simp: listed_ids_def)

lemma item_count_snoc:
  "item_count k (objs @ [it]) = item_count k objs + (if trim (t_collection_id it) = k then 1 else 0)"
  by (simp add: item_count_def)

lemma item_count_zero: "k \<noteq> [] \<Longrightarrow> k \<notin> listed_ids objs \<Longrightarrow> item_count k objs = 0"
  by (auto simp: listed_ids_def item_count_def filter_empty_conv)

lemma nil_notin_listed_ids [simp]: "[] \<notin> listed_ids objs"
  by (simp add: listed_ids_def)

lemma js_or_nonempty: "b \<noteq> [] \<Longrightarrow> js_or a b \<noteq> []"
  by (simp add: js_or_def)

lemma collect_item_ok:
  assumes "listing_ok objs m"
  shows "listing_ok (objs @ [it]) (collect_item M m it)"
proof (cases "trim (t_collection_id it) = []")
  case True
  with assms show ?thesis
    by (auto simp: collect_item_def listing_ok_def listed_ids_snoc item_count_snoc)
      (metis fst_conv image_eqI nil_notin_listed_ids)
next
  case False
  let ?id = "trim (t_collection_id it)"
  have d: "distinct (map fst m)" and ks: "set (map fst m) = listed_ids objs"
    and ok: "\<And>k c. map_of m k = Some c \<Longrightarrow> co_id c = k \<and> co_name c \<noteq> [] \<and> co_itemCount c = item_count k objs"
    using assms by (auto simp: listing_ok_def)
  show ?thesis
  proof (cases "map_of m ?id")
    case None
    then have "?id \<notin> listed_ids objs" using ks by (force simp: map_of_eq_None_iff)
    then have "item_count ?id objs = 0" using False by (rule item_count_zero [rotated])
    with None False d ks ok show ?thesis
      by (auto simp: collect_item_def listing_ok_def listed_ids_snoc item_count_snoc keys_am_set
          Let_def js_or_nonempty)
  next
    case (Some existing)
    then have "?id \<in> listed_ids objs" using ks by (force dest: map_of_SomeD)
    with Some False d ks ok show ?thesis
      by (auto simp: collect_item_def listing_ok_def listed_ids_snoc item_count_snoc keys_am_set Let_def)
  qed
qed

lemma fold_collect_item_ok:
  "listing_ok objs (fold (\<lambda>item m. collect_item M m item) objs [])"
proof (induction objs rule: rev_induct)
  case Nil
  then show ?case by (simp add: listing_ok_def listed_ids_def)
next
  case (snoc it objs)
  then show ?case by (simp add: collect_item_ok)
qed

lemma listing_ok_values:
  assumes "listing_ok objs m" and "c \<in> set (map snd m)"
  shows "co_id c \<in> listed_ids objs \<and> co_name c \<noteq> [] \<and> co_itemCount c = item_count (co_id c) objs"
proof -
  from assms(2) obtain k where kc: "(k, c) \<in> set m" by auto
  with assms(1) have "map_of m k = Some c" by (simp add: listing_ok_def)
  with assms(1) kc show ?thesis by (force simp: listing_ok_def)
qed

lemma listing_ok_ids:
  assumes "listing_ok objs m"
  shows "map co_id (map snd m) = map fst m"
proof -
  have "co_id c = k" if "(k, c) \<in> set m" for k c
    using assms that by (simp add: listing_ok_def)
  then show ?thesis by (induction m) auto
qed

lemma distinct_map_sort_key: "distinct (map g (sort_key f xs)) \<longleftrightarrow> distinct (map g xs)"
  by (simp add: distinct_map distinct_sort)

lemma getAvailableCollections_error:
  "fetchTestimonies limit = Inl e \<Longrightarrow> getAvailableCollections fetchTestimonies de collate limit = Inl e"
  by (simp add: getAvailableCollections_def)

text \<open>
  C11: a successful collection listing has one entry per distinct non-blank (trimmed)
  collection id of the fetched recordings, each with a non-empty name and with the
  number of fetched recordings carrying its id as item count, sorted by name.
\<close>

theorem getAvailableCollections_spec:
  assumes "fetchTestimonies limit = Inr objs"
  shows "\<exists>cs. getAvailableCollections fetchTestimonies de collate limit = Inr cs \<and>
           distinct (map co_id cs) \<and> set (map co_id cs) = listed_ids objs \<and>
           (\<forall>c\<in>set cs. co_name c \<noteq> [] \<and> co_itemCount c = item_count (co_id c) objs) \<and>
           sorted (map (\<lambda>c. collate (co_name c)) cs)"
proof -
  let ?m = "fold (\<lambda>item m. collect_item (loadCollectionMetadataMap de) m item) objs []"
  let ?cs = "sort_key (\<lambda>c. collate (co_name c)) (map snd ?m)"
  have ok: "listing_ok objs ?m" by (rule fold_collect_item_ok)
  have ids: "map co_id (map snd ?m) = map fst ?m" using ok by (rule listing_ok_ids)
  have "distinct (map co_id ?cs)"
    using ok ids by (simp only: distinct_map_sort_key) (simp add: listing_ok_def)
  moreover have "set (map co_id ?cs) = listed_ids objs"
    using ok by (simp add: ids [symmetric] listing_ok_def del: map_map)
  moreover have "\<forall>c\<in>set ?cs. co_name c \<noteq> [] \<and> co_itemCount c = item_count (co_id c) objs"
    using listing_ok_values [OF ok] by simp
  moreover have "sorted (map (\<lambda>c. collate (co_name c)) ?cs)" by (rule sorted_sort_key)
  ultimately show ?thesis using assms by (simp add: getAvailableCollections_def)
qed

theorem getAvailableCollections_spec_witness:
  "\<exists>cs. getAvailableCollections
          (\<lambda>_. Inr [\<lparr>t_collection_id = ''c1'', t_collection_name = ''Beta'', t_collection_description = []\<rparr>,
                    \<lparr>t_collection_id = ''c2'', t_collection_name = ''Al'', t_collection_description = []\<rparr>,
                    \<lparr>t_collection_id = '' c1'', t_collection_name = [], t_collection_description = []\<rparr>])
          (Inl (DependencyUnavailable ''readdir'')) length 5000 = Inr cs \<and>
        set (map co_id cs) = {''c1'', ''c2''} \<and>
        (\<forall>c\<in>set cs. co_itemCount c = (if co_id c = ''c1'' then 2 else 1))"
proof -
  let ?objs = "[\<lparr>t_collection_id = ''c1'', t_collection_name = ''Beta'', t_collection_description = []\<rparr>,
                \<lparr>t_collection_id = ''c2'', t_collection_name = ''Al'', t_collection_description = []\<rparr>,
                \<lparr>t_collection_id = '' c1'', t_collection_name = [], t_collection_description = []\<rparr>]"
  obtain cs where r: "getAvailableCollections (\<lambda>_. Inr ?objs) (Inl (DependencyUnavailable ''readdir'')) length 5000 = Inr cs"
      and s: "set (map co_id cs) = listed_ids ?objs"
      and c: "\<forall>c\<in>set cs. co_name c \<noteq> [] \<and> co_itemCount c = item_count (co_id c) ?objs"
    using getAvailableCollections_spec [of "\<lambda>_. Inr ?objs" 5000 ?objs
        "Inl (DependencyUnavailable ''readdir'')" length] by blast
  have ids: "listed_ids ?objs = {''c1'', ''c2''}"
    by (auto simp: listed_ids_def trim_def is_ws_def)
  have cnt: "item_count k ?objs = (if k = ''c1'' then 2 else if k = ''c2'' then 1 else 0)" for k
    by (simp add: item_count_def trim_def is_ws_def)
  have "\<forall>c\<in>set cs. co_itemCount c = (if co_id c = ''c1'' then 2 else 1)"
  proof
    fix c assume "c \<in> set cs"
    moreover from this s ids have "co_id c \<in> {''c1'', ''c2''}" by auto
    ultimately show "co_itemCount c = (if co_id c = ''c1'' then 2 else 1)"
      using c by (auto simp only: cnt insert_iff singleton_iff if_True if_False) simp_all
  qed
  with r s ids show ?thesis by blast
qed
end
