(* ===== verification/Store.thy ===== *)
theory Store
  imports Collections
begin

text \<open>
  The client store \<open>src/app/stores/useSemanticSearchStore.ts\<close> (a zustand store) as a
  state machine. Its state is the record \<open>store\<close> (the data fields of
  \<open>SemanticSearchStore\<close>, lines 22--43); each action is a function from the state to the
  state after the action has run to completion, together with the error it rejects with,
  if any (\<open>outcome\<close>). Actions that \<open>await\<close> a server function take the server
  interface \<open>api\<close>, a record of the functions of \<open>search.ts\<close> the store imports;
  \<open>server\<close> instantiates it with the models of the Retrieval and Collections theories.
  \<open>store_step\<close> dispatches an \<open>event\<close> (one constructor per action) and
  \<open>reachable\<close> is the set of states a sequence of actions reaches from the initial
  state. The \<open>collection\<close> and \<open>returnProperties\<close> arguments select a collection and a
  projection of the datastore and are not modelled.
\<close>

text \<open>\<open>SearchType\<close> (declared in \<open>src/types/searchType\<close>, outside the sources), with the
  members the sources use: \<open>bm25\<close>, \<open>Vector\<close>, \<open>Hybrid\<close> and \<open>traditional\<close>, which
  the story page sets.\<close>

datatype search_type = SearchType_bm25 | SearchType_vector | SearchType_hybrid | SearchType_traditional

subsection \<open>Transcripts\<close>

text \<open>A parsed \<open>Transcription\<close>: sections of paragraphs of words; an absent
  \<open>sections\<close>, \<open>paragraphs\<close> or \<open>words\<close> array is empty and an absent word text is \<open>''\<close>.\<close>

record tword =
  tw_text :: string
  tw_start :: rat
  tw_end :: rat

type_synonym transcription = "tword list list list"

text \<open>An entry of \<open>allWords\<close> (\<open>Word\<close>).\<close>

record word =
  word_text :: string
  word_idx :: nat
  para_idx :: nat
  section_idx :: nat
  word_start :: rat
  word_end :: rat

text \<open>The nested \<open>forEach\<close> of \<open>getStoryTranscriptByUuid\<close> (lines 234--249).\<close>

definition all_words :: "transcription \<Rightarrow> word list" where
  "all_words t =
     concat (map (\<lambda>(sectionIdx, section).
       concat (map (\<lambda>(paraIdx, paragraph).
         map (\<lambda>(wordIdx, w). \<lparr>word_text = tw_text w, word_idx = wordIdx, para_idx = paraIdx,
                              section_idx = sectionIdx, word_start = tw_start w, word_end = tw_end w\<rparr>)
           (enumerate 0 paragraph))
         (enumerate 0 section)))
       (enumerate 0 t))"

text \<open>The story object \<open>fetchStoryTranscriptByUuid\<close> returns: its uuid and its
  \<open>transcription\<close> property, \<open>None\<close> when it is empty or absent, \<open>Some (Inl e)\<close> when
  \<open>JSON.parse\<close> throws on it.\<close>

record hub =
  hub_uuid :: string
  hub_transcription :: "transcription result option"

subsection \<open>State and interface\<close>

record store =
  hasSearched :: bool
  searchType :: search_type
  searchTerm :: string
  loading :: bool
  stories :: "wobj list option"
  story :: "wobj option"
  storyHubPage :: "hub option"
  transcript :: "transcription option"
  allWords :: "word list option"
  isSemanticSearching :: bool
  loadingSearch :: bool
  selected_ner_labels :: "string list"
  matches :: "wobj list"
  currentMatchIndex :: int
  result :: "wobj list option"
  currentPage :: int
  hasNextStoriesPage :: bool
  nerFilters :: "string list"
  collections :: "collection_option list"
  selectedCollectionIds :: "string list"

text \<open>The initial state (lines 125--143 and 531); the fields the initializer omits
  (\<open>stories\<close>, \<open>story\<close>, \<open>storyHubPage\<close>, \<open>allWords\<close>) are undefined, \<open>None\<close>.\<close>

definition initial_store :: store where
  "initial_store =
     \<lparr>hasSearched = False, searchType = SearchType_bm25, searchTerm = [], loading = True,
      stories = None, story = None, storyHubPage = None, transcript = None, allWords = None,
      isSemanticSearching = False, loadingSearch = False, selected_ner_labels = [], matches = [],
      currentMatchIndex = -1, result = None, currentPage = 1, hasNextStoriesPage = False,
      nerFilters = [], collections = [], selectedCollectionIds = []\<rparr>"

type_synonym search_fn =
  "string \<Rightarrow> nat \<Rightarrow> nat \<Rightarrow> string list \<Rightarrow> string list \<Rightarrow> score option \<Rightarrow> score option \<Rightarrow> wobj list result"

type_synonym story_search_fn =
  "string \<Rightarrow> string \<Rightarrow> nat \<Rightarrow> string list \<Rightarrow> score option \<Rightarrow> score option \<Rightarrow> wobj list result"

text \<open>The server functions the store imports (lines 4--16).\<close>

record api =
  api_getAvailableCollections :: "collection_option list result"
  api_getAllStoriesFromCollection :: "nat \<Rightarrow> nat \<Rightarrow> string list \<Rightarrow> wobj list result"
  api_getStoryByUuid :: "string \<Rightarrow> wobj option result"
  api_fetchStoryTranscriptByUuid :: "string \<Rightarrow> hub option result"
  api_vectorSearch :: search_fn
  api_hybridSearch :: search_fn
  api_bm25Search :: search_fn
  api_hybridSearchForStoryId :: story_search_fn
  api_vectorSearchForStoryId :: story_search_fn
  api_bm25SearchForStoryId :: story_search_fn

text \<open>The interface implemented by the models of \<open>search.ts\<close> over one datastore; the
  testimony fetch, the collection directory, the collation and the two fetch-by-id
  calls are the datastore's and the file system's.\<close>

definition server ::
  "backend \<Rightarrow> (nat \<Rightarrow> testimony list result) \<Rightarrow> dir_entry list result \<Rightarrow> (string \<Rightarrow> 'k::linorder)
   \<Rightarrow> (string \<Rightarrow> wobj option result) \<Rightarrow> (string \<Rightarrow> hub option result) \<Rightarrow> api" where
  "server bk fetchTestimonies directoryEntries collate fetchChunk fetchStory =
     \<lparr>api_getAvailableCollections = getAvailableCollections fetchTestimonies directoryEntries collate 5000,
      api_getAllStoriesFromCollection = getAllStoriesFromCollection bk,
      api_getStoryByUuid = fetchChunk,
      api_fetchStoryTranscriptByUuid = fetchStory,
      api_vectorSearch = vectorSearch bk,
      api_hybridSearch = hybridSearch bk,
      api_bm25Search = bm25Search bk,
      api_hybridSearchForStoryId = hybridSearchForStoryId bk,
      api_vectorSearchForStoryId = vectorSearchForStoryId bk,
      api_bm25SearchForStoryId = bm25SearchForStoryId bk\<rparr>"

text \<open>The state after an action, and the error its promise rejects with (\<open>None\<close>:
  it resolves).\<close>

type_synonym outcome = "store \<times> error option"

subsection \<open>Actions\<close>

definition loadCollections :: "api \<Rightarrow> store \<Rightarrow> store" where
  "loadCollections a st =
     (case api_getAvailableCollections a of
        Inl _ \<Rightarrow> st
      | Inr cols \<Rightarrow>
          (let collectionIds = set (map co_id cols);
               currentSelection = filter (\<lambda>id. id \<in> collectionIds) (selectedCollectionIds st)
           in st\<lparr>collections := cols,
                 selectedCollectionIds := (if 1 < length cols then currentSelection else [])\<rparr>))"

text \<open>\<open>getAllStories\<close>: fetch a page; when it is full, probe the next page with limit
  \<open>1\<close>; a failure of either call is caught.\<close>

definition getAllStories :: "api \<Rightarrow> nat \<Rightarrow> nat \<Rightarrow> store \<Rightarrow> store" where
  "getAllStories a limit offset st =
     (let selected = selectedCollectionIds st;
          st1 = st\<lparr>loading := True\<rparr>;
          failed = st1\<lparr>hasNextStoriesPage := False, loading := False\<rparr>
      in case api_getAllStoriesFromCollection a limit offset selected of
           Inl _ \<Rightarrow> failed
         | Inr storiesPage \<Rightarrow>
             (if length storiesPage = limit then
                (case api_getAllStoriesFromCollection a 1 (offset + limit) selected of
                   Inl _ \<Rightarrow> failed
                 | Inr nextPageProbe \<Rightarrow>
                     st1\<lparr>stories := Some storiesPage, hasNextStoriesPage := 0 < length nextPageProbe,
                         loading := False\<rparr>)
              else st1\<lparr>stories := Some storiesPage, hasNextStoriesPage := False, loading := False\<rparr>))"

definition getStoryByUuid :: "api \<Rightarrow> string \<Rightarrow> store \<Rightarrow> store" where
  "getStoryByUuid a uuid st =
     (case api_getStoryByUuid a uuid of
        Inl _ \<Rightarrow> st\<lparr>loading := False\<rparr>
      | Inr response \<Rightarrow> st\<lparr>story := response, loading := False\<rparr>)"

text \<open>\<open>getStoryTranscriptByUuid\<close> (lines 219--266): \<open>loading\<close> is set, then the fetched
  response is stored (\<open>transcript_response\<close>, lines 222--265). A failed fetch or a
  throwing \<open>JSON.parse\<close> is caught and only clears \<open>loading\<close>.\<close>

definition transcript_response :: "hub option result \<Rightarrow> store \<Rightarrow> store" where
  "transcript_response fetched st =
     (case fetched of
        Inl _ \<Rightarrow> st\<lparr>loading := False\<rparr>
      | Inr response \<Rightarrow>
          (case (case response of None \<Rightarrow> None | Some h \<Rightarrow> hub_transcription h) of
             Some (Inl _) \<Rightarrow> st\<lparr>loading := False\<rparr>
           | transcriptionJson \<Rightarrow>
               (let parsedTranscript = (case transcriptionJson of Some (Inr t) \<Rightarrow> Some t | _ \<Rightarrow> None);
                    words = (case parsedTranscript of None \<Rightarrow> [] | Some t \<Rightarrow> all_words t)
                in st\<lparr>allWords := Some words, transcript := parsedTranscript, loading := False,
                      storyHubPage := response, selected_ner_labels := []\<rparr>)))"

definition getStoryTranscriptByUuid :: "api \<Rightarrow> string \<Rightarrow> store \<Rightarrow> store" where
  "getStoryTranscriptByUuid a uuid st =
     transcript_response (api_fetchStoryTranscriptByUuid a uuid) (st\<lparr>loading := True\<rparr>)"

definition setUpdateSelectedNerLabel :: "string \<Rightarrow> store \<Rightarrow> store" where
  "setUpdateSelectedNerLabel label st =
     (let updatedLabels = (if label \<in> set (selected_ner_labels st)
                           then filter (\<lambda>l. l \<noteq> label) (selected_ner_labels st)
                           else selected_ner_labels st @ [label])
      in st\<lparr>selected_ner_labels := updatedLabels\<rparr>)"

text \<open>\<open>runVectorSearch\<close>, \<open>runHybridSearch\<close> and \<open>run25bmSearch\<close> share one body: no
  search term is a no-op; the search is not wrapped in \<open>try\<close>, so its failure rejects
  the action after \<open>loading\<close> was set.\<close>

definition runSearch ::
  "search_fn \<Rightarrow> nat \<Rightarrow> nat \<Rightarrow> string list \<Rightarrow> score option \<Rightarrow> score option \<Rightarrow> store \<Rightarrow> outcome" where
  "runSearch search limit offset filters minValue maxValue st =
     (if searchTerm st = [] then (st, None)
      else
        (let st1 = st\<lparr>loading := True\<rparr>
         in case search (searchTerm st) limit offset filters (selectedCollectionIds st) minValue maxValue of
              Inl e \<Rightarrow> (st1, Some e)
            | Inr response \<Rightarrow> (st1\<lparr>result := Some response, loading := False\<rparr>, None)))"

definition runVectorSearch :: "api \<Rightarrow> nat \<Rightarrow> nat \<Rightarrow> string list \<Rightarrow> score option \<Rightarrow> score option \<Rightarrow> store \<Rightarrow> outcome" where
  "runVectorSearch a = runSearch (api_vectorSearch a)"

definition runHybridSearch :: "api \<Rightarrow> nat \<Rightarrow> nat \<Rightarrow> string list \<Rightarrow> score option \<Rightarrow> score option \<Rightarrow> store \<Rightarrow> outcome" where
  "runHybridSearch a = runSearch (api_hybridSearch a)"

definition run25bmSearch :: "api \<Rightarrow> nat \<Rightarrow> nat \<Rightarrow> string list \<Rightarrow> score option \<Rightarrow> score option \<Rightarrow> store \<Rightarrow> outcome" where
  "run25bmSearch a = runSearch (api_bm25Search a)"

text \<open>The three story-scoped actions share one body: no search term or no story loaded
  is a no-op; a failure is caught and clears the result and the matches (not the
  current index); a success keeps the first hit of each start time as the matches and
  selects the first.\<close>

definition runStorySearch ::
  "story_search_fn \<Rightarrow> nat \<Rightarrow> string list \<Rightarrow> score option \<Rightarrow> score option \<Rightarrow> store \<Rightarrow> store" where
  "runStorySearch search limit nerFilter minValue maxValue st =
     (let theirStoryId = (case storyHubPage st of None \<Rightarrow> [] | Some h \<Rightarrow> hub_uuid h)
      in if searchTerm st = [] \<or> theirStoryId = [] then st
         else
           (let st1 = st\<lparr>isSemanticSearching := True\<rparr>
            in case search theirStoryId (searchTerm st) limit nerFilter minValue maxValue of
                 Inl _ \<Rightarrow> st1\<lparr>result := None, matches := [], isSemanticSearching := False\<rparr>
               | Inr response \<Rightarrow>
                   (let uniqueMatches = unique_matches response
                    in st1\<lparr>result := Some response, matches := uniqueMatches,
                           currentMatchIndex := (if 0 < length uniqueMatches then 0 else -1),
                           isSemanticSearching := False\<rparr>)))"

definition runHybridSearchForStoryId :: "api \<Rightarrow> nat \<Rightarrow> string list \<Rightarrow> score option \<Rightarrow> score option \<Rightarrow> store \<Rightarrow> store" where
  "runHybridSearchForStoryId a = runStorySearch (api_hybridSearchForStoryId a)"

definition runVectorSearchForStoryId :: "api \<Rightarrow> nat \<Rightarrow> string list \<Rightarrow> score option \<Rightarrow> score option \<Rightarrow> store \<Rightarrow> store" where
  "runVectorSearchForStoryId a = runStorySearch (api_vectorSearchForStoryId a)"

definition run25bmSearchForStoryId :: "api \<Rightarrow> nat \<Rightarrow> string list \<Rightarrow> score option \<Rightarrow> score option \<Rightarrow> store \<Rightarrow> store" where
  "run25bmSearchForStoryId a = runStorySearch (api_bm25SearchForStoryId a)"

definition clearSearch :: "store \<Rightarrow> store" where
  "clearSearch st =
     st\<lparr>searchTerm := [], result := None, matches := [], isSemanticSearching := False,
        currentMatchIndex := -1\<rparr>"

text \<open>JavaScript's \<open>%\<close> on integers: the remainder takes the dividend's sign.\<close>

definition js_rem :: "int \<Rightarrow> int \<Rightarrow> int" where
  "js_rem a b = sgn a * (\<bar>a\<bar> mod \<bar>b\<bar>)"

definition nextMatch :: "store \<Rightarrow> store" where
  "nextMatch st =
     (if 0 < length (matches st)
      then st\<lparr>currentMatchIndex := js_rem (currentMatchIndex st + 1) (int (length (matches st)))\<rparr>
      else st)"

definition previousMatch :: "store \<Rightarrow> store" where
  "previousMatch st =
     (if 0 < length (matches st)
      then st\<lparr>currentMatchIndex := (if currentMatchIndex st = 0 then int (length (matches st)) - 1
                                    else currentMatchIndex st - 1)\<rparr>
      else st)"

definition clearStore :: "store \<Rightarrow> store" where
  "clearStore st =
     st\<lparr>searchTerm := [], loading := False, stories := None, story := None, storyHubPage := None,
        transcript := None, isSemanticSearching := False, loadingSearch := False,
        selected_ner_labels := [], matches := [], currentMatchIndex := -1, result := None,
        currentPage := 1, hasNextStoriesPage := False, nerFilters := [], collections := [],
        selectedCollectionIds := [], searchType := SearchType_bm25\<rparr>"

subsection \<open>Events and runs\<close>

datatype event =
    SetSearchTerm string | SetLoading bool | SetCollections "collection_option list"
  | SetSelectedCollectionIds "string list" | ClearCollectionFilters | LoadCollections
  | SetHasSearched bool | SetSearchType search_type | GetAllStories nat nat
  | GetStoryByUuid string | GetStoryTranscriptByUuid string
  | SetUpdateSelectedNerLabel string | SetSelectedNerLabels "string list"
  | RunVectorSearch nat nat "string list" "score option" "score option"
  | RunHybridSearch nat nat "string list" "score option" "score option"
  | Run25bmSearch nat nat "string list" "score option" "score option"
  | RunHybridSearchForStoryId nat "string list" "score option" "score option"
  | RunVectorSearchForStoryId nat "string list" "score option" "score option"
  | Run25bmSearchForStoryId nat "string list" "score option" "score option"
  | SetIsSemanticSearching bool | ClearSearch | NextMatch | PreviousMatch | SetIsSearching bool
  | SetLoadingSearch bool | SetCurrentPage int | SetNerFilters "string list" | ClearStore

text \<open>One action, run to completion. The setters are the one-line \<open>set\<close> calls of the
  store; \<open>getAllStories\<close> takes \<open>limit\<close> and \<open>offset\<close> (defaults \<open>100\<close> and \<open>0\<close>).\<close>

fun store_step :: "api \<Rightarrow> event \<Rightarrow> store \<Rightarrow> outcome" where
  "store_step a (SetSearchTerm t) st = (st\<lparr>searchTerm := t\<rparr>, None)"
| "store_step a (SetLoading b) st = (st\<lparr>loading := b\<rparr>, None)"
| "store_step a (SetCollections cs) st = (st\<lparr>collections := cs\<rparr>, None)"
| "store_step a (SetSelectedCollectionIds ids) st = (st\<lparr>selectedCollectionIds := ids\<rparr>, None)"
| "store_step a ClearCollectionFilters st = (st\<lparr>selectedCollectionIds := []\<rparr>, None)"
| "store_step a LoadCollections st = (loadCollections a st, None)"
| "store_step a (SetHasSearched b) st = (st\<lparr>hasSearched := b\<rparr>, None)"
| "store_step a (SetSearchType t) st = (st\<lparr>searchType := t\<rparr>, None)"
| "store_step a (GetAllStories limit offset) st = (getAllStories a limit offset st, None)"
| "store_step a (GetStoryByUuid uuid) st = (getStoryByUuid a uuid st, None)"
| "store_step a (GetStoryTranscriptByUuid uuid) st = (getStoryTranscriptByUuid a uuid st, None)"
| "store_step a (SetUpdateSelectedNerLabel l) st = (setUpdateSelectedNerLabel l st, None)"
| "store_step a (SetSelectedNerLabels ls) st = (st\<lparr>selected_ner_labels := ls\<rparr>, None)"
| "store_step a (RunVectorSearch l off f mn mx) st = runVectorSearch a l off f mn mx st"
| "store_step a (RunHybridSearch l off f mn mx) st = runHybridSearch a l off f mn mx st"
| "store_step a (Run25bmSearch l off f mn mx) st = run25bmSearch a l off f mn mx st"
| "store_step a (RunHybridSearchForStoryId l f mn mx) st = (runHybridSearchForStoryId a l f mn mx st, None)"
| "store_step a (RunVectorSearchForStoryId l f mn mx) st = (runVectorSearchForStoryId a l f mn mx st, None)"
| "store_step a (Run25bmSearchForStoryId l f mn mx) st = (run25bmSearchForStoryId a l f mn mx st, None)"
| "store_step a (SetIsSemanticSearching b) st = (st\<lparr>isSemanticSearching := b\<rparr>, None)"
| "store_step a ClearSearch st = (clearSearch st, None)"
| "store_step a NextMatch st = (nextMatch st, None)"
| "store_step a PreviousMatch st = (previousMatch st, None)"
| "store_step a (SetIsSearching b) st = (st\<lparr>isSemanticSearching := b\<rparr>, None)"
| "store_step a (SetLoadingSearch b) st = (st\<lparr>loadingSearch := b\<rparr>, None)"
| "store_step a (SetCurrentPage p) st = (st\<lparr>currentPage := p\<rparr>, None)"
| "store_step a (SetNerFilters fs) st = (st\<lparr>nerFilters := fs\<rparr>, None)"
| "store_step a ClearStore st = (clearStore st, None)"

text \<open>The states a sequence of actions reaches from the initial state; a rejected
  action leaves the state it had reached.\<close>

inductive reachable :: "api \<Rightarrow> store \<Rightarrow> bool" for a :: api where
  reachable_init: "reachable a initial_store"
| reachable_step: "reachable a st \<Longrightarrow> reachable a (fst (store_step a ev st))"

definition run_events :: "api \<Rightarrow> event list \<Rightarrow> store \<Rightarrow> store" where
  "run_events a evs st = fold (\<lambda>ev st. fst (store_step a ev st)) evs st"

subsection \<open>The current match stays within the matches\<close>

text \<open>Whenever there are matches, the current index designates one of them.\<close>

definition match_inv :: "store \<Rightarrow> bool" where
  "match_inv st \<longleftrightarrow>
     (matches st \<noteq> [] \<longrightarrow> 0 \<le> currentMatchIndex st \<and> currentMatchIndex st < int (length (matches st)))"

text \<open>The actions that leave the matches and the index alone.\<close>

lemma match_fields_loadCollections [simp]:
  "matches (loadCollections a st) = matches st" "currentMatchIndex (loadCollections a st) = currentMatchIndex st"
  by (simp_all add: loadCollections_def Let_def split: sum.split)

lemma match_fields_getAllStories [simp]:
  "matches (getAllStories a l off st) = matches st"
  "currentMatchIndex (getAllStories a l off st) = currentMatchIndex st"
  by (simp_all add: getAllStories_def Let_def split: sum.split)

lemma match_fields_getStoryByUuid [simp]:
  "matches (getStoryByUuid a u st) = matches st" "currentMatchIndex (getStoryByUuid a u st) = currentMatchIndex st"
  by (simp_all add: getStoryByUuid_def split: sum.split)

lemma match_fields_getStoryTranscriptByUuid [simp]:
  "matches (getStoryTranscriptByUuid a u st) = matches st"
  "currentMatchIndex (getStoryTranscriptByUuid a u st) = currentMatchIndex st"
  by (simp_all add: getStoryTranscriptByUuid_def transcript_response_def Let_def split: sum.split option.split)

lemma match_fields_setUpdateSelectedNerLabel [simp]:
  "matches (setUpdateSelectedNerLabel l st) = matches st"
  "currentMatchIndex (setUpdateSelectedNerLabel l st) = currentMatchIndex st"
  by (simp_all add: setUpdateSelectedNerLabel_def Let_def)

lemma match_fields_runSearch [simp]:
  "matches (fst (runSearch f l off fs mn mx st)) = matches st"
  "currentMatchIndex (fst (runSearch f l off fs mn mx st)) = currentMatchIndex st"
  by (simp_all add: runSearch_def Let_def split: sum.split)

lemma match_inv_runStorySearch: "match_inv st \<Longrightarrow> match_inv (runStorySearch f l ner mn mx st)"
  by (auto simp: runStorySearch_def match_inv_def Let_def split: sum.split)

lemma js_rem_nonneg: "0 \<le> a \<Longrightarrow> 0 < b \<Longrightarrow> js_rem a b = a mod b"
  by (cases "a = 0") (simp_all add: js_rem_def)

lemma match_inv_nextMatch: "match_inv st \<Longrightarrow> match_inv (nextMatch st)"
  by (auto simp: nextMatch_def match_inv_def js_rem_nonneg)

lemma match_inv_previousMatch: "match_inv st \<Longrightarrow> match_inv (previousMatch st)"
  by (auto simp: previousMatch_def match_inv_def)

lemma match_inv_step: "match_inv st \<Longrightarrow> match_inv (fst (store_step a ev st))"
  by (cases ev)
     (simp_all add: match_inv_runStorySearch match_inv_nextMatch match_inv_previousMatch
        runVectorSearch_def runHybridSearch_def run25bmSearch_def runHybridSearchForStoryId_def
        runVectorSearchForStoryId_def run25bmSearchForStoryId_def,
      simp_all add: match_inv_def clearSearch_def clearStore_def)

lemma reachable_run_events: "reachable a st \<Longrightarrow> reachable a (run_events a evs st)"
proof (induction evs arbitrary: st)
  case (Cons ev evs)
  then show ?case by (simp add: run_events_def reachable_step)
qed (simp add: run_events_def)

text \<open>
  C12: in every state the store reaches, whenever there are matches the current match
  index designates one of them.
\<close>

theorem reachable_match_inv:
  assumes "reachable a st"
  shows "match_inv st"
  using assms
proof (induction rule: reachable.induct)
  case reachable_init
  then show ?case by (simp add: match_inv_def initial_store_def)
next
  case (reachable_step st ev)
  from reachable_step.IH show ?case by (rule match_inv_step)
qed

text \<open>A server whose story-scoped hybrid search returns three chunks, two of them at
  the same start time, and whose other searches fail or return nothing: the input of the
  runs the witnesses below evaluate.\<close>

definition example_api :: api where
  "example_api =
     \<lparr>api_getAvailableCollections = Inr [],
      api_getAllStoriesFromCollection = (\<lambda>l off cs. Inr []),
      api_getStoryByUuid = (\<lambda>u. Inr None),
      api_fetchStoryTranscriptByUuid = (\<lambda>u. Inr (Some \<lparr>hub_uuid = u, hub_transcription = None\<rparr>)),
      api_vectorSearch = (\<lambda>t l off f cs mn mx. Inl (DependencyUnavailable ''Embedding service failed'')),
      api_hybridSearch = (\<lambda>t l off f cs mn mx. Inr []),
      api_bm25Search = (\<lambda>t l off f cs mn mx. Inr []),
      api_hybridSearchForStoryId = (\<lambda>sid t l f mn mx.
        Inr [hit ''a'' (Some 0) None None, hit ''b'' (Some 0) None None, hit ''c'' (Some 1) None None]),
      api_vectorSearchForStoryId = (\<lambda>sid t l f mn mx. Inl (DependencyUnavailable ''Embedding service failed'')),
      api_bm25SearchForStoryId = (\<lambda>sid t l f mn mx. Inr [])\<rparr>"

definition example_run :: "event list" where
  "example_run = [SetSearchTerm ''war'', GetStoryTranscriptByUuid ''s1'',
                  RunHybridSearchForStoryId 10 [] None None, NextMatch]"

lemmas store_eval = run_events_def example_run_def example_api_def initial_store_def
  getStoryTranscriptByUuid_def transcript_response_def runHybridSearchForStoryId_def runVectorSearchForStoryId_def
  runStorySearch_def nextMatch_def js_rem_def unique_matches_def Let_def

theorem reachable_match_inv_witness:
  "reachable example_api (run_events example_api example_run initial_store) \<and>
   length (matches (run_events example_api example_run initial_store)) = 2 \<and>
   currentMatchIndex (run_events example_api example_run initial_store) = 1 \<and>
   match_inv (run_events example_api example_run initial_store)"
proof -
  have r: "reachable example_api (run_events example_api example_run initial_store)"
    by (rule reachable_run_events) (rule reachable_init)
  have "length (matches (run_events example_api example_run initial_store)) = 2 \<and>
        currentMatchIndex (run_events example_api example_run initial_store) = 1"
    by (simp add: store_eval)
  with r reachable_match_inv [OF r] show ?thesis by blast
qed

subsection \<open>Match navigation\<close>

text \<open>
  C13: when the current index designates a match, stepping to the next match and back,
  or to the previous match and forward, restores the state.
\<close>

theorem match_navigation_roundtrip:
  assumes "match_inv st" and "matches st \<noteq> []"
  shows "previousMatch (nextMatch st) = st \<and> nextMatch (previousMatch st) = st"
proof -
  let ?i = "currentMatchIndex st" and ?n = "int (length (matches st))"
  have i: "0 \<le> ?i" "?i < ?n" using assms by (simp_all add: match_inv_def)
  then have n: "0 < ?n" by linarith
  have next_i: "js_rem (?i + 1) ?n = (if ?i + 1 = ?n then 0 else ?i + 1)"
    using i n by (auto simp: js_rem_nonneg)
  have prev_i: "js_rem ((if ?i = 0 then ?n - 1 else ?i - 1) + 1) ?n = ?i"
    using i n by (auto simp: js_rem_nonneg)
  show ?thesis
    using assms i next_i prev_i by (simp add: nextMatch_def previousMatch_def)
qed

theorem match_navigation_roundtrip_witness:
  "previousMatch (nextMatch (run_events example_api example_run initial_store)) =
     run_events example_api example_run initial_store \<and>
   currentMatchIndex (nextMatch (run_events example_api example_run initial_store)) = 0"
proof -
  have "match_inv (run_events example_api example_run initial_store) \<and>
        matches (run_events example_api example_run initial_store) \<noteq> []"
    using reachable_match_inv_witness by auto
  then show ?thesis
    using match_navigation_roundtrip [of "run_events example_api example_run initial_store"]
    by (simp add: store_eval)
qed

subsection \<open>The pagination probe\<close>

lemma getAllStories_keeps [simp]:
  "selectedCollectionIds (getAllStories a l off st) = selectedCollectionIds st"
  "currentPage (getAllStories a l off st) = currentPage st"
  "nerFilters (getAllStories a l off st) = nerFilters st"
  by (simp_all add: getAllStories_def Let_def split: sum.split)

lemma length_window_eq:
  "0 < limit \<Longrightarrow> length (window c f limit offset) = limit \<longleftrightarrow> offset + limit \<le> length (filter (applies f) c)"
  by (auto simp: window_def min_def)

lemma window_one_nonempty: "0 < length (window c f 1 offset) \<longleftrightarrow> offset < length (filter (applies f) c)"
  by (auto simp: window_def)

lemma getAllStories_window:
  assumes "0 < limit"
  shows "let st' = getAllStories (server (list_backend c) fT de collate fc fs) limit offset st;
             F = buildCombinedFilters [] (selectedCollectionIds st)
         in stories st' = Some (window c F limit offset) \<and>
            hasNextStoriesPage st' = (offset + limit < length (filter (applies F) c)) \<and>
            \<not> loading st'"
proof -
  let ?F = "buildCombinedFilters [] (selectedCollectionIds st)"
  have api: "api_getAllStoriesFromCollection (server (list_backend c) fT de collate fc fs) l off
               (selectedCollectionIds st) = Inr (window c ?F l off)" for l off
    by (simp add: server_def getAllStoriesFromCollection_def list_backend_def)
  show ?thesis
  proof (cases "offset + limit \<le> length (filter (applies ?F) c)")
    case True
    then have "length (window c ?F limit offset) = limit" using assms length_window_eq by blast
    then show ?thesis
      using window_one_nonempty [of c ?F "offset + limit"]
      by (simp add: getAllStories_def api Let_def del: length_greater_0_conv)
  next
    case False
    then have "length (window c ?F limit offset) \<noteq> limit" using assms length_window_eq by blast
    with False show ?thesis by (simp add: getAllStories_def api Let_def)
  qed
qed

text \<open>
  C14: against a datastore that pages through its corpus, \<open>getAllStories\<close> with a
  positive limit stores the requested window of the stories the selected collections
  admit, and reports a next page exactly when stories remain after that window.
\<close>

theorem getAllStories_probe:
  assumes "0 < limit"
  shows "let st' = getAllStories (server (list_backend c) fT de collate fc fs) limit offset st;
             F = buildCombinedFilters [] (selectedCollectionIds st)
         in stories st' = Some (window c F limit offset) \<and>
            hasNextStoriesPage st' = (offset + limit < length (filter (applies F) c)) \<and>
            \<not> loading st'"
  using assms by (rule getAllStories_window)

theorem getAllStories_probe_witness:
  "hasNextStoriesPage (getAllStories (server (list_backend [hit ''a'' None None None, hit ''b'' None None None,
       hit ''c'' None None None]) (\<lambda>_. Inr []) (Inr []) length (\<lambda>_. Inr None) (\<lambda>_. Inr None)) 2 0 initial_store) \<and>
   \<not> hasNextStoriesPage (getAllStories (server (list_backend [hit ''a'' None None None, hit ''b'' None None None,
       hit ''c'' None None None]) (\<lambda>_. Inr []) (Inr []) length (\<lambda>_. Inr None) (\<lambda>_. Inr None)) 2 2 initial_store)"
  using getAllStories_probe [of 2 "[hit ''a'' None None None, hit ''b'' None None None, hit ''c'' None None None]"
      "\<lambda>_. Inr []" "Inr []" length "\<lambda>_. Inr None" "\<lambda>_. Inr None" 0 initial_store]
    getAllStories_probe [of 2 "[hit ''a'' None None None, hit ''b'' None None None, hit ''c'' None None None]"
      "\<lambda>_. Inr []" "Inr []" length "\<lambda>_. Inr None" "\<lambda>_. Inr None" 2 initial_store]
  by (simp add: Let_def initial_store_def buildCombinedFilters_def)

subsection \<open>Collections and labels\<close>

lemma loadCollections_error: "api_getAvailableCollections a = Inl e \<Longrightarrow> loadCollections a st = st"
  by (simp add: loadCollections_def)

text \<open>
  After the collections load, the store holds them, the selection keeps only
  previously selected ids that still exist, in their order, and is cleared when there is
  at most one collection.
\<close>

theorem loadCollections_selection:
  assumes "api_getAvailableCollections a = Inr cols"
  shows "collections (loadCollections a st) = cols \<and>
         subseq (selectedCollectionIds (loadCollections a st)) (selectedCollectionIds st) \<and>
         set (selectedCollectionIds (loadCollections a st)) \<subseteq> set (map co_id cols) \<and>
         (length cols \<le> 1 \<longrightarrow> selectedCollectionIds (loadCollections a st) = [])"
  using assms by (auto simp: loadCollections_def Let_def)

theorem loadCollections_selection_witness:
  "selectedCollectionIds (loadCollections
      (example_api\<lparr>api_getAvailableCollections :=
         Inr [\<lparr>co_id = ''c1'', co_name = ''A'', co_description = [], co_itemCount = 1, co_image = None\<rparr>,
              \<lparr>co_id = ''c2'', co_name = ''B'', co_description = [], co_itemCount = 1, co_image = None\<rparr>]\<rparr>)
      (initial_store\<lparr>selectedCollectionIds := [''c9'', ''c2'']\<rparr>)) = [''c2'']"
  using loadCollections_selection [of "example_api\<lparr>api_getAvailableCollections :=
         Inr [\<lparr>co_id = ''c1'', co_name = ''A'', co_description = [], co_itemCount = 1, co_image = None\<rparr>,
              \<lparr>co_id = ''c2'', co_name = ''B'', co_description = [], co_itemCount = 1, co_image = None\<rparr>]\<rparr>"]
  by (simp add: loadCollections_def)

text \<open>
  Toggling a label flips its membership in the selection, leaves every other
  label's membership as it was, and keeps a selection without duplicates without them.
\<close>

theorem setUpdateSelectedNerLabel_toggle:
  "(l \<in> set (selected_ner_labels (setUpdateSelectedNerLabel l st)) \<longleftrightarrow> l \<notin> set (selected_ner_labels st)) \<and>
   set (selected_ner_labels (setUpdateSelectedNerLabel l st)) - {l} = set (selected_ner_labels st) - {l} \<and>
   (distinct (selected_ner_labels st) \<longrightarrow> distinct (selected_ner_labels (setUpdateSelectedNerLabel l st)))"
  by (auto simp: setUpdateSelectedNerLabel_def Let_def)

theorem setUpdateSelectedNerLabel_toggle_witness:
  "selected_ner_labels (setUpdateSelectedNerLabel ''LOC'' (initial_store\<lparr>selected_ner_labels := [''PER'', ''LOC'']\<rparr>))
     = [''PER''] \<and> distinct (selected_ner_labels (setUpdateSelectedNerLabel ''ORG''
        (initial_store\<lparr>selected_ner_labels := [''PER'', ''LOC'']\<rparr>)))"
  using setUpdateSelectedNerLabel_toggle [of "''ORG''" "initial_store\<lparr>selected_ner_labels := [''PER'', ''LOC'']\<rparr>"]
  by (simp add: setUpdateSelectedNerLabel_def)

text \<open>
  Toggling a label that is not selected twice restores the state.
\<close>

theorem setUpdateSelectedNerLabel_roundtrip:
  assumes "l \<notin> set (selected_ner_labels st)"
  shows "setUpdateSelectedNerLabel l (setUpdateSelectedNerLabel l st) = st"
proof -
  have "filter (\<lambda>x. x \<noteq> l) (selected_ner_labels st) = selected_ner_labels st"
    using assms by (auto simp: filter_id_conv)
  with assms show ?thesis by (simp add: setUpdateSelectedNerLabel_def Let_def)
qed

theorem setUpdateSelectedNerLabel_roundtrip_witness:
  "setUpdateSelectedNerLabel ''LOC'' (setUpdateSelectedNerLabel ''LOC'' (initial_store\<lparr>selected_ner_labels := [''PER'']\<rparr>))
     = initial_store\<lparr>selected_ner_labels := [''PER'']\<rparr>"
  by (rule setUpdateSelectedNerLabel_roundtrip) simp

subsection \<open>Resets and failures\<close>

text \<open>
  \<open>clearStore\<close> returns the store to its initial state except that \<open>loading\<close> is
  \<open>False\<close>, and that \<open>hasSearched\<close> and the words of the last transcript
  (\<open>allWords\<close>) survive although the transcript itself is cleared.
\<close>

theorem clearStore_spec:
  "clearStore st = initial_store\<lparr>loading := False, hasSearched := hasSearched st, allWords := allWords st\<rparr>"
  by (cases st) (simp add: clearStore_def initial_store_def)

text \<open>
  C15: a corpus-wide search whose server call fails rejects with that error and leaves
  \<open>loading\<close> set: nothing clears it.
\<close>

theorem runVectorSearch_failure:
  assumes "searchTerm st \<noteq> []"
    and "api_vectorSearch a (searchTerm st) l off f (selectedCollectionIds st) mn mx = Inl e"
  shows "runVectorSearch a l off f mn mx st = (st\<lparr>loading := True\<rparr>, Some e)"
  using assms by (simp add: runVectorSearch_def runSearch_def)

theorem runVectorSearch_failure_witness:
  "runVectorSearch example_api 10 0 [] None None (initial_store\<lparr>searchTerm := ''war'', loading := False\<rparr>) =
     (initial_store\<lparr>searchTerm := ''war''\<rparr>, Some (DependencyUnavailable ''Embedding service failed''))"
  using runVectorSearch_failure [of "initial_store\<lparr>searchTerm := ''war'', loading := False\<rparr>" example_api 10 0 "[]"
      None None "DependencyUnavailable ''Embedding service failed''"]
  by (simp add: example_api_def initial_store_def)

text \<open>
  C16: a story-scoped search whose server call fails is caught: the action resolves,
  clears the result and the matches and ends the searching flag, and changes nothing
  else; in particular the current match index is not reset to \<open>-1\<close>, the value for no
  match, and the store is left with an index but no matches.
\<close>

theorem story_search_failure_keeps_index:
  assumes "searchTerm st \<noteq> []" and "storyHubPage st = Some h" and "hub_uuid h \<noteq> []"
    and "api_vectorSearchForStoryId a (hub_uuid h) (searchTerm st) l f mn mx = Inl e"
  shows "store_step a (RunVectorSearchForStoryId l f mn mx) st =
           (st\<lparr>result := None, matches := [], isSemanticSearching := False\<rparr>, None)"
  using assms by (simp add: runVectorSearchForStoryId_def runStorySearch_def Let_def)

theorem story_search_failure_keeps_index_witness:
  "store_step example_api (RunVectorSearchForStoryId 10 [] None None) (run_events example_api example_run initial_store) =
     ((run_events example_api example_run initial_store)\<lparr>result := None, matches := [], isSemanticSearching := False\<rparr>, None) \<and>
   currentMatchIndex (run_events example_api example_run initial_store) = 1"
proof -
  let ?st = "run_events example_api example_run initial_store"
  have t: "searchTerm ?st = ''war''" and h: "storyHubPage ?st = Some \<lparr>hub_uuid = ''s1'', hub_transcription = None\<rparr>"
    and c: "currentMatchIndex ?st = 1"
    by (simp_all add: store_eval)
  have e: "api_vectorSearchForStoryId example_api ''s1'' ''war'' 10 [] None None = Inl (DependencyUnavailable ''Embedding service failed'')"
    by (simp add: example_api_def)
  show ?thesis
    using story_search_failure_keeps_index [OF _ h _, of example_api 10 "[]" None None] t e c by simp
qed

subsection \<open>The word list of a transcript\<close>

lemma set_enumerate0: "set (enumerate 0 xs) = (\<lambda>i. (i, xs ! i)) ` {..<length xs}"
  by (auto simp: in_set_enumerate_eq image_iff)

lemma map_snd_enumerate: "map (\<lambda>x. g (snd x)) (enumerate n xs) = map g xs"
  by (induction xs arbitrary: n) simp_all

lemma length_all_words:
  "length (all_words t) = sum_list (map (\<lambda>section. sum_list (map length section)) t)"
  by (simp add: all_words_def length_concat comp_def case_prod_beta map_snd_enumerate
      map_snd_enumerate [where g = "\<lambda>section. sum_list (map length section)"])

text \<open>
  The word list built from a transcript holds exactly one entry per word position:
  an entry is in it iff its section, paragraph and word indices address a word of the
  transcript and its text and times are that word's; there are as many entries as words.
\<close>

theorem all_words_positions:
  "(w \<in> set (all_words t) \<longleftrightarrow>
      section_idx w < length t \<and> para_idx w < length (t ! section_idx w) \<and>
      word_idx w < length (t ! section_idx w ! para_idx w) \<and>
      word_text w = tw_text (t ! section_idx w ! para_idx w ! word_idx w) \<and>
      word_start w = tw_start (t ! section_idx w ! para_idx w ! word_idx w) \<and>
      word_end w = tw_end (t ! section_idx w ! para_idx w ! word_idx w)) \<and>
   length (all_words t) = sum_list (map (\<lambda>section. sum_list (map length section)) t)"
proof
  show "length (all_words t) = sum_list (map (\<lambda>section. sum_list (map length section)) t)"
    by (rule length_all_words)
  show "w \<in> set (all_words t) \<longleftrightarrow> section_idx w < length t \<and> para_idx w < length (t ! section_idx w) \<and>
      word_idx w < length (t ! section_idx w ! para_idx w) \<and>
      word_text w = tw_text (t ! section_idx w ! para_idx w ! word_idx w) \<and>
      word_start w = tw_start (t ! section_idx w ! para_idx w ! word_idx w) \<and>
      word_end w = tw_end (t ! section_idx w ! para_idx w ! word_idx w)"
    by (cases w) (auto simp: all_words_def set_enumerate0 image_iff)
qed

end
