(* ===== verification/Occurrences.thy ===== *)
theory Occurrences
  imports Entities Store
begin

text \<open>
  The entity views of a story page: the pure helpers of
  \<open>src/app/story/[storyUuid]/Components/NerEntityModal.tsx\<close> (the entity records of
  \<open>ner_data\<close>, the context window around an occurrence, the word an occurrence falls on,
  the plain-text context of a search hit with its highlighted match, the grouping of
  project-wide hits by recording) and of \<open>StoryMetadataEntity.tsx\<close> (the jump to the
  next occurrence of a label; the grouping of a story's entities is in \<open>EntityGroups\<close>).
  Both components drop an occurrence that starts within \<open>0.001\<close> s of the one before it
  in start-time order (\<open>dedupe_close\<close>). The React rendering and the player and
  transcript stores they call are outside the model.
\<close>

subsection \<open>Entity records\<close>

text \<open>\<open>NerDataItem\<close>.\<close>

record ner_item =
  ni_text :: string
  ni_label :: string
  ni_start :: rat
  ni_end :: rat

text \<open>The type guard of \<open>normalizeNerData\<close> (lines 80--89): an object whose \<open>text\<close> and
  \<open>label\<close> are strings and whose \<open>start_time\<close> and \<open>end_time\<close> are numbers.\<close>

definition as_ner_item :: "json \<Rightarrow> ner_item option" where
  "as_ner_item item =
     (case item of
        JObj entries \<Rightarrow>
          (case (map_of entries ''text'', map_of entries ''label'', map_of entries ''start_time'',
                 map_of entries ''end_time'') of
             (Some (JStr t), Some (JStr l), Some (JNum s), Some (JNum e)) \<Rightarrow>
               Some \<lparr>ni_text = t, ni_label = l, ni_start = s, ni_end = e\<rparr>
           | _ \<Rightarrow> None)
      | _ \<Rightarrow> None)"

definition normalizeNerData :: "json list \<Rightarrow> ner_item list" where
  "normalizeNerData nerData = List.map_filter as_ner_item nerData"

text \<open>\<open>DUPLICATE_TIME_EPSILON\<close>.\<close>

definition DUPLICATE_TIME_EPSILON :: rat where
  "DUPLICATE_TIME_EPSILON = 1 / 1000"

text \<open>\<open>arr.filter((x, index, arr) => index === 0 || Math.abs(t(x) - t(arr[index - 1])) > eps)\<close>:
  an element is kept when it is the first or when it starts more than \<open>eps\<close> after its
  predecessor in the input (kept or not).\<close>

definition dedupe_close :: "('a \<Rightarrow> rat) \<Rightarrow> 'a list \<Rightarrow> 'a list" where
  "dedupe_close t xs =
     map fst (filter (\<lambda>(x, index). index = 0 \<or> DUPLICATE_TIME_EPSILON < \<bar>t x - t (xs ! (index - 1))\<bar>)
                (zip xs [0..<length xs]))"

subsection \<open>Context windows\<close>

text \<open>\<open>Array.prototype.join(sep)\<close>.\<close>

fun join :: "string \<Rightarrow> string list \<Rightarrow> string" where
  "join sep [] = []"
| "join sep [x] = x"
| "join sep (x # y # xs) = x @ sep @ join sep (y # xs)"

definition COLLAPSED_WORD_WINDOW :: nat where "COLLAPSED_WORD_WINDOW = 10"
definition EXPANDED_WORD_WINDOW :: nat where "EXPANDED_WORD_WINDOW = 50"
definition COLLAPSED_CHAR_WINDOW :: nat where "COLLAPSED_CHAR_WINDOW = 40"

text \<open>\<open>buildContextWindow\<close> (lines 185--194): the words within \<open>window\<close> (here \<open>windowSize\<close>)
  positions of the centre, an ellipsis on each side that was cut. The centre is a valid index of a
  non-empty list at every call, so \<open>Math.max(0, \<dots>)\<close> is truncated subtraction.\<close>

definition buildContextWindow :: "word list \<Rightarrow> nat \<Rightarrow> nat \<Rightarrow> string" where
  "buildContextWindow words centerIndex windowSize =
     (let startIndex = centerIndex - windowSize;
          endIndex = min (length words - 1) (centerIndex + windowSize);
          hasLeadingText = 0 < startIndex;
          hasTrailingText = endIndex < length words - 1
      in (if hasLeadingText then ''... '' else []) @
         join '' '' (map word_text (take (Suc endIndex - startIndex) (drop startIndex words))) @
         (if hasTrailingText then '' ...'' else []))"

text \<open>A word overlaps the span \<open>[s, e]\<close> when it starts or ends inside it or covers it.\<close>

definition overlaps :: "rat \<Rightarrow> rat \<Rightarrow> word \<Rightarrow> bool" where
  "overlaps targetStartTime targetEndTime w \<longleftrightarrow>
     (targetStartTime \<le> word_start w \<and> word_start w \<le> targetEndTime) \<or>
     (targetStartTime \<le> word_end w \<and> word_end w \<le> targetEndTime) \<or>
     (word_start w \<le> targetStartTime \<and> targetEndTime \<le> word_end w)"

definition midpoint :: "word \<Rightarrow> rat" where
  "midpoint w = (word_start w + word_end w) / 2"

text \<open>The callback of \<open>words.reduce\<close> (lines 209--213), the accumulator carrying the
  position of the word it holds: a later word replaces it only when strictly closer.\<close>

definition closest_step :: "rat \<Rightarrow> nat \<times> word \<Rightarrow> nat \<times> word \<Rightarrow> nat \<times> word" where
  "closest_step targetMidpoint iw closest =
     (if \<bar>midpoint (snd iw) - targetMidpoint\<bar> < \<bar>midpoint (snd closest) - targetMidpoint\<bar> then iw else closest)"

text \<open>\<open>getTargetWordIndex\<close> (lines 196--216): the first word overlapping the span, else the
  word whose midpoint is closest to the span's. \<open>None\<close> is the \<open>TypeError\<close> of
  \<open>reduce\<close> on an empty array.\<close>

definition getTargetWordIndex :: "word list \<Rightarrow> rat \<Rightarrow> rat \<Rightarrow> nat option" where
  "getTargetWordIndex words targetStartTime targetEndTime =
     (if list_ex (overlaps targetStartTime targetEndTime) words
      then Some (nat (find_index (overlaps targetStartTime targetEndTime) words))
      else
        (case words of
           [] \<Rightarrow> None
         | w # ws \<Rightarrow>
             Some (fst (fold (closest_step ((targetStartTime + targetEndTime) / 2)) (enumerate 1 ws) (0, w)))))"

text \<open>The two context strings of \<open>getContextAroundTime\<close> (lines 218--243); the highlighted
  parts it also returns are not modelled.\<close>

definition getContextAroundTime :: "word list \<Rightarrow> rat \<Rightarrow> rat \<Rightarrow> string \<times> string" where
  "getContextAroundTime words targetStartTime targetEndTime =
     (case getTargetWordIndex words targetStartTime targetEndTime of
        None \<Rightarrow> ([], [])
      | Some targetWordIndex \<Rightarrow>
          (buildContextWindow words targetWordIndex COLLAPSED_WORD_WINDOW,
           buildContextWindow words targetWordIndex EXPANDED_WORD_WINDOW))"

text \<open>An \<open>EntityOccurrence\<close> of the current interview, without its highlighted parts.\<close>

record occurrence =
  oc_text :: string
  oc_start :: rat
  oc_end :: rat
  oc_context :: string
  oc_expandedContext :: string

text \<open>\<open>currentInterviewOccurrences\<close> (lines 267--286): the well-formed entity records
  sorted by start time, those of the entity (text compared case-insensitively, label
  exactly), close duplicates dropped, each with its context.\<close>

definition currentInterviewOccurrences ::
  "json list option \<Rightarrow> word list option \<Rightarrow> string \<Rightarrow> string \<Rightarrow> occurrence list" where
  "currentInterviewOccurrences nerData words entityText entityLabel =
     (case (nerData, words) of
        (Some nd, Some aw) \<Rightarrow>
          (let filteredNerData =
                 filter (\<lambda>ner. to_lower (ni_text ner) = to_lower entityText \<and> ni_label ner = entityLabel)
                   (sort_key ni_start (normalizeNerData nd));
               uniqueNerData = dedupe_close ni_start filteredNerData
           in map (\<lambda>ner. let (c, ec) = getContextAroundTime aw (ni_start ner) (ni_end ner)
                         in \<lparr>oc_text = ni_text ner, oc_start = ni_start ner, oc_end = ni_end ner,
                             oc_context = c, oc_expandedContext = ec\<rparr>) uniqueNerData)
      | _ \<Rightarrow> [])"

subsection \<open>The context of a project-wide hit\<close>

text \<open>\<open>HighlightPart\<close>: plain text, or text marked as the match.\<close>

datatype hpart = HText string | HMark string

primrec hpart_text :: "hpart \<Rightarrow> string" where
  "hpart_text (HText s) = s"
| "hpart_text (HMark s) = s"

text \<open>\<open>String.prototype.indexOf\<close>: the first position where the needle occurs, \<open>-1\<close> if
  none (the empty needle occurs at \<open>0\<close>).\<close>

definition index_of :: "string \<Rightarrow> string \<Rightarrow> int" where
  "index_of haystack needle = find_index (\<lambda>i. prefix needle (drop i haystack)) [0..<Suc (length haystack)]"

text \<open>\<open>String.prototype.slice(a, b)\<close> for \<open>0 \<le> a\<close>, \<open>0 \<le> b\<close>.\<close>

definition slice :: "'a list \<Rightarrow> nat \<Rightarrow> nat \<Rightarrow> 'a list" where
  "slice xs a b = take (b - a) (drop a xs)"

text \<open>\<open>createSimpleContext\<close> (lines 314--345): the first case-insensitive occurrence of the
  entity with \<open>window\<close> characters on each side, ellipses where the source was cut.\<close>

definition createSimpleContext :: "string \<Rightarrow> string \<Rightarrow> nat \<Rightarrow> (string \<times> hpart list) option" where
  "createSimpleContext transcription entityText windowSize =
     (let source = transcription;
          sourceLower = to_lower source;
          entityLower = to_lower entityText;
          matchStart = index_of sourceLower entityLower
      in if matchStart = -1 then None
         else
           (let ms = nat matchStart;
                matchEnd = ms + length entityText;
                start = ms - windowSize;
                end = min (length source) (matchEnd + windowSize);
                before = slice source start ms;
                matchText = slice source ms matchEnd;
                after = slice source matchEnd end;
                hasLeadingText = 0 < start;
                hasTrailingText = end < length source;
                highlightedParts =
                  (if hasLeadingText then [HText ''...''] else []) @ [HText before, HMark matchText, HText after] @
                  (if hasTrailingText then [HText ''...''] else []);
                text = (if hasLeadingText then ''...'' else []) @ before @ matchText @ after @
                       (if hasTrailingText then ''...'' else [])
            in Some (text, highlightedParts)))"

subsection \<open>Project-wide hits by recording\<close>

record 'a recording_group =
  rg_interview_title :: string
  rg_theirstory_id :: string
  rg_occurrences :: "'a list"

text \<open>\<open>occurrencesByRecording\<close> (lines 372--383), over the readers of the two properties
  (\<open>theirstory_id ?? ''\<close>, \<open>interview_title ?? 'Unknown recording'\<close>): a group per recording
  in order of first appearance, titled by its first hit.\<close>

definition group_hit ::
  "('a \<Rightarrow> string) \<Rightarrow> ('a \<Rightarrow> string) \<Rightarrow> (string \<times> 'a recording_group) list \<Rightarrow> 'a
   \<Rightarrow> (string \<times> 'a recording_group) list" where
  "group_hit idOf titleOf byId obj =
     (let id = idOf obj;
          g = (case map_of byId id of
                 None \<Rightarrow> \<lparr>rg_interview_title = titleOf obj, rg_theirstory_id = id, rg_occurrences = []\<rparr>
               | Some g \<Rightarrow> g)
      in am_set id (g\<lparr>rg_occurrences := rg_occurrences g @ [obj]\<rparr>) byId)"

definition occurrencesByRecording ::
  "('a \<Rightarrow> string) \<Rightarrow> ('a \<Rightarrow> string) \<Rightarrow> 'a list \<Rightarrow> 'a recording_group list" where
  "occurrencesByRecording idOf titleOf collectionOccurrences =
     map snd (fold (\<lambda>obj byId. group_hit idOf titleOf byId obj) collectionOccurrences [])"

subsection \<open>Jumping to the next occurrence of a label\<close>

text \<open>\<open>handleCategoryClick\<close> of \<open>StoryMetadataEntity.tsx\<close> (lines 54--83): switch the label
  on if it is off; among the label's occurrences in start-time order, close duplicates
  dropped, seek to the first that starts after the current time, or wrap to the first.
  The result is the store after the toggle and the time sought, if any.\<close>

definition handleCategoryClick ::
  "ner_item list \<Rightarrow> rat \<Rightarrow> string \<Rightarrow> store \<Rightarrow> store \<times> rat option" where
  "handleCategoryClick ner_data currentTime category st =
     (let st' = (if category \<notin> set (selected_ner_labels st) then setUpdateSelectedNerLabel category st else st);
          categoryInstances = sort_key ni_start (filter (\<lambda>item. ni_label item = category) ner_data)
      in if categoryInstances = [] then (st', None)
         else
           (let deduplicatedInstances = dedupe_close ni_start categoryInstances;
                targetInstance = (case find (\<lambda>item. currentTime < ni_start item) deduplicatedInstances of
                                    Some i \<Rightarrow> i
                                  | None \<Rightarrow> hd deduplicatedInstances)
            in (st', Some (ni_start targetInstance))))"

subsection \<open>Close duplicates\<close>

text \<open>Which positions \<open>dedupe_close\<close> keeps.\<close>

lemma zip_upt_nth: "zip xs [0..<length xs] = map (\<lambda>i. (xs ! i, i)) [0..<length xs]"
  by (rule nth_equalityI) simp_all

lemma map_fst_filter_zip:
  "map fst (filter (\<lambda>(x, i). P x i) (zip xs [0..<length xs])) =
     map (nth xs) (filter (\<lambda>i. P (xs ! i) i) [0..<length xs])"
  by (simp add: zip_upt_nth filter_map comp_def)

definition close_keep :: "('a \<Rightarrow> rat) \<Rightarrow> 'a list \<Rightarrow> nat \<Rightarrow> bool" where
  "close_keep t xs i \<longleftrightarrow> i = 0 \<or> DUPLICATE_TIME_EPSILON < \<bar>t (xs ! i) - t (xs ! (i - 1))\<bar>"

lemma dedupe_close_nth: "dedupe_close t xs = map (nth xs) (filter (close_keep t xs) [0..<length xs])"
  unfolding dedupe_close_def close_keep_def by (rule map_fst_filter_zip)

lemma dedupe_close_nths: "dedupe_close t xs = nths xs {i. close_keep t xs i}"
  by (simp add: dedupe_close_nth nths_def zip_upt_nth filter_map comp_def)

lemma subseq_dedupe_close: "subseq (dedupe_close t xs) xs"
  by (auto simp: subseq_conv_nths dedupe_close_nths)

lemma dedupe_close_Cons_hd: "dedupe_close t (x # xs) \<noteq> [] \<and> hd (dedupe_close t (x # xs)) = x"
  by (simp add: dedupe_close_nth upt_conv_Cons close_keep_def del: upt_Suc)

lemma dedupe_close_spaced:
  assumes "sorted (map t xs)"
  shows "sorted_wrt (\<lambda>a b. t a + DUPLICATE_TIME_EPSILON < t b) (dedupe_close t xs)"
  unfolding dedupe_close_nth
proof (rule sorted_wrt_map_mono)
  show "sorted_wrt (<) (filter (close_keep t xs) [0..<length xs])"
    by (rule sorted_wrt_filter) (rule sorted_wrt_upt)
next
  fix i j assume "i \<in> set (filter (close_keep t xs) [0..<length xs])"
    and j: "j \<in> set (filter (close_keep t xs) [0..<length xs])" and ij: "i < j"
  then have jl: "j < length xs" and kj: "close_keep t xs j" by auto
  have mono: "t (xs ! a) \<le> t (xs ! b)" if "a \<le> b" "b < length xs" for a b
    using sorted_nth_mono [OF assms, of a b] that by simp
  from ij have j0: "j \<noteq> 0" by simp
  with kj have "DUPLICATE_TIME_EPSILON < \<bar>t (xs ! j) - t (xs ! (j - 1))\<bar>" by (simp add: close_keep_def)
  moreover have "t (xs ! (j - 1)) \<le> t (xs ! j)" using mono [of "j - 1" j] jl by simp
  moreover have "t (xs ! i) \<le> t (xs ! (j - 1))" using mono [of i "j - 1"] ij jl by simp
  ultimately show "t (xs ! i) + DUPLICATE_TIME_EPSILON < t (xs ! j)" by linarith
qed


text \<open>Witness input: three words of a transcript.\<close>

definition example_words :: "word list" where
  "example_words =
     [\<lparr>word_text = ''we'', word_idx = 0, para_idx = 0, section_idx = 0, word_start = 0, word_end = 1\<rparr>,
      \<lparr>word_text = ''left'', word_idx = 1, para_idx = 0, section_idx = 0, word_start = 2, word_end = 3\<rparr>,
      \<lparr>word_text = ''Paris'', word_idx = 2, para_idx = 0, section_idx = 0, word_start = 5, word_end = 6\<rparr>]"

lemma occurrence_case_sel [simp]:
  "oc_text (case p of (c, ec) \<Rightarrow> \<lparr>oc_text = a, oc_start = b, oc_end = d, oc_context = c, oc_expandedContext = ec\<rparr>) = a"
  "oc_start (case p of (c, ec) \<Rightarrow> \<lparr>oc_text = a, oc_start = b, oc_end = d, oc_context = c, oc_expandedContext = ec\<rparr>) = b"
  "oc_end (case p of (c, ec) \<Rightarrow> \<lparr>oc_text = a, oc_start = b, oc_end = d, oc_context = c, oc_expandedContext = ec\<rparr>) = d"
  by (cases p; simp)+

lemma sorted_map_filter: "sorted (map f xs) \<Longrightarrow> sorted (map f (filter P xs))"
  by (induction xs) auto

text \<open>
  C17: the occurrences of an entity in the current interview are those of its
  well-formed entity records with its label and, up to case, its text, in increasing
  start-time order with more than \<open>0.001\<close> s between consecutive starts.
\<close>

theorem currentInterviewOccurrences_spec:
  "sorted_wrt (\<lambda>a b. oc_start a + DUPLICATE_TIME_EPSILON < oc_start b)
     (currentInterviewOccurrences nerData words entityText entityLabel) \<and>
   (\<forall>oc \<in> set (currentInterviewOccurrences nerData words entityText entityLabel).
      \<exists>ner \<in> set (normalizeNerData (the nerData)). ni_label ner = entityLabel \<and>
        to_lower (ni_text ner) = to_lower entityText \<and>
        oc_text oc = ni_text ner \<and> oc_start oc = ni_start ner \<and> oc_end oc = ni_end ner)"
proof (cases "nerData = None \<or> words = None")
  case True
  then show ?thesis by (auto simp: currentInterviewOccurrences_def split: option.splits)
next
  case False
  then obtain nd aw where nd: "nerData = Some nd" and aw: "words = Some aw" by auto
  let ?F = "filter (\<lambda>ner. to_lower (ni_text ner) = to_lower entityText \<and> ni_label ner = entityLabel)
              (sort_key ni_start (normalizeNerData nd))"
  let ?U = "dedupe_close ni_start ?F"
  let ?mk = "\<lambda>ner. let (c, ec) = getContextAroundTime aw (ni_start ner) (ni_end ner)
                   in \<lparr>oc_text = ni_text ner, oc_start = ni_start ner, oc_end = ni_end ner,
                       oc_context = c, oc_expandedContext = ec\<rparr>"
  have occ: "currentInterviewOccurrences (Some nd) (Some aw) entityText entityLabel = map ?mk ?U"
    by (simp add: currentInterviewOccurrences_def)
  have fields: "oc_text (?mk n) = ni_text n \<and> oc_start (?mk n) = ni_start n \<and> oc_end (?mk n) = ni_end n" for n
    by (simp add: Let_def split: prod.split)
  have "sorted (map ni_start ?F)" by (rule sorted_map_filter) (rule sorted_sort_key)
  then have "sorted_wrt (\<lambda>a b. ni_start a + DUPLICATE_TIME_EPSILON < ni_start b) ?U"
    by (rule dedupe_close_spaced)
  then have sorted: "sorted_wrt (\<lambda>a b. oc_start a + DUPLICATE_TIME_EPSILON < oc_start b) (map ?mk ?U)"
    by (simp add: sorted_wrt_map fields)
  have "set ?U \<subseteq> set ?F" using subseq_dedupe_close by (rule subseq_set)
  then have members: "\<forall>oc \<in> set (map ?mk ?U). \<exists>ner \<in> set (normalizeNerData nd). ni_label ner = entityLabel \<and>
        to_lower (ni_text ner) = to_lower entityText \<and>
        oc_text oc = ni_text ner \<and> oc_start oc = ni_start ner \<and> oc_end oc = ni_end ner"
    using fields by fastforce
  show ?thesis unfolding nd aw option.sel occ using sorted members by blast
qed

theorem currentInterviewOccurrences_spec_witness:
  "currentInterviewOccurrences
     (Some [JObj [(''text'', JStr ''Paris''), (''label'', JStr ''LOC''), (''start_time'', JNum 5), (''end_time'', JNum 6)],
            JObj [(''text'', JStr ''paris''), (''label'', JStr ''LOC''), (''start_time'', JNum (5 + 1 / 5000)), (''end_time'', JNum 6)],
            JObj [(''text'', JStr ''Paris''), (''label'', JStr ''GPE''), (''start_time'', JNum 1), (''end_time'', JNum 2)],
            JNull])
     (Some example_words) ''PARIS'' ''LOC'' =
   [\<lparr>oc_text = ''Paris'', oc_start = 5, oc_end = 6, oc_context = ''we left Paris'', oc_expandedContext = ''we left Paris''\<rparr>]"
proof -
  have r: "currentInterviewOccurrences
     (Some [JObj [(''text'', JStr ''Paris''), (''label'', JStr ''LOC''), (''start_time'', JNum 5), (''end_time'', JNum 6)],
            JObj [(''text'', JStr ''paris''), (''label'', JStr ''LOC''), (''start_time'', JNum (5 + 1 / 5000)), (''end_time'', JNum 6)],
            JObj [(''text'', JStr ''Paris''), (''label'', JStr ''GPE''), (''start_time'', JNum 1), (''end_time'', JNum 2)],
            JNull])
     (Some example_words) ''PARIS'' ''LOC'' =
   [\<lparr>oc_text = ''Paris'', oc_start = 5, oc_end = 6, oc_context = ''we left Paris'', oc_expandedContext = ''we left Paris''\<rparr>]"
    by code_simp
  from currentInterviewOccurrences_spec r show ?thesis by simp
qed

subsection \<open>The word of an occurrence and its context\<close>

lemma fold_closest:
  assumes "fold (closest_step m) (enumerate 1 ws) (0, w) = (i, d)"
  shows "i < length (w # ws) \<and> d = (w # ws) ! i \<and>
         (\<forall>k < length (w # ws). \<bar>midpoint d - m\<bar> \<le> \<bar>midpoint ((w # ws) ! k) - m\<bar>) \<and>
         (\<forall>k < i. \<bar>midpoint d - m\<bar> < \<bar>midpoint ((w # ws) ! k) - m\<bar>)"
  using assms
proof (induction ws arbitrary: i d rule: rev_induct)
  case Nil
  then show ?case by simp
next
  case (snoc y ws)
  obtain i0 d0 where f0: "fold (closest_step m) (enumerate 1 ws) (0, w) = (i0, d0)" by fastforce
  note IH = snoc.IH [OF f0]
  have step: "closest_step m (Suc (length ws), y) (i0, d0) = (i, d)"
    using snoc.prems f0 by (simp add: enumerate_append_eq)
  have nth: "(w # ws @ [y]) ! k = (if k < Suc (length ws) then (w # ws) ! k else y)"
    if "k < Suc (Suc (length ws))" for k
    using that by (cases k) (auto simp: nth_append)
  let ?D = "\<lambda>x. \<bar>midpoint x - m\<bar>"
  show ?case
  proof (cases "?D y < ?D d0")
    case True
    with step have "i = Suc (length ws)" "d = y" by (simp_all add: closest_step_def)
    with True IH show ?thesis by (auto simp: nth less_Suc_eq)
  next
    case False
    with step have i: "i = i0" and d: "d = d0" by (simp_all add: closest_step_def)
    note i0 = IH [THEN conjunct1] and d0 = IH [THEN conjunct2, THEN conjunct1]
      and IHle = IH [THEN conjunct2, THEN conjunct2, THEN conjunct1]
      and IHlt = IH [THEN conjunct2, THEN conjunct2, THEN conjunct2]
    have le: "?D d0 \<le> ?D ((w # ws @ [y]) ! k)" if k: "k < length (w # ws @ [y])" for k
    proof (cases "k < Suc (length ws)")
      case True
      then show ?thesis using IHle nth [of k] by simp
    next
      case False
      then have "(w # ws @ [y]) ! k = y" using nth [of k] k by simp
      then show ?thesis using \<open>\<not> ?D y < ?D d0\<close> by simp
    qed
    have lt: "?D d0 < ?D ((w # ws @ [y]) ! k)" if "k < i0" for k
      using that i0 IHlt nth [of k] by simp
    have "d0 = (w # ws @ [y]) ! i0" using d0 i0 nth [of i0] by simp
    then show ?thesis using i0 le lt i d by simp
  qed
qed

lemma find_index_first:
  assumes "list_ex P xs"
  shows "nat (find_index P xs) < length xs \<and> P (xs ! nat (find_index P xs)) \<and>
         (\<forall>k < nat (find_index P xs). \<not> P (xs ! k))"
proof -
  let ?n = "length (takeWhile (\<lambda>x. \<not> P x) xs)"
  from assms obtain z where z: "z \<in> set xs" "P z" by (auto simp: list_ex_iff)
  then have f: "find_index P xs = int ?n" by (auto simp: find_index_eq)
  have lt: "?n < length xs" by (rule length_takeWhile_lt [OF z(1)]) (simp add: z(2))
  have "\<not> \<not> P (xs ! ?n)" using nth_length_takeWhile [OF lt] .
  moreover have "\<not> P (xs ! k)" if "k < ?n" for k
    using that set_takeWhileD [OF nth_mem [OF that]] takeWhile_nth [OF that] by metis
  ultimately show ?thesis using f lt by simp
qed

text \<open>
  When the transcript has words, the word an occurrence is attached to is a valid
  index: the first word overlapping the occurrence if there is one, else the first of the
  words whose midpoint is closest to the occurrence's midpoint.
\<close>

theorem getTargetWordIndex_spec:
  assumes "words \<noteq> []"
  shows "\<exists>i. getTargetWordIndex words s e = Some i \<and> i < length words \<and>
           (if list_ex (overlaps s e) words
            then overlaps s e (words ! i) \<and> (\<forall>k < i. \<not> overlaps s e (words ! k))
            else (\<forall>k < length words. \<bar>midpoint (words ! i) - (s + e) / 2\<bar> \<le> \<bar>midpoint (words ! k) - (s + e) / 2\<bar>) \<and>
                 (\<forall>k < i. \<bar>midpoint (words ! i) - (s + e) / 2\<bar> < \<bar>midpoint (words ! k) - (s + e) / 2\<bar>))"
proof (cases "list_ex (overlaps s e) words")
  case True
  then show ?thesis using find_index_first [OF True] by (simp add: getTargetWordIndex_def)
next
  case False
  from assms obtain w ws where words: "words = w # ws" by (cases words) auto
  obtain i d where f: "fold (closest_step ((s + e) / 2)) (enumerate 1 ws) (0, w) = (i, d)" by fastforce
  have g: "getTargetWordIndex words s e = Some i" using False f by (simp add: getTargetWordIndex_def words)
  note fc = fold_closest [OF f, folded words]
  show ?thesis using g False fc by auto
qed

theorem getTargetWordIndex_spec_witness:
  "getTargetWordIndex example_words 4 (21 / 5) = Some 2 \<and> getTargetWordIndex example_words 5 5 = Some 2 \<and>
   getTargetWordIndex example_words (1 / 2) 2 = Some 0"
  using getTargetWordIndex_spec [of example_words 4 "21 / 5"]
  by (simp add: getTargetWordIndex_def example_words_def overlaps_def closest_step_def midpoint_def)


lemma sublist_take_drop: "sublist (take n (drop m xs)) xs"
  by (metis sublist_order.order_trans prefix_imp_sublist suffix_imp_sublist suffix_drop take_is_prefix)

text \<open>
  The context window around a valid centre consists of at most \<open>2 * window + 1\<close>
  consecutive words of the transcript, the centre word among them, with a leading
  ellipsis exactly when words before the window were cut and a trailing one exactly when
  words after it were.
\<close>

theorem buildContextWindow_window:
  assumes "centerIndex < length words"
  shows "\<exists>ws. buildContextWindow words centerIndex w =
           (if w < centerIndex then ''... '' else []) @ join '' '' (map word_text ws) @
           (if centerIndex + w + 1 < length words then '' ...'' else []) \<and>
           sublist ws words \<and> words ! centerIndex \<in> set ws \<and> length ws \<le> 2 * w + 1"
proof -
  let ?s = "centerIndex - w" and ?e = "min (length words - 1) (centerIndex + w)"
  let ?ws = "take (Suc ?e - ?s) (drop ?s words)"
  have idx: "centerIndex - ?s < length ?ws" using assms by auto
  have "?ws ! (centerIndex - ?s) = words ! centerIndex" using assms idx by simp
  then have "words ! centerIndex \<in> set ?ws" using nth_mem [OF idx] by simp
  moreover have "length ?ws \<le> 2 * w + 1"
  proof -
    have "length ?ws \<le> Suc (centerIndex + w) - (centerIndex - w)"
      by (simp only: length_take length_drop) (rule min.coboundedI2, rule diff_le_mono, simp)
    also have "\<dots> \<le> 2 * w + 1" by arith
    finally show ?thesis .
  qed
  moreover have "buildContextWindow words centerIndex w =
           (if w < centerIndex then ''... '' else []) @ join '' '' (map word_text ?ws) @
           (if centerIndex + w + 1 < length words then '' ...'' else [])"
  proof -
    have "(min (length words - 1) (centerIndex + w) < length words - 1) = (centerIndex + w + 1 < length words)"
      using assms by (simp add: min_def) arith
    then show ?thesis by (simp add: buildContextWindow_def Let_def)
  qed
  ultimately show ?thesis using sublist_take_drop by blast
qed


theorem buildContextWindow_window_witness:
  "buildContextWindow example_words 1 0 = ''... left ...'' \<and> buildContextWindow example_words 1 1 = ''we left Paris''"
  using buildContextWindow_window [of 1 example_words 0]
  by (simp add: buildContextWindow_def example_words_def)


subsection \<open>The context of a project-wide hit\<close>

lemma sublist_iff_prefix_drop: "sublist n h \<longleftrightarrow> (\<exists>i \<le> length h. prefix n (drop i h))"
proof
  assume "sublist n h"
  then obtain ps ss where h: "h = ps @ n @ ss" by (auto simp: sublist_def)
  then show "\<exists>i \<le> length h. prefix n (drop i h)" by (intro exI [of _ "length ps"]) auto
next
  assume "\<exists>i \<le> length h. prefix n (drop i h)"
  then obtain i ss where "i \<le> length h" "drop i h = n @ ss" by (auto simp: prefix_def)
  then have "h = take i h @ n @ ss" by (metis append_take_drop_id)
  then show "sublist n h" by (auto simp: sublist_def)
qed

lemma ex_upt_Suc: "(\<exists>i \<in> set [0..<Suc l]. P i) \<longleftrightarrow> (\<exists>i \<le> l. P i)"
  by (auto simp: less_Suc_eq_le simp del: upt_Suc)

lemma index_of_none: "index_of h n = -1 \<longleftrightarrow> \<not> sublist n h"
proof -
  have "index_of h n = -1 \<longleftrightarrow> \<not> (\<exists>i \<in> set [0..<Suc (length h)]. prefix n (drop i h))"
    by (simp add: index_of_def find_index_eq del: upt_Suc)
  then show ?thesis by (simp only: ex_upt_Suc sublist_iff_prefix_drop)
qed

lemma index_of_found:
  assumes "index_of h n \<noteq> -1"
  shows "nat (index_of h n) \<le> length h \<and> prefix n (drop (nat (index_of h n)) h)"
proof -
  let ?P = "\<lambda>i. prefix n (drop i h)"
  have ex: "list_ex ?P [0..<Suc (length h)]"
    using assms by (auto simp: index_of_def find_index_eq list_ex_iff split: if_splits simp del: upt_Suc)
  let ?k = "nat (find_index ?P [0..<Suc (length h)])"
  note fi = find_index_first [OF ex]
  have lt: "?k < Suc (length h)" using fi [THEN conjunct1] by (simp del: upt_Suc)
  note p = fi [THEN conjunct2, THEN conjunct1]
  have "[0..<Suc (length h)] ! ?k = ?k" using lt by (simp only: nth_upt)
  with lt p show ?thesis by (simp add: index_of_def del: upt_Suc)
qed

lemma to_lower_slice: "to_lower (slice s a b) = slice (to_lower s) a b"
  by (simp add: to_lower_def slice_def take_map drop_map)

lemma length_to_lower [simp]: "length (to_lower s) = length s"
  by (simp add: to_lower_def)

primrec is_mark :: "hpart \<Rightarrow> bool" where
  "is_mark (HText s) = False"
| "is_mark (HMark s) = True"

text \<open>
  The plain-text context of a hit is absent exactly when the entity does not occur in
  the transcript up to case; otherwise its parts concatenate to its text and exactly one
  part is highlighted, a piece of the transcript equal to the entity up to case.
\<close>

theorem createSimpleContext_spec:
  "(createSimpleContext source entityText w = None \<longleftrightarrow> \<not> sublist (to_lower entityText) (to_lower source)) \<and>
   (createSimpleContext source entityText w = Some (text, parts) \<longrightarrow>
      concat (map hpart_text parts) = text \<and>
      (\<exists>m. filter is_mark parts = [HMark m] \<and> to_lower m = to_lower entityText \<and> sublist m source))"
proof (cases "index_of (to_lower source) (to_lower entityText) = -1")
  case True
  then show ?thesis by (simp add: createSimpleContext_def index_of_none)
next
  case False
  let ?ms = "nat (index_of (to_lower source) (to_lower entityText))"
  let ?m = "slice source ?ms (?ms + length entityText)"
  from index_of_found [OF False]
  have "prefix (to_lower entityText) (drop ?ms (to_lower source))" by simp
  then have "take (length entityText) (drop ?ms (to_lower source)) = to_lower entityText"
    by (metis append_eq_conv_conj length_to_lower prefix_def)
  then have low: "to_lower ?m = to_lower entityText" by (simp add: slice_def to_lower_def take_map drop_map)
  have sub: "sublist ?m source" by (simp add: slice_def sublist_take_drop)
  show ?thesis
    using False low sub index_of_none [of "to_lower source" "to_lower entityText"]
    by (auto simp: createSimpleContext_def Let_def)
qed


theorem createSimpleContext_spec_witness:
  "createSimpleContext ''we left Paris at dawn'' ''paris'' 3 =
     Some (''...ft Paris at...'', [HText ''...'', HText ''ft '', HMark ''Paris'', HText '' at'', HText ''...''])"
proof -
  have r: "createSimpleContext ''we left Paris at dawn'' ''paris'' 3 =
     Some (''...ft Paris at...'', [HText ''...'', HText ''ft '', HMark ''Paris'', HText '' at'', HText ''...''])"
    by code_simp
  from createSimpleContext_spec [of "''we left Paris at dawn''" "''paris''" 3] r show ?thesis by blast
qed


subsection \<open>Hits by recording\<close>

lemma am_set_map_keys:
  assumes "distinct (map f ks)"
  shows "am_set k v (map (\<lambda>z. (f z, g z)) ks) =
           (if k \<in> f ` set ks then map (\<lambda>z. (f z, if f z = k then v else g z)) ks
            else map (\<lambda>z. (f z, g z)) ks @ [(k, v)])"
  using assms by (induction ks) (auto simp: image_iff)

lemma map_of_map_keys:
  "distinct (map f ks) \<Longrightarrow> z \<in> set ks \<Longrightarrow> map_of (map (\<lambda>z. (f z, g z)) ks) (f z) = Some (g z)"
  by (rule map_of_is_SomeI) (auto simp: comp_def)

text \<open>The group of a recording after the hits \<open>xs\<close>, titled by its first hit \<open>z\<close>.\<close>

definition group_of :: "('a \<Rightarrow> string) \<Rightarrow> ('a \<Rightarrow> string) \<Rightarrow> 'a list \<Rightarrow> 'a \<Rightarrow> 'a recording_group" where
  "group_of idOf titleOf xs z =
     \<lparr>rg_interview_title = titleOf z, rg_theirstory_id = idOf z, rg_occurrences = filter (\<lambda>y. idOf y = idOf z) xs\<rparr>"

lemma group_of_snoc:
  "group_of idOf titleOf (xs @ [x]) z =
     (if idOf z = idOf x then (group_of idOf titleOf xs z)\<lparr>rg_occurrences := rg_occurrences (group_of idOf titleOf xs z) @ [x]\<rparr>
      else group_of idOf titleOf xs z)"
  by (simp add: group_of_def)

lemma fold_group_hit:
  "fold (\<lambda>obj byId. group_hit idOf titleOf byId obj) xs [] =
     map (\<lambda>z. (idOf z, group_of idOf titleOf xs z)) (keep_first idOf xs)"
proof (induction xs rule: rev_induct)
  case Nil
  then show ?case by simp
next
  case (snoc x xs)
  let ?ks = "keep_first idOf xs" and ?G = "group_of idOf titleOf xs"
  let ?L = "map (\<lambda>z. (idOf z, ?G z)) ?ks"
  have d: "distinct (map idOf ?ks)" by (rule distinct_keep_first)
  have keys: "idOf ` set ?ks = idOf ` set xs" by (rule keys_keep_first)
  have step: "fold (\<lambda>obj byId. group_hit idOf titleOf byId obj) (xs @ [x]) [] = group_hit idOf titleOf ?L x"
    by (simp add: snoc.IH)
  show ?case
  proof (cases "idOf x \<in> idOf ` set xs")
    case True
    then obtain z where z: "z \<in> set ?ks" "idOf z = idOf x" using keys by (metis imageE image_eqI)
    have same: "z' = z" if "z' \<in> set ?ks" "idOf z' = idOf x" for z'
      using d that z by (metis distinct_map inj_on_def)
    have look: "map_of ?L (idOf x) = Some (?G z)"
      using map_of_map_keys [OF d z(1)] z(2) by simp
    have "group_hit idOf titleOf ?L x =
            map (\<lambda>z'. (idOf z', if idOf z' = idOf x then (?G z)\<lparr>rg_occurrences := rg_occurrences (?G z) @ [x]\<rparr>
                                 else ?G z')) ?ks"
      using look True keys by (simp add: group_hit_def Let_def am_set_map_keys [OF d])
    also have "\<dots> = map (\<lambda>z'. (idOf z', group_of idOf titleOf (xs @ [x]) z')) ?ks"
      using same by (intro map_cong refl) (auto simp: group_of_snoc)
    finally show ?thesis using step True by (simp add: keep_first_snoc)
  next
    case False
    have none: "map_of ?L (idOf x) = None"
      using False keys by (auto simp: map_of_eq_None_iff)
    have new: "group_of idOf titleOf (xs @ [x]) x =
                 \<lparr>rg_interview_title = titleOf x, rg_theirstory_id = idOf x, rg_occurrences = [x]\<rparr>"
      using False by (auto simp: group_of_def filter_empty_conv image_iff)
    have old: "?G z = group_of idOf titleOf (xs @ [x]) z" if "z \<in> set ?ks" for z
    proof -
      have "idOf z \<noteq> idOf x" using that False set_keep_first by (metis image_eqI subsetD)
      then show ?thesis by (simp add: group_of_snoc)
    qed
    have "group_hit idOf titleOf ?L x =
            ?L @ [(idOf x, \<lparr>rg_interview_title = titleOf x, rg_theirstory_id = idOf x, rg_occurrences = [x]\<rparr>)]"
      using none False keys by (simp add: group_hit_def Let_def am_set_map_keys [OF d])
    also have "\<dots> = map (\<lambda>z. (idOf z, group_of idOf titleOf (xs @ [x]) z)) (?ks @ [x])"
      using old new by simp
    finally show ?thesis using step False by (simp add: keep_first_snoc)
  qed
qed

text \<open>
  Grouping the project-wide hits gives one group per recording, in the order of the
  recordings' first hits, titled by that first hit and holding exactly that recording's
  hits in their original order.
\<close>

theorem occurrencesByRecording_spec:
  "occurrencesByRecording idOf titleOf xs =
     map (\<lambda>z. \<lparr>rg_interview_title = titleOf z, rg_theirstory_id = idOf z,
                rg_occurrences = filter (\<lambda>y. idOf y = idOf z) xs\<rparr>) (keep_first idOf xs)"
  by (simp add: occurrencesByRecording_def fold_group_hit group_of_def comp_def)


subsection \<open>The next occurrence of a label\<close>

lemma sorted_hd_le:
  assumes "sorted (map f xs)" and "y \<in> set xs"
  shows "f (hd xs) \<le> f y"
  using assms by (cases xs) auto





end
