(* ===== verification/Indexes.thy ===== *)
theory Indexes
  imports Store
begin

text \<open>
  The indexes page \<open>src/app/indexes/page.tsx\<close> (lines 25--143): the story filter
  \<open>filterStories\<close>, the memoised collection list, recording counts and chapter filter,
  the collection toggle and the dropdown's collection filter; and the pagination bar
  \<open>src/components/Pagination.tsx\<close>, whose page change runs the store's
  \<open>getAllStories\<close>. The story and chapter records come from the \<open>/api/indexes\<close>
  response (\<open>IndexesStory\<close>, \<open>IndexChapter\<close>), declared outside the sources;
  \<open>String.prototype.includes\<close> is \<open>sublist\<close> (contiguous), \<open>chaptersByStoryId\<close> is
  the list of its \<open>Object.entries\<close> (keys distinct).
\<close>

record indexes_story =
  s_uuid :: string
  s_interview_title :: string
  s_collection_id :: string
  s_collection_name :: string

record index_chapter =
  ch_section_title :: string
  ch_synopsis :: "string option"

text \<open>The normalised query: \<open>searchQuery.trim().toLowerCase()\<close>.\<close>

definition norm_query :: "string \<Rightarrow> string" where
  "norm_query s = to_lower (trim s)"

text \<open>A chapter matches the query by its title or its (present, non-empty) synopsis.\<close>

definition chapter_matches :: "string \<Rightarrow> index_chapter \<Rightarrow> bool" where
  "chapter_matches q ch \<longleftrightarrow>
     sublist q (to_lower (ch_section_title ch)) \<or>
     (case ch_synopsis ch of None \<Rightarrow> False | Some syn \<Rightarrow> syn \<noteq> [] \<and> sublist q (to_lower syn))"

definition filterStories ::
  "indexes_story list \<Rightarrow> string \<Rightarrow> string list \<Rightarrow> (string \<times> index_chapter list) list \<Rightarrow> indexes_story list" where
  "filterStories storyList searchQuery selectedIds chaptersByStoryId =
     (let q = norm_query searchQuery
      in filter (\<lambda>story.
           if selectedIds \<noteq> [] \<and> s_collection_id story \<notin> set selectedIds then False
           else if q = [] then True
           else if sublist q (to_lower (s_interview_title story)) then True
           else (let chapters = nullish (map_of chaptersByStoryId (s_uuid story)) []
                 in list_ex (chapter_matches q) chapters)) storyList)"

text \<open>The memo \<open>collections\<close> (lines 78--87): each non-empty collection id once, in
  order of first appearance, named by its first story (\<open>collection_name || collection_id\<close>).\<close>

definition indexCollections :: "indexes_story list \<Rightarrow> (string \<times> string) list" where
  "indexCollections storyList =
     (if storyList = [] then []
      else fold (\<lambda>s seen. if s_collection_id s \<noteq> [] \<and> map_of seen (s_collection_id s) = None
                          then am_set (s_collection_id s) (js_or (s_collection_name s) (s_collection_id s)) seen
                          else seen) storyList [])"

text \<open>The memo \<open>recordingsPerCollectionId\<close> (lines 89--96).\<close>

definition recordingsPerCollectionId :: "indexes_story list \<Rightarrow> (string \<rightharpoonup> nat)" where
  "recordingsPerCollectionId storyList =
     fold (\<lambda>s m. let id = js_or (s_collection_id s) [] in m(id \<mapsto> nullish (m id) 0 + 1)) storyList Map.empty"

text \<open>The memo \<open>filteredChaptersByStoryId\<close> (lines 103--116); here the synopsis test is
  only \<open>!= null\<close>.\<close>

definition filteredChaptersByStoryId ::
  "(string \<times> index_chapter list) list option \<Rightarrow> string \<Rightarrow> (string \<times> index_chapter list) list" where
  "filteredChaptersByStoryId chaptersByStoryId searchQuery =
     (case chaptersByStoryId of
        None \<Rightarrow> []
      | Some chs \<Rightarrow>
          (let q = norm_query searchQuery
           in if q = [] then chs
              else map (\<lambda>(storyId, chapters).
                     (storyId, filter (\<lambda>ch. sublist q (to_lower (ch_section_title ch)) \<or>
                                            (case ch_synopsis ch of None \<Rightarrow> False
                                             | Some syn \<Rightarrow> sublist q (to_lower syn))) chapters)) chs))"

definition handleCollectionToggle :: "string \<Rightarrow> string list \<Rightarrow> string list" where
  "handleCollectionToggle cid prev = (if cid \<in> set prev then filter (\<lambda>x. x \<noteq> cid) prev else prev @ [cid])"

text \<open>The memo \<open>filteredCollectionsForDropdown\<close> (lines 124--131).\<close>

definition filteredCollectionsForDropdown :: "(string \<times> string) list \<Rightarrow> string \<Rightarrow> (string \<times> string) list" where
  "filteredCollectionsForDropdown cols collectionFilterTerm =
     (let q = norm_query collectionFilterTerm
      in if q = [] then cols
         else filter (\<lambda>c. sublist q (to_lower (snd c)) \<or> sublist q (to_lower (fst c))) cols)"

subsection \<open>The pagination bar\<close>

text \<open>\<open>totalPages\<close>: one page past the current one when the store saw a next page.\<close>

definition totalPages :: "store \<Rightarrow> int" where
  "totalPages st = (if hasNextStoriesPage st then currentPage st + 1 else currentPage st)"

text \<open>\<open>handlePageChange\<close>: a new page (MUI pages count from \<open>1\<close>) sets the page and
  fetches its stories; \<open>PAGINATION_ITEMS_PER_PAGE\<close> (from \<open>src/app/constants\<close>, outside
  the sources) is the parameter \<open>itemsPerPage\<close>.\<close>

definition handlePageChange :: "api \<Rightarrow> nat \<Rightarrow> int \<Rightarrow> store \<Rightarrow> store" where
  "handlePageChange a itemsPerPage page st =
     (if page = currentPage st then st
      else getAllStories a itemsPerPage (nat (page - 1) * itemsPerPage) (st\<lparr>currentPage := page\<rparr>))"

subsection \<open>Narrowing the search\<close>

lemma chapter_matches_mono: "sublist q1 q2 \<Longrightarrow> chapter_matches q2 ch \<Longrightarrow> chapter_matches q1 ch"
  by (auto simp: chapter_matches_def split: option.splits intro: sublist_order.order_trans)

lemma subseq_filter_mono: "(\<And>x. P x \<Longrightarrow> Q x) \<Longrightarrow> subseq (filter P xs) (filter Q xs)"
  by (induction xs) auto

text \<open>
  Lengthening the search query (the old normalised query a substring of the new)
  only removes stories from the filtered list, keeping the order of the rest.
\<close>

theorem filterStories_narrowing:
  assumes "sublist (norm_query q1) (norm_query q2)"
  shows "subseq (filterStories storyList q2 sel chs) (filterStories storyList q1 sel chs)"
  unfolding filterStories_def Let_def
proof (rule subseq_filter_mono)
  fix story
  let ?q1 = "norm_query q1" and ?q2 = "norm_query q2"
  let ?chs = "nullish (map_of chs (s_uuid story)) []"
  assume p2: "if sel \<noteq> [] \<and> s_collection_id story \<notin> set sel then False
              else if ?q2 = [] then True
              else if sublist ?q2 (to_lower (s_interview_title story)) then True
              else list_ex (chapter_matches ?q2) ?chs"
  have q: "?q2 = [] \<Longrightarrow> ?q1 = []" using assms by simp
  have t: "sublist ?q2 (to_lower (s_interview_title story)) \<Longrightarrow> sublist ?q1 (to_lower (s_interview_title story))"
    using assms by (rule sublist_order.order_trans)
  have c: "list_ex (chapter_matches ?q2) ?chs \<Longrightarrow> list_ex (chapter_matches ?q1) ?chs"
    using chapter_matches_mono [OF assms] by (auto simp: list_ex_iff)
  from p2 q t c show "if sel \<noteq> [] \<and> s_collection_id story \<notin> set sel then False
              else if ?q1 = [] then True
              else if sublist ?q1 (to_lower (s_interview_title story)) then True
              else list_ex (chapter_matches ?q1) ?chs"
    by (auto split: if_splits)
qed

theorem filterStories_narrowing_witness:
  "filterStories [\<lparr>s_uuid = ''u1'', s_interview_title = ''War years'', s_collection_id = ''c'', s_collection_name = []\<rparr>,
                  \<lparr>s_uuid = ''u2'', s_interview_title = ''Warsaw'', s_collection_id = ''c'', s_collection_name = []\<rparr>]
     '' war y'' [] [] =
   [\<lparr>s_uuid = ''u1'', s_interview_title = ''War years'', s_collection_id = ''c'', s_collection_name = []\<rparr>] \<and>
   subseq (filterStories [\<lparr>s_uuid = ''u1'', s_interview_title = ''War years'', s_collection_id = ''c'', s_collection_name = []\<rparr>,
                  \<lparr>s_uuid = ''u2'', s_interview_title = ''Warsaw'', s_collection_id = ''c'', s_collection_name = []\<rparr>]
     '' war y'' [] [])
    (filterStories [\<lparr>s_uuid = ''u1'', s_interview_title = ''War years'', s_collection_id = ''c'', s_collection_name = []\<rparr>,
                  \<lparr>s_uuid = ''u2'', s_interview_title = ''Warsaw'', s_collection_id = ''c'', s_collection_name = []\<rparr>]
     ''War'' [] [])"
proof -
  have n: "norm_query '' war y'' = ''war y''" "norm_query ''War'' = ''war''" by code_simp+
  have s: "sublist (norm_query ''War'') (norm_query '' war y'')" unfolding n by code_simp
  have r: "filterStories [\<lparr>s_uuid = ''u1'', s_interview_title = ''War years'', s_collection_id = ''c'', s_collection_name = []\<rparr>,
                  \<lparr>s_uuid = ''u2'', s_interview_title = ''Warsaw'', s_collection_id = ''c'', s_collection_name = []\<rparr>]
     '' war y'' [] [] =
   [\<lparr>s_uuid = ''u1'', s_interview_title = ''War years'', s_collection_id = ''c'', s_collection_name = []\<rparr>]"
    by code_simp
  show ?thesis by (rule conjI [OF r filterStories_narrowing [OF s]])
qed

subsection \<open>The collection memos\<close>

text \<open>
  The collection list of the indexes page has each non-empty collection id once,
  in order of first appearance, named by the first story of that collection (its name,
  or its id when the name is empty).
\<close>

theorem indexCollections_spec:
  "indexCollections storyList =
     map (\<lambda>s. (s_collection_id s, js_or (s_collection_name s) (s_collection_id s)))
       (keep_first s_collection_id (filter (\<lambda>s. s_collection_id s \<noteq> []) storyList))"
proof -
  let ?f = "\<lambda>s seen. if s_collection_id s \<noteq> [] \<and> map_of seen (s_collection_id s) = None
                     then am_set (s_collection_id s) (js_or (s_collection_name s) (s_collection_id s)) seen
                     else seen"
  let ?R = "\<lambda>xs. map (\<lambda>s. (s_collection_id s, js_or (s_collection_name s) (s_collection_id s)))
                  (keep_first s_collection_id (filter (\<lambda>s. s_collection_id s \<noteq> []) xs))"
  have "fold ?f xs [] = ?R xs" for xs :: "indexes_story list"
  proof (induction xs rule: rev_induct)
    case (snoc x xs)
    let ?K = "keep_first s_collection_id (filter (\<lambda>s. s_collection_id s \<noteq> []) xs)"
    have keys: "s_collection_id ` set ?K = s_collection_id ` set (filter (\<lambda>s. s_collection_id s \<noteq> []) xs)"
      by (rule keys_keep_first)
    have "fst ` set (?R xs) = s_collection_id ` set ?K" by (simp add: image_image)
    then have look: "map_of (?R xs) (s_collection_id x) = None \<longleftrightarrow>
                s_collection_id x \<notin> s_collection_id ` set (filter (\<lambda>s. s_collection_id s \<noteq> []) xs)"
      by (simp only: map_of_eq_None_iff keys)
    show ?case
      using look by (auto simp: snoc.IH keep_first_snoc am_set_absent)
  qed simp
  then show ?thesis by (simp add: indexCollections_def)
qed

lemma js_or_Nil [simp]: "js_or a [] = a"
  by (simp add: js_or_def)

text \<open>
  The recording count the dropdown shows for a collection id is the number of
  stories with that id; an id no story has is absent.
\<close>

theorem recordingsPerCollectionId_count:
  "recordingsPerCollectionId storyList k =
     (let n = length (filter (\<lambda>s. s_collection_id s = k) storyList) in if n = 0 then None else Some n)"
proof -
  have "fold (\<lambda>s m. let id = js_or (s_collection_id s) [] in m(id \<mapsto> nullish (m id) 0 + 1)) xs Map.empty k =
          (let n = length (filter (\<lambda>s. s_collection_id s = k) xs) in if n = 0 then None else Some n)"
    for xs :: "indexes_story list"
    by (induction xs rule: rev_induct) (auto simp: Let_def split: option.splits)
  then show ?thesis by (simp add: recordingsPerCollectionId_def)
qed

subsection \<open>Changing page\<close>

text \<open>
  Against a datastore that pages through its corpus, moving the pagination bar to
  another page \<open>p\<close> stores that page, fetches the window of \<open>itemsPerPage\<close> stories at
  offset \<open>(p - 1) * itemsPerPage\<close> of the stories the selected collections admit, and
  shows \<open>p + 1\<close> pages exactly when stories remain after that window (else \<open>p\<close>).
\<close>

theorem handlePageChange_list_backend:
  assumes "0 < itemsPerPage" and "page \<noteq> currentPage st"
  shows "let st' = handlePageChange (server (list_backend c) fT de collate fc fs) itemsPerPage page st;
             F = buildCombinedFilters [] (selectedCollectionIds st);
             offset = nat (page - 1) * itemsPerPage
         in currentPage st' = page \<and> stories st' = Some (window c F itemsPerPage offset) \<and>
            totalPages st' = (if offset + itemsPerPage < length (filter (applies F) c) then page + 1 else page)"
proof -
  let ?st1 = "st\<lparr>currentPage := page\<rparr>"
  let ?off = "nat (page - 1) * itemsPerPage"
  have w: "let st' = getAllStories (server (list_backend c) fT de collate fc fs) itemsPerPage ?off ?st1;
             F = buildCombinedFilters [] (selectedCollectionIds ?st1)
         in stories st' = Some (window c F itemsPerPage ?off) \<and>
            hasNextStoriesPage st' = (?off + itemsPerPage < length (filter (applies F) c)) \<and>
            \<not> loading st'"
    using assms(1) by (rule getAllStories_window)
  then show ?thesis using assms(2) by (simp add: handlePageChange_def totalPages_def Let_def)
qed

theorem handlePageChange_list_backend_witness:
  "totalPages (handlePageChange (server (list_backend [hit ''a'' None None None, hit ''b'' None None None,
       hit ''c'' None None None]) (\<lambda>_. Inr []) (Inr []) length (\<lambda>_. Inr None) (\<lambda>_. Inr None)) 2 2 initial_store) = 2 \<and>
   stories (handlePageChange (server (list_backend [hit ''a'' None None None, hit ''b'' None None None,
       hit ''c'' None None None]) (\<lambda>_. Inr []) (Inr []) length (\<lambda>_. Inr None) (\<lambda>_. Inr None)) 2 2 initial_store) =
     Some [hit ''c'' None None None]"
  using handlePageChange_list_backend [of 2 2 initial_store
      "[hit ''a'' None None None, hit ''b'' None None None, hit ''c'' None None None]"
      "\<lambda>_. Inr []" "Inr []" length "\<lambda>_. Inr None" "\<lambda>_. Inr None"]
  by (simp add: Let_def initial_store_def buildCombinedFilters_def window_def)

end
