(* ===== verification/EntityGroups.thy ===== *)
theory EntityGroups
  imports Occurrences "HOL-Library.List_Lexorder" "HOL-Library.Multiset"
begin

text \<open>
  The entity list of the story page, \<open>StoryMetadataEntity.tsx\<close> (\<open>src/app/story/[storyUuid]/Components\<close>):
  the memo \<open>groupedEntities\<close> groups the NER data by label (lodash \<open>groupBy\<close>), collects
  the start times of each text in a \<open>Map\<close> (\<open>textMap\<close>), sorts and de-duplicates them with
  \<open>dedupe_close\<close> and sorts the items by \<open>localeCompare\<close> (a collation key \<open>collate\<close>);
  \<open>entityList\<close> flattens the groups to (text, label) pairs and \<open>entityListKey\<close> is the
  dependency key of the recording-count fetch. Label groups are an association list in
  insertion order, the order \<open>Object.entries\<close> gives for non-numeric keys. The
  lemmas prove the grouping equal to a \<open>keep_first\<close> reference, the per-item
  invariants, and that the fetch key depends only on the set of entity pairs.
\<close>

subsection \<open>The memo \<open>groupedEntities\<close>\<close>

text \<open>lodash \<open>groupBy(xs, key)\<close>: the groups in order of first occurrence of their key, each
  in input order (\<open>result[key].push(value)\<close>).\<close>

definition groupBy :: "('a \<Rightarrow> 'k) \<Rightarrow> 'a list \<Rightarrow> ('k \<times> 'a list) list" where
  "groupBy f xs = fold (\<lambda>x acc. am_set (f x) (nullish (map_of acc (f x)) [] @ [x]) acc) xs []"

text \<open>The loop building \<open>textMap\<close> (lines 95--104): the start times of each text, in input
  order; the \<open>count\<close> field it also stores is never read.\<close>

definition textMap :: "ner_item list \<Rightarrow> (string \<times> rat list) list" where
  "textMap entries =
     fold (\<lambda>e m. case map_of m (ni_text e) of
                   Some ts \<Rightarrow> am_set (ni_text e) (ts @ [ni_start e]) m
                 | None \<Rightarrow> am_set (ni_text e) [ni_start e] m) entries []"

text \<open>An item of a label group: its text, the number of distinct start times and the times.\<close>

record entity_item =
  eg_text :: string
  eg_count :: nat
  eg_start_times :: "rat list"

text \<open>The callback of \<open>Array.from(textMap.entries()).map\<close> (lines 106--116).\<close>

definition entity_of :: "string \<times> rat list \<Rightarrow> entity_item" where
  "entity_of p = (case p of (text, tms) \<Rightarrow>
     let sortedTimes = sort tms;
         uniqueTimes = dedupe_close (\<lambda>t. t) sortedTimes
     in \<lparr>eg_text = text, eg_count = length uniqueTimes, eg_start_times = uniqueTimes\<rparr>)"

text \<open>\<open>uniqueItems\<close> (lines 106--119), the stable \<open>sort\<close> by \<open>a.text.localeCompare(b.text)\<close>
  read as a collation key.\<close>

definition uniqueItems :: "(string \<Rightarrow> 'c::linorder) \<Rightarrow> ner_item list \<Rightarrow> entity_item list" where
  "uniqueItems collate entries = sort_key (\<lambda>it. collate (eg_text it)) (map entity_of (textMap entries))"

text \<open>\<open>groupedEntities\<close> (lines 90--124); \<open>ner_data\<close> absent is the empty list.\<close>

definition groupedEntities :: "(string \<Rightarrow> 'c::linorder) \<Rightarrow> ner_item list \<Rightarrow> (string \<times> entity_item list) list" where
  "groupedEntities collate ner_data =
     map (\<lambda>(label, entries). (label, uniqueItems collate entries)) (groupBy ni_label ner_data)"

text \<open>\<open>entityList\<close> (lines 126--132).\<close>

definition entityList :: "(string \<times> entity_item list) list \<Rightarrow> (string \<times> string) list" where
  "entityList grouped = concat (map (\<lambda>(label, items). map (\<lambda>it. (eg_text it, label)) items) grouped)"

text \<open>\<open>recordingCountKey\<close> (line 15).\<close>

definition recordingCountKey :: "string \<Rightarrow> string \<Rightarrow> string" where
  "recordingCountKey text label = to_lower text @ ''|'' @ label"

text \<open>\<open>entityListKey\<close> (lines 134--137): the count keys, sorted by code units, joined by commas.\<close>

definition entityListKey :: "(string \<times> string) list \<Rightarrow> string" where
  "entityListKey el = join '','' (sort (map (\<lambda>(text, label). recordingCountKey text label) el))"

text \<open>Witness inputs: NER items of one second each.\<close>

definition ner1 :: "string \<Rightarrow> string \<Rightarrow> rat \<Rightarrow> ner_item" where
  "ner1 text label t = \<lparr>ni_text = text, ni_label = label, ni_start = t, ni_end = t + 1\<rparr>"

definition example_ner :: "ner_item list" where
  "example_ner = [ner1 ''Paris'' ''LOC'' 3, ner1 ''Ann'' ''PER'' 2, ner1 ''Paris'' ''LOC'' 1,
                  ner1 ''Paris'' ''LOC'' (10005 / 10000), ner1 ''Fairfax'' ''LOC'' 7]"

subsection \<open>Grouping\<close>

lemma fold_am_append:
  "fold (\<lambda>x acc. am_set (f x) (nullish (map_of acc (f x)) [] @ [g x]) acc) xs [] =
     map (\<lambda>z. (f z, map g (filter (\<lambda>y. f y = f z) xs))) (keep_first f xs)"
proof (induction xs rule: rev_induct)
  case Nil
  then show ?case by simp
next
  case (snoc x xs)
  let ?ks = "keep_first f xs" and ?V = "\<lambda>xs z. map g (filter (\<lambda>y. f y = f z) xs)"
  let ?L = "map (\<lambda>z. (f z, ?V xs z)) ?ks"
  have d: "distinct (map f ?ks)" by (rule distinct_keep_first)
  have keys: "f ` set ?ks = f ` set xs" by (rule keys_keep_first)
  show ?case
  proof (cases "f x \<in> f ` set xs")
    case True
    then obtain z where z: "z \<in> set ?ks" "f z = f x" using keys by (metis imageE)
    have same: "z' = z" if "z' \<in> set ?ks" "f z' = f x" for z'
      using d that z by (metis distinct_map inj_on_def)
    have look: "map_of ?L (f x) = Some (?V xs z)" using map_of_map_keys [OF d z(1), of "?V xs"] z(2) by simp
    have "am_set (f x) (nullish (map_of ?L (f x)) [] @ [g x]) ?L =
            map (\<lambda>z'. (f z', if f z' = f x then ?V xs z @ [g x] else ?V xs z')) ?ks"
      using look True keys by (simp add: am_set_map_keys [OF d])
    also have "\<dots> = map (\<lambda>z'. (f z', ?V (xs @ [x]) z')) ?ks"
      using same by (intro map_cong refl) auto
    finally show ?thesis using True by (simp add: snoc.IH keep_first_snoc)
  next
    case False
    have none: "map_of ?L (f x) = None" using False keys by (auto simp: map_of_eq_None_iff)
    have old: "?V xs z = ?V (xs @ [x]) z" if "z \<in> set ?ks" for z
    proof -
      have "f z \<noteq> f x" using that False set_keep_first by (metis image_eqI subsetD)
      then show ?thesis by simp
    qed
    have new: "?V (xs @ [x]) x = [g x]" using False by (auto simp: filter_empty_conv image_iff)
    have "am_set (f x) (nullish (map_of ?L (f x)) [] @ [g x]) ?L = ?L @ [(f x, [g x])]"
      using none by (simp add: am_set_absent)
    also have "\<dots> = map (\<lambda>z. (f z, ?V (xs @ [x]) z)) (?ks @ [x])"
      using old new by simp
    finally show ?thesis using False by (simp add: snoc.IH keep_first_snoc)
  qed
qed

lemma groupBy_spec: "groupBy f xs = map (\<lambda>z. (f z, filter (\<lambda>y. f y = f z) xs)) (keep_first f xs)"
  using fold_am_append [of f "\<lambda>x. x" xs] by (simp add: groupBy_def)

lemma textMap_spec:
  "textMap entries = map (\<lambda>z. (ni_text z, map ni_start (filter (\<lambda>y. ni_text y = ni_text z) entries)))
                       (keep_first ni_text entries)"
proof -
  have "textMap entries = fold (\<lambda>x acc. am_set (ni_text x) (nullish (map_of acc (ni_text x)) [] @ [ni_start x]) acc) entries []"
    unfolding textMap_def by (intro fold_cong refl ext) (simp split: option.split)
  then show ?thesis by (simp add: fold_am_append)
qed

lemma eg_text_entity_of [simp]: "eg_text (entity_of (text, tms)) = text"
  by (simp add: entity_of_def Let_def)

lemma entity_of_times:
  assumes "tms \<noteq> []"
  shows "eg_text (entity_of (text, tms)) = text \<and>
         eg_count (entity_of (text, tms)) = length (eg_start_times (entity_of (text, tms))) \<and>
         sorted_wrt (\<lambda>a b. a + DUPLICATE_TIME_EPSILON < b) (eg_start_times (entity_of (text, tms))) \<and>
         set (eg_start_times (entity_of (text, tms))) \<subseteq> set tms \<and>
         eg_start_times (entity_of (text, tms)) \<noteq> [] \<and>
         hd (eg_start_times (entity_of (text, tms))) = Min (set tms)"
proof -
  let ?S = "sort tms"
  let ?U = "dedupe_close (\<lambda>t. t) ?S"
  have e: "eg_start_times (entity_of (text, tms)) = ?U" "eg_text (entity_of (text, tms)) = text"
          "eg_count (entity_of (text, tms)) = length ?U"
    by (simp_all add: entity_of_def Let_def)
  have sp: "sorted_wrt (\<lambda>a b. a + DUPLICATE_TIME_EPSILON < b) ?U"
    using dedupe_close_spaced [of "\<lambda>t. t" ?S] by simp
  have sub: "set ?U \<subseteq> set tms" using subseq_set [OF subseq_dedupe_close, of "\<lambda>t. t" ?S] by simp
  have "?S \<noteq> []" using assms by (metis length_0_conv length_sort)
  then obtain x xs where S: "?S = x # xs" by (cases ?S) auto
  have hd: "?U \<noteq> [] \<and> hd ?U = x" unfolding S by (rule dedupe_close_Cons_hd)
  have "x = Min (set tms)"
  proof (rule Min_eqI [symmetric])
    show "x \<in> set tms" using S by (metis list.set_intros(1) set_sort)
    fix y assume "y \<in> set tms"
    then have "y \<in> set (x # xs)" using S by (metis set_sort)
    then show "x \<le> y" using sorted_sort [of tms] S by auto
  qed simp
  then show ?thesis using e sp sub hd by simp
qed

lemma uniqueItems_spec:
  "distinct (map eg_text (uniqueItems collate es)) \<and>
   set (map eg_text (uniqueItems collate es)) = ni_text ` set es \<and>
   sorted (map (\<lambda>it. collate (eg_text it)) (uniqueItems collate es)) \<and>
   (\<forall>it \<in> set (uniqueItems collate es).
      eg_count it = length (eg_start_times it) \<and>
      sorted_wrt (\<lambda>a b. a + DUPLICATE_TIME_EPSILON < b) (eg_start_times it) \<and>
      eg_start_times it \<noteq> [] \<and>
      set (eg_start_times it) \<subseteq> ni_start ` {e \<in> set es. ni_text e = eg_text it} \<and>
      hd (eg_start_times it) = Min (ni_start ` {e \<in> set es. ni_text e = eg_text it}))"
proof -
  let ?T = "\<lambda>z. map ni_start (filter (\<lambda>y. ni_text y = ni_text z) es)"
  let ?K = "keep_first ni_text es"
  let ?I = "map (\<lambda>z. entity_of (ni_text z, ?T z)) ?K"
  have I: "uniqueItems collate es = sort_key (\<lambda>it. collate (eg_text it)) ?I"
    by (simp add: uniqueItems_def textMap_spec comp_def)
  have ne: "?T z \<noteq> []" if "z \<in> set es" for z using that by (auto simp: filter_empty_conv)
  have setT: "set (?T z) = ni_start ` {e \<in> set es. ni_text e = ni_text z}" for z by auto
  have tx: "map eg_text ?I = map ni_text ?K"
    by simp
  have "distinct (map eg_text (uniqueItems collate es))"
    unfolding I distinct_map_sort_key tx by (rule distinct_keep_first)
  moreover have "set (map eg_text (uniqueItems collate es)) = ni_text ` set es"
    unfolding I by (simp add: image_image keys_keep_first)
  moreover have "sorted (map (\<lambda>it. collate (eg_text it)) (uniqueItems collate es))"
    unfolding I by (rule sorted_sort_key)
  moreover have "\<forall>it \<in> set (uniqueItems collate es).
      eg_count it = length (eg_start_times it) \<and>
      sorted_wrt (\<lambda>a b. a + DUPLICATE_TIME_EPSILON < b) (eg_start_times it) \<and>
      eg_start_times it \<noteq> [] \<and>
      set (eg_start_times it) \<subseteq> ni_start ` {e \<in> set es. ni_text e = eg_text it} \<and>
      hd (eg_start_times it) = Min (ni_start ` {e \<in> set es. ni_text e = eg_text it})"
  proof
    fix it assume "it \<in> set (uniqueItems collate es)"
    then have "it \<in> set ?I" unfolding I by simp
    then obtain z where "z \<in> set ?K" and z2: "it = entity_of (ni_text z, ?T z)" by auto
    have z: "z \<in> set es" "it = entity_of (ni_text z, ?T z)"
      using \<open>z \<in> set ?K\<close> set_keep_first [of ni_text es] z2 by blast+
    show "eg_count it = length (eg_start_times it) \<and>
      sorted_wrt (\<lambda>a b. a + DUPLICATE_TIME_EPSILON < b) (eg_start_times it) \<and>
      eg_start_times it \<noteq> [] \<and>
      set (eg_start_times it) \<subseteq> ni_start ` {e \<in> set es. ni_text e = eg_text it} \<and>
      hd (eg_start_times it) = Min (ni_start ` {e \<in> set es. ni_text e = eg_text it})"
      using entity_of_times [OF ne [OF z(1)], of "ni_text z"]
      unfolding z(2) eg_text_entity_of setT [symmetric] by blast
  qed
  ultimately show ?thesis by (intro conjI)
qed

lemma distinct_concat_tagged:
  assumes "distinct (map g K)" and "\<forall>z \<in> set K. distinct (f z) \<and> (\<forall>p \<in> set (f z). snd p = g z)"
  shows "distinct (concat (map f K))"
  using assms by (induction K) fastforce+

lemma groupedEntities_groupBy:
  "groupedEntities collate nd =
     map (\<lambda>z. (ni_label z, uniqueItems collate (filter (\<lambda>y. ni_label y = ni_label z) nd)))
       (keep_first ni_label nd)"
  by (simp add: groupedEntities_def groupBy_spec)

lemma filter_set_conj: "{e \<in> set (filter P xs). Q e} = {e \<in> set xs. P e \<and> Q e}"
  by auto

text \<open>
  C19: \<open>groupedEntities\<close> has one group per label, in order of first occurrence; each
  group lists every text of that label once, sorted by the collation; each item counts
  its start times, which are drawn from the entities of that text and label, begin with
  the earliest, and lie more than \<open>DUPLICATE_TIME_EPSILON\<close> apart.
\<close>

theorem groupedEntities_spec:
  "map fst (groupedEntities collate nd) = map ni_label (keep_first ni_label nd) \<and>
   (\<forall>(label, items) \<in> set (groupedEntities collate nd).
      distinct (map eg_text items) \<and>
      set (map eg_text items) = ni_text ` {e \<in> set nd. ni_label e = label} \<and>
      sorted (map (\<lambda>it. collate (eg_text it)) items) \<and>
      (\<forall>it \<in> set items.
         eg_count it = length (eg_start_times it) \<and>
         sorted_wrt (\<lambda>a b. a + DUPLICATE_TIME_EPSILON < b) (eg_start_times it) \<and>
         eg_start_times it \<noteq> [] \<and>
         set (eg_start_times it) \<subseteq> ni_start ` {e \<in> set nd. ni_label e = label \<and> ni_text e = eg_text it} \<and>
         hd (eg_start_times it) = Min (ni_start ` {e \<in> set nd. ni_label e = label \<and> ni_text e = eg_text it})))"
proof -
  have "\<forall>(label, items) \<in> set (groupedEntities collate nd).
      distinct (map eg_text items) \<and>
      set (map eg_text items) = ni_text ` {e \<in> set nd. ni_label e = label} \<and>
      sorted (map (\<lambda>it. collate (eg_text it)) items) \<and>
      (\<forall>it \<in> set items.
         eg_count it = length (eg_start_times it) \<and>
         sorted_wrt (\<lambda>a b. a + DUPLICATE_TIME_EPSILON < b) (eg_start_times it) \<and>
         eg_start_times it \<noteq> [] \<and>
         set (eg_start_times it) \<subseteq> ni_start ` {e \<in> set nd. ni_label e = label \<and> ni_text e = eg_text it} \<and>
         hd (eg_start_times it) = Min (ni_start ` {e \<in> set nd. ni_label e = label \<and> ni_text e = eg_text it}))"
  proof (clarify)
    fix label items assume "(label, items) \<in> set (groupedEntities collate nd)"
    then have items: "items = uniqueItems collate (filter (\<lambda>y. ni_label y = label) nd)"
      unfolding groupedEntities_groupBy by auto
    show "distinct (map eg_text items) \<and>
      set (map eg_text items) = ni_text ` {e \<in> set nd. ni_label e = label} \<and>
      sorted (map (\<lambda>it. collate (eg_text it)) items) \<and>
      (\<forall>it \<in> set items.
         eg_count it = length (eg_start_times it) \<and>
         sorted_wrt (\<lambda>a b. a + DUPLICATE_TIME_EPSILON < b) (eg_start_times it) \<and>
         eg_start_times it \<noteq> [] \<and>
         set (eg_start_times it) \<subseteq> ni_start ` {e \<in> set nd. ni_label e = label \<and> ni_text e = eg_text it} \<and>
         hd (eg_start_times it) = Min (ni_start ` {e \<in> set nd. ni_label e = label \<and> ni_text e = eg_text it}))"
      using uniqueItems_spec [of collate "filter (\<lambda>y. ni_label y = label) nd"]
      unfolding items filter_set_conj set_filter [symmetric] by simp
  qed
  moreover have "map fst (groupedEntities collate nd) = map ni_label (keep_first ni_label nd)"
    by (simp add: groupedEntities_groupBy)
  ultimately show ?thesis by (rule conjI [rotated])
qed

text \<open>\<open>entityList\<close> of the grouped entities lists each (text, label) pair of the NER data
  exactly once.\<close>

lemma entityList_pairs:
  "distinct (entityList (groupedEntities collate nd)) \<and>
   set (entityList (groupedEntities collate nd)) = (\<lambda>e. (ni_text e, ni_label e)) ` set nd"
proof -
  let ?U = "\<lambda>z. uniqueItems collate (filter (\<lambda>y. ni_label y = ni_label z) nd)"
  let ?f = "\<lambda>z. map (\<lambda>it. (eg_text it, ni_label z)) (?U z)"
  let ?K = "keep_first ni_label nd"
  have el: "entityList (groupedEntities collate nd) = concat (map ?f ?K)"
    by (simp add: entityList_def groupedEntities_groupBy comp_def)
  have U: "distinct (map eg_text (?U z)) \<and>
           set (map eg_text (?U z)) = ni_text ` {e \<in> set nd. ni_label e = ni_label z}" for z
    using uniqueItems_spec [of collate "filter (\<lambda>y. ni_label y = ni_label z) nd"] by simp
  have "distinct (concat (map ?f ?K))"
  proof (rule distinct_concat_tagged [of ni_label])
    show "distinct (map ni_label ?K)" by (rule distinct_keep_first)
    show "\<forall>z \<in> set ?K. distinct (?f z) \<and> (\<forall>p \<in> set (?f z). snd p = ni_label z)"
      using U by (auto simp: distinct_map inj_on_def)
  qed
  moreover have "set (concat (map ?f ?K)) = (\<lambda>e. (ni_text e, ni_label e)) ` set nd"
  proof -
    have F: "set (?f z) = (\<lambda>e. (ni_text e, ni_label e)) ` {e \<in> set nd. ni_label e = ni_label z}" for z
    proof -
      have "set (?f z) = (\<lambda>t. (t, ni_label z)) ` set (map eg_text (?U z))" by auto
      then show ?thesis unfolding U [THEN conjunct2] by auto
    qed
    have "set (concat (map ?f ?K)) = (\<Union>z \<in> set ?K. set (?f z))" by simp
    also have "\<dots> =
        (\<Union>z \<in> set ?K. (\<lambda>e. (ni_text e, ni_label e)) ` {e \<in> set nd. ni_label e = ni_label z})"
      by (rule SUP_cong [OF refl F])
    also have "\<dots> = (\<lambda>e. (ni_text e, ni_label e)) ` set nd"
      using keys_keep_first [of ni_label nd] by (auto simp: image_iff)
    finally show ?thesis .
  qed
  ultimately show ?thesis unfolding el by (rule conjI)
qed

lemma entityListKey_mset: "mset el = mset el' \<Longrightarrow> entityListKey el = entityListKey el'"
proof -
  assume m: "mset el = mset el'"
  let ?k = "\<lambda>(text, label). recordingCountKey text label"
  have "mset (sort (map ?k el')) = mset (map ?k el)" using m by (simp add: mset_map)
  then have "sort (map ?k el) = sort (map ?k el')" by (rule properties_for_sort) simp
  then show ?thesis by (simp add: entityListKey_def)
qed

text \<open>
  The key that triggers the recording-count fetch depends only on the set of
  (text, label) pairs of the NER data: not on their order, their repetitions, their start
  times, or the collation used to sort the items.
\<close>

theorem entityListKey_stable:
  assumes "(\<lambda>e. (ni_text e, ni_label e)) ` set nd1 = (\<lambda>e. (ni_text e, ni_label e)) ` set nd2"
  shows "entityListKey (entityList (groupedEntities c1 nd1)) = entityListKey (entityList (groupedEntities c2 nd2))"
proof (rule entityListKey_mset)
  show "mset (entityList (groupedEntities c1 nd1)) = mset (entityList (groupedEntities c2 nd2))"
    using entityList_pairs [of c1 nd1] entityList_pairs [of c2 nd2] assms
    by (metis set_eq_iff_mset_eq_distinct)
qed

theorem entityListKey_stable_witness:
  "(\<lambda>e. (ni_text e, ni_label e)) ` set [ner1 ''Paris'' ''LOC'' 1, ner1 ''Ann'' ''PER'' 2] =
     (\<lambda>e. (ni_text e, ni_label e)) ` set [ner1 ''Ann'' ''PER'' 5, ner1 ''Paris'' ''LOC'' 3, ner1 ''Paris'' ''LOC'' 9] \<and>
   entityListKey (entityList (groupedEntities (\<lambda>s. s) [ner1 ''Paris'' ''LOC'' 1, ner1 ''Ann'' ''PER'' 2])) =
     entityListKey (entityList (groupedEntities rev
       [ner1 ''Ann'' ''PER'' 5, ner1 ''Paris'' ''LOC'' 3, ner1 ''Paris'' ''LOC'' 9]))"
proof -
  have h: "(\<lambda>e. (ni_text e, ni_label e)) ` set [ner1 ''Paris'' ''LOC'' 1, ner1 ''Ann'' ''PER'' 2] =
     (\<lambda>e. (ni_text e, ni_label e)) ` set [ner1 ''Ann'' ''PER'' 5, ner1 ''Paris'' ''LOC'' 3, ner1 ''Paris'' ''LOC'' 9]"
    by (auto simp: ner1_def)
  show ?thesis using h entityListKey_stable [OF h] by (rule conjI)
qed

theorem groupedEntities_spec_witness:
  "groupedEntities (\<lambda>s. s) example_ner =
     [(''LOC'', [\<lparr>eg_text = ''Fairfax'', eg_count = 1, eg_start_times = [7]\<rparr>,
                 \<lparr>eg_text = ''Paris'', eg_count = 2, eg_start_times = [1, 3]\<rparr>]),
      (''PER'', [\<lparr>eg_text = ''Ann'', eg_count = 1, eg_start_times = [2]\<rparr>])] \<and>
   map fst (groupedEntities (\<lambda>s. s) example_ner) = map ni_label (keep_first ni_label example_ner) \<and>
   sorted_wrt (\<lambda>a b. a + DUPLICATE_TIME_EPSILON < b) [1, 3::rat] \<and>
   set [1, 3::rat] \<subseteq> ni_start ` {e \<in> set example_ner. ni_label e = ''LOC'' \<and> ni_text e = ''Paris''} \<and>
   Min (ni_start ` {e \<in> set example_ner. ni_label e = ''LOC'' \<and> ni_text e = ''Paris''}) = 1"
proof -
  let ?P = "\<lparr>eg_text = ''Paris'', eg_count = 2, eg_start_times = [1, 3::rat]\<rparr>"
  let ?LOC = "[\<lparr>eg_text = ''Fairfax'', eg_count = 1, eg_start_times = [7::rat]\<rparr>, ?P]"
  have v: "groupedEntities (\<lambda>s. s) example_ner =
     [(''LOC'', ?LOC), (''PER'', [\<lparr>eg_text = ''Ann'', eg_count = 1, eg_start_times = [2]\<rparr>])]"
    by code_simp
  note spec = groupedEntities_spec [of "\<lambda>s. s" example_ner]
  have mem: "(''LOC'', ?LOC) \<in> set (groupedEntities (\<lambda>s. s) example_ner)" unfolding v by simp
  have "\<forall>it \<in> set ?LOC. eg_count it = length (eg_start_times it) \<and>
         sorted_wrt (\<lambda>a b. a + DUPLICATE_TIME_EPSILON < b) (eg_start_times it) \<and>
         eg_start_times it \<noteq> [] \<and>
         set (eg_start_times it) \<subseteq> ni_start ` {e \<in> set example_ner. ni_label e = ''LOC'' \<and> ni_text e = eg_text it} \<and>
         hd (eg_start_times it) = Min (ni_start ` {e \<in> set example_ner. ni_label e = ''LOC'' \<and> ni_text e = eg_text it})"
    using spec mem by fastforce
  then have p: "sorted_wrt (\<lambda>a b. a + DUPLICATE_TIME_EPSILON < b) [1, 3::rat] \<and>
      set [1, 3::rat] \<subseteq> ni_start ` {e \<in> set example_ner. ni_label e = ''LOC'' \<and> ni_text e = ''Paris''} \<and>
      Min (ni_start ` {e \<in> set example_ner. ni_label e = ''LOC'' \<and> ni_text e = ''Paris''}) = 1"
    using bspec [OF _ list.set_intros(2) [OF list.set_intros(1)], of _ ?P] by simp
  have m: "map fst (groupedEntities (\<lambda>s. s) example_ner) = map ni_label (keep_first ni_label example_ner)"
    by (rule spec [THEN conjunct1])
  show ?thesis using v m p by blast
qed

end
