(* ===== verification/ProgressBar.thy ===== *)
theory ProgressBar
  imports Occurrences
begin

text \<open>
  The progress bar of the story page, \<open>StoryProgressBar.tsx\<close>
  (\<open>src/app/story/[storyUuid]/Components\<close>). Its inputs come from three stores: the
  player (\<open>currentTime\<close>, \<open>duration\<close>), the search store (the transcript's sections, the
  story's NER data, \<open>selected_ner_labels\<close>) and the rendered bar (its width, the pointer's
  offset from its left edge). From them it derives the chapter and NER markers as
  percentages of the duration; its own state is the hover triple \<open>hoveredTime\<close>,
  \<open>hoveredNer\<close>, \<open>hoveredChapter\<close>, changed by the pointer events of the bar and of the
  markers, and a click seeks the player. The NER data are the well-formed items
  \<open>ner_item\<close>; an absent \<open>ner_data\<close> is the empty list. Widths are positive: a bar that
  receives pointer events is rendered, and the theorems that compute a position assume it.
\<close>

record section_head =
  sec_start :: rat
  sec_title :: string

text \<open>\<open>ChapterMarker\<close> and \<open>NerMarker\<close> (lines 13--27).\<close>

record chapter_marker =
  chm_time :: rat
  chm_title :: string
  chm_percentage :: rat

record ner_marker =
  nm_startTime :: rat
  nm_endTime :: rat
  nm_label :: string
  nm_text :: string
  nm_color :: string
  nm_startPercentage :: rat
  nm_endPercentage :: rat

text \<open>What the component reads: the player's duration, whether the transcript is loaded,
  its sections, the NER data, the selected labels, the colour of each label
  (\<open>getNerColor\<close> of the organisation config) and the width of the rendered bar.\<close>

record bar_env =
  pb_duration :: rat
  pb_transcript :: bool
  pb_sections :: "section_head list"
  pb_ner_data :: "ner_item list"
  pb_selected :: "string list"
  pb_color :: "string \<Rightarrow> string"
  pb_width :: rat

text \<open>The component's \<open>useState\<close> hooks (lines 33--35).\<close>

record bar_state =
  hoveredTime :: "rat option"
  hoveredNer :: "ner_marker option"
  hoveredChapter :: "chapter_marker option"

definition initial_bar :: bar_state where
  "initial_bar = \<lparr>hoveredTime = None, hoveredNer = None, hoveredChapter = None\<rparr>"

text \<open>\<open>isLoadingProgressBar\<close> (line 37) and \<open>progressPercentage\<close> (line 41).\<close>

definition isLoadingProgressBar :: "bar_env \<Rightarrow> bool" where
  "isLoadingProgressBar env = (pb_duration env = 0 \<or> \<not> pb_transcript env)"

definition progressPercentage :: "rat \<Rightarrow> rat \<Rightarrow> rat" where
  "progressPercentage currentTime duration = (if 0 < duration then currentTime / duration * 100 else 0)"

text \<open>\<open>chapterMarkers\<close> (lines 44--51).\<close>

definition chapterMarkers :: "bar_env \<Rightarrow> chapter_marker list" where
  "chapterMarkers env =
     map (\<lambda>section. \<lparr>chm_time = sec_start section, chm_title = sec_title section,
                     chm_percentage = (if 0 < pb_duration env then sec_start section / pb_duration env * 100 else 0)\<rparr>)
       (pb_sections env)"

text \<open>The callback of \<open>nerMarkers\<close>' \<open>map\<close> (lines 61--69).\<close>

definition ner_marker_of :: "bar_env \<Rightarrow> ner_item \<Rightarrow> ner_marker" where
  "ner_marker_of env ner =
     \<lparr>nm_startTime = ni_start ner, nm_endTime = ni_end ner, nm_label = ni_label ner,
      nm_text = js_or (ni_text ner) '''', nm_color = pb_color env (ni_label ner),
      nm_startPercentage = (if 0 < pb_duration env then ni_start ner / pb_duration env * 100 else 0),
      nm_endPercentage = (if 0 < pb_duration env then ni_end ner / pb_duration env * 100 else 0)\<rparr>"

text \<open>\<open>nerMarkers\<close> (lines 54--70).\<close>

definition nerMarkers :: "bar_env \<Rightarrow> ner_marker list" where
  "nerMarkers env =
     (if pb_ner_data env = [] \<or> pb_selected env = [] then []
      else map (ner_marker_of env) (filter (\<lambda>ner. ni_label ner \<in> set (pb_selected env)) (pb_ner_data env)))"

text \<open>\<open>Math.max(0, Math.min(t, duration))\<close>.\<close>

definition clamp_time :: "rat \<Rightarrow> rat \<Rightarrow> rat" where
  "clamp_time duration t = max 0 (min t duration)"

text \<open>\<open>handleProgressBarClick\<close> (lines 73--84), with the pointer at \<open>clickX\<close> from the bar's
  left edge: the time passed to both \<open>setTargetScrollTime\<close> and \<open>seekTo\<close>, or \<open>None\<close> on an
  early return.\<close>

definition handleProgressBarClick :: "bar_env \<Rightarrow> rat \<Rightarrow> rat option" where
  "handleProgressBarClick env clickX =
     (if isLoadingProgressBar env then None
      else if pb_duration env = 0 then None
      else let percentage = clickX / pb_width env * 100;
               newTime = percentage / 100 * pb_duration env
           in Some (clamp_time (pb_duration env) newTime))"

text \<open>\<open>handleMouseMove\<close> (lines 87--118). The guards \<open>!hoveredNer\<close> and \<open>!hoveredChapter\<close>
  read the state of the render that installed the handler, \<open>st\<close>, not the batched updates;
  each loop with its \<open>break\<close> is \<open>find\<close>.\<close>

definition handleMouseMove :: "bar_env \<Rightarrow> rat \<Rightarrow> bar_state \<Rightarrow> bar_state" where
  "handleMouseMove env hoverX st =
     (if isLoadingProgressBar env then st
      else if pb_duration env = 0 then st
      else let percentage = hoverX / pb_width env * 100;
               hoverTime = percentage / 100 * pb_duration env;
               st1 = st\<lparr>hoveredTime := Some (clamp_time (pb_duration env) hoverTime)\<rparr>;
               st2 = (if hoveredNer st = None
                      then st1\<lparr>hoveredNer := find (\<lambda>ner. nm_startPercentage ner \<le> percentage \<and>
                                                      percentage \<le> nm_endPercentage ner) (nerMarkers env)\<rparr>
                      else st1)
           in if hoveredChapter st = None
              then st2\<lparr>hoveredChapter := find (\<lambda>chapter. \<bar>percentage - chm_percentage chapter\<bar> < 1)
                                            (chapterMarkers env)\<rparr>
              else st2)"

text \<open>\<open>handleMouseLeave\<close> (lines 120--124).\<close>

definition handleMouseLeave :: "bar_state \<Rightarrow> bar_state" where
  "handleMouseLeave st = st\<lparr>hoveredTime := None, hoveredNer := None, hoveredChapter := None\<rparr>"

text \<open>The pointer events of the bar and of the rendered markers (lines 189--191, 235--240,
  264--269). A marker is addressed by its index in the rendered list; an index with no
  marker has no element, so its event does nothing.\<close>

datatype bar_event =
    BarClick rat
  | BarMouseMove rat
  | BarMouseLeave
  | ChapterClick nat
  | ChapterEnter nat
  | ChapterLeave
  | NerClick nat
  | NerEnter nat
  | NerLeave

text \<open>The handler an event runs: the new hover state and the time passed to \<open>seekTo\<close>, if
  any. A marker's click stops propagation, so the bar's own click handler does not run.\<close>

fun bar_dispatch :: "bar_env \<Rightarrow> bar_event \<Rightarrow> bar_state \<Rightarrow> bar_state \<times> rat option" where
  "bar_dispatch env (BarClick x) st = (st, handleProgressBarClick env x)"
| "bar_dispatch env (BarMouseMove x) st = (handleMouseMove env x st, None)"
| "bar_dispatch env BarMouseLeave st = (handleMouseLeave st, None)"
| "bar_dispatch env (ChapterClick i) st =
     (st, if i < length (chapterMarkers env) then Some (chm_time (chapterMarkers env ! i)) else None)"
| "bar_dispatch env (ChapterEnter i) st =
     (if i < length (chapterMarkers env) then st\<lparr>hoveredChapter := Some (chapterMarkers env ! i)\<rparr> else st, None)"
| "bar_dispatch env ChapterLeave st = (st\<lparr>hoveredChapter := None\<rparr>, None)"
| "bar_dispatch env (NerClick i) st =
     (st, if i < length (nerMarkers env) then Some (nm_startTime (nerMarkers env ! i)) else None)"
| "bar_dispatch env (NerEnter i) st =
     (if i < length (nerMarkers env) then st\<lparr>hoveredNer := Some (nerMarkers env ! i)\<rparr> else st, None)"
| "bar_dispatch env NerLeave st = (st\<lparr>hoveredNer := None\<rparr>, None)"

text \<open>While the bar is loading it has \<open>pointerEvents: 'none'\<close> (line 201), which its
  markers inherit: no handler runs.\<close>

definition bar_step :: "bar_env \<Rightarrow> bar_event \<Rightarrow> bar_state \<Rightarrow> bar_state \<times> rat option" where
  "bar_step env ev st = (if isLoadingProgressBar env then (st, None) else bar_dispatch env ev st)"

inductive bar_reachable :: "bar_env \<Rightarrow> bar_state \<Rightarrow> bool" for env :: bar_env where
  bar_init: "bar_reachable env initial_bar"
| bar_next: "bar_reachable env st \<Longrightarrow> bar_reachable env (fst (bar_step env ev st))"

definition run_bar :: "bar_env \<Rightarrow> bar_event list \<Rightarrow> bar_state" where
  "run_bar env evs = fold (\<lambda>ev st. fst (bar_step env ev st)) evs initial_bar"

text \<open>The hover state shows a time of the recording and markers that are rendered.\<close>

definition bar_inv :: "bar_env \<Rightarrow> bar_state \<Rightarrow> bool" where
  "bar_inv env st =
     (case_option True (\<lambda>t. 0 \<le> t \<and> t \<le> pb_duration env) (hoveredTime st) \<and>
      case_option True (\<lambda>n. n \<in> set (nerMarkers env)) (hoveredNer st) \<and>
      case_option True (\<lambda>c. c \<in> set (chapterMarkers env)) (hoveredChapter st))"

text \<open>Witness input: a loaded recording of 200 seconds with two sections and two entities.\<close>

definition example_bar :: bar_env where
  "example_bar = \<lparr>pb_duration = 200, pb_transcript = True,
     pb_sections = [\<lparr>sec_start = 0, sec_title = ''Intro''\<rparr>, \<lparr>sec_start = 100, sec_title = ''War''\<rparr>],
     pb_ner_data = [\<lparr>ni_text = ''Paris'', ni_label = ''LOC'', ni_start = 40, ni_end = 44\<rparr>,
                    \<lparr>ni_text = ''Ann'', ni_label = ''PER'', ni_start = 50, ni_end = 60\<rparr>],
     pb_selected = [''PER''], pb_color = (\<lambda>l. ''#000''), pb_width = 1000\<rparr>"

subsection \<open>Seeking and hovering stay within the recording\<close>

lemma clamp_time_bounds [simp]:
  "0 \<le> d \<Longrightarrow> 0 \<le> clamp_time d t \<and> clamp_time d t \<le> d"
  by (auto simp: clamp_time_def)

lemma clamp_time_id: "0 \<le> t \<Longrightarrow> t \<le> d \<Longrightarrow> clamp_time d t = t"
  by (simp add: clamp_time_def)

lemma find_in_set: "find P xs = Some x \<Longrightarrow> x \<in> set xs"
  by (auto simp: find_Some_iff)

lemma bar_inv_step:
  assumes "0 \<le> pb_duration env" and "bar_inv env st"
  shows "bar_inv env (fst (bar_step env ev st))"
proof (cases "isLoadingProgressBar env")
  case False
  have move: "bar_inv env (handleMouseMove env x st)" for x
    using assms by (auto simp: handleMouseMove_def Let_def bar_inv_def dest: find_in_set
                         split: option.split)
  show ?thesis
    using False assms move
    by (cases ev) (auto simp: bar_step_def bar_inv_def handleMouseLeave_def split: option.split)
qed (simp add: bar_step_def assms)

lemma bar_reachable_run: "bar_reachable env (run_bar env evs)"
proof -
  have "bar_reachable env (fold (\<lambda>ev st. fst (bar_step env ev st)) evs st)" if "bar_reachable env st" for st
    using that by (induction evs arbitrary: st) (auto intro: bar_next)
  then show ?thesis unfolding run_bar_def by (simp add: bar_init)
qed

text \<open>
  C21: in every state the bar reaches, a shown hover time lies within the recording and a
  highlighted NER or chapter marker is one of the rendered markers.
\<close>

theorem bar_reachable_inv:
  assumes "bar_reachable env st" and "0 \<le> pb_duration env"
  shows "bar_inv env st"
  using assms(1)
proof induction
  case bar_init
  then show ?case by (simp add: bar_inv_def initial_bar_def)
next
  case (bar_next st ev)
  then show ?case using bar_inv_step [OF assms(2)] by blast
qed

definition example_bar_events :: "bar_event list" where
  "example_bar_events = [BarMouseMove 260, ChapterEnter 1, BarClick 500, NerLeave, BarMouseMove 700]"

theorem bar_reachable_inv_witness:
  "bar_reachable example_bar (run_bar example_bar example_bar_events) \<and> 0 \<le> pb_duration example_bar \<and>
   bar_inv example_bar (run_bar example_bar example_bar_events) \<and>
   hoveredTime (run_bar example_bar example_bar_events) = Some 140"
proof -
  have r: "bar_reachable example_bar (run_bar example_bar example_bar_events)" by (rule bar_reachable_run)
  have d: "0 \<le> pb_duration example_bar" by (simp add: example_bar_def)
  have "hoveredTime (run_bar example_bar example_bar_events) = Some 140"
    by (simp add: run_bar_def example_bar_events_def bar_step_def initial_bar_def handleMouseMove_def
                  handleProgressBarClick_def isLoadingProgressBar_def example_bar_def clamp_time_def Let_def)
  then show ?thesis using r d bar_reachable_inv [OF r d] by blast
qed

text \<open>
  C20: a click on a rendered bar seeks unless the bar is loading; the target lies within
  the recording, is the time proportional to the click's position when the click is on
  the bar, and is clamped to the start or the end when it falls left or right of it.
\<close>

theorem handleProgressBarClick_spec:
  assumes w: "0 < pb_width env" and d: "0 \<le> pb_duration env"
  shows "(handleProgressBarClick env x = None \<longleftrightarrow> isLoadingProgressBar env) \<and>
         (\<forall>t. handleProgressBarClick env x = Some t \<longrightarrow>
              0 \<le> t \<and> t \<le> pb_duration env \<and>
              (0 \<le> x \<and> x \<le> pb_width env \<longrightarrow> t = x / pb_width env * pb_duration env) \<and>
              (x < 0 \<longrightarrow> t = 0) \<and>
              (pb_width env < x \<longrightarrow> t = pb_duration env))"
proof -
  let ?w = "pb_width env" and ?d = "pb_duration env"
  have time: "x / ?w * 100 / 100 * ?d = x / ?w * ?d" by simp
  have on_bar: "0 \<le> x / ?w * ?d \<and> x / ?w * ?d \<le> ?d" if "0 \<le> x" "x \<le> ?w"
  proof -
    have "x / ?w \<le> 1" using that w by simp
    then have "x / ?w * ?d \<le> 1 * ?d" using d by (rule mult_right_mono)
    then show ?thesis using that w d by simp
  qed
  have left: "x / ?w * ?d \<le> 0" if "x < 0"
  proof -
    have "x / ?w \<le> 0" using that w by (simp add: divide_nonpos_pos)
    then show ?thesis using d by (rule mult_nonpos_nonneg)
  qed
  have right: "?d \<le> x / ?w * ?d" if "?w < x"
  proof -
    have "1 \<le> x / ?w" using that w by simp
    then show ?thesis using mult_right_mono [OF _ d, of 1 "x / ?w"] by simp
  qed
  show ?thesis
    using d on_bar left right
    by (auto simp: handleProgressBarClick_def isLoadingProgressBar_def Let_def time clamp_time_def)
qed

theorem handleProgressBarClick_spec_witness:
  "0 < pb_width example_bar \<and> 0 \<le> pb_duration example_bar \<and>
   handleProgressBarClick example_bar 250 = Some 50 \<and> handleProgressBarClick example_bar 1200 = Some 200 \<and>
   (handleProgressBarClick example_bar 250 = None \<longleftrightarrow> isLoadingProgressBar example_bar) \<and>
   (50::rat) \<le> pb_duration example_bar \<and> (50::rat) = 250 / pb_width example_bar * pb_duration example_bar \<and>
   (200::rat) = pb_duration example_bar"
proof -
  have w: "0 < pb_width example_bar" and d: "0 \<le> pb_duration example_bar" by (simp_all add: example_bar_def)
  have v1: "handleProgressBarClick example_bar 250 = Some 50"
    and v2: "handleProgressBarClick example_bar 1200 = Some 200"
    by (simp_all add: handleProgressBarClick_def isLoadingProgressBar_def example_bar_def clamp_time_def)
  note s1 = handleProgressBarClick_spec [OF w d, of 250] and s2 = handleProgressBarClick_spec [OF w d, of 1200]
  have none: "handleProgressBarClick example_bar 250 = None \<longleftrightarrow> isLoadingProgressBar example_bar"
    by (rule s1 [THEN conjunct1])
  have t1: "0 \<le> (50::rat) \<and> 50 \<le> pb_duration example_bar \<and>
      (0 \<le> (250::rat) \<and> 250 \<le> pb_width example_bar \<longrightarrow> 50 = 250 / pb_width example_bar * pb_duration example_bar) \<and>
      ((250::rat) < 0 \<longrightarrow> (50::rat) = 0) \<and> (pb_width example_bar < 250 \<longrightarrow> (50::rat) = pb_duration example_bar)"
    by (rule s1 [THEN conjunct2, rule_format, OF v1])
  have t2: "0 \<le> (200::rat) \<and> 200 \<le> pb_duration example_bar \<and>
      (0 \<le> (1200::rat) \<and> 1200 \<le> pb_width example_bar \<longrightarrow> 200 = 1200 / pb_width example_bar * pb_duration example_bar) \<and>
      ((1200::rat) < 0 \<longrightarrow> (200::rat) = 0) \<and> (pb_width example_bar < 1200 \<longrightarrow> (200::rat) = pb_duration example_bar)"
    by (rule s2 [THEN conjunct2, rule_format, OF v2])
  have on: "(50::rat) = 250 / pb_width example_bar * pb_duration example_bar"
    by (rule mp [OF t1 [THEN conjunct2, THEN conjunct2, THEN conjunct1]]) (simp add: example_bar_def)
  have right: "(200::rat) = pb_duration example_bar"
    by (rule mp [OF t2 [THEN conjunct2, THEN conjunct2, THEN conjunct2, THEN conjunct2]]) (simp add: example_bar_def)
  show ?thesis using w d v1 v2 none t1 on right by blast
qed

lemma find_map_option: "find P (map f xs) = map_option f (find (\<lambda>x. P (f x)) xs)"
  by (induction xs) auto

lemma find_filter_conj: "find P (filter Q xs) = find (\<lambda>x. Q x \<and> P x) xs"
  by (induction xs) auto

lemma percentage_le_iff:
  assumes "0 < (d::rat)"
  shows "a / d * 100 \<le> q * 100 \<longleftrightarrow> a \<le> q * d" and "q * 100 \<le> a / d * 100 \<longleftrightarrow> q * d \<le> a"
proof -
  have "a / d * 100 \<le> q * 100 \<longleftrightarrow> a / d \<le> q" by (rule mult_le_cancel_right_pos) simp
  also have "\<dots> \<longleftrightarrow> a \<le> q * d" using assms by (rule pos_divide_le_eq)
  finally show "a / d * 100 \<le> q * 100 \<longleftrightarrow> a \<le> q * d" .
  have "q * 100 \<le> a / d * 100 \<longleftrightarrow> q \<le> a / d" by (rule mult_le_cancel_right_pos) simp
  also have "\<dots> \<longleftrightarrow> q * d \<le> a" using assms by (rule pos_le_divide_eq)
  finally show "q * 100 \<le> a / d * 100 \<longleftrightarrow> q * d \<le> a" .
qed

lemma ner_marker_percentages:
  "0 < pb_duration env \<Longrightarrow>
     nm_startPercentage (ner_marker_of env e) = ni_start e / pb_duration env * 100 \<and>
     nm_endPercentage (ner_marker_of env e) = ni_end e / pb_duration env * 100"
  by (simp add: ner_marker_of_def)

text \<open>
  C22: moving the pointer over the bar while no NER marker is highlighted highlights the
  marker of the first NER item of a selected label whose time span contains the time
  under the pointer; the test on percentages of \<open>handleMouseMove\<close> is the test on times.
\<close>

theorem handleMouseMove_ner:
  assumes "\<not> isLoadingProgressBar env" and "0 \<le> pb_duration env" and "hoveredNer st = None"
  shows "hoveredNer (handleMouseMove env x st) =
           map_option (ner_marker_of env)
             (find (\<lambda>e. ni_label e \<in> set (pb_selected env) \<and>
                        ni_start e \<le> x / pb_width env * pb_duration env \<and>
                        x / pb_width env * pb_duration env \<le> ni_end e) (pb_ner_data env))"
proof -
  let ?d = "pb_duration env" and ?q = "x / pb_width env"
  have d: "0 < ?d" using assms(1,2) by (simp add: isLoadingProgressBar_def)
  have test: "(nm_startPercentage (ner_marker_of env e) \<le> ?q * 100 \<and> ?q * 100 \<le> nm_endPercentage (ner_marker_of env e))
              \<longleftrightarrow> (ni_start e \<le> ?q * ?d \<and> ?q * ?d \<le> ni_end e)" for e
    unfolding ner_marker_percentages [OF d, THEN conjunct1] ner_marker_percentages [OF d, THEN conjunct2]
      percentage_le_iff [OF d] by (rule refl)
  have found: "find (\<lambda>n. nm_startPercentage n \<le> ?q * 100 \<and> ?q * 100 \<le> nm_endPercentage n) (nerMarkers env) =
           map_option (ner_marker_of env)
             (find (\<lambda>e. ni_label e \<in> set (pb_selected env) \<and> ni_start e \<le> ?q * ?d \<and> ?q * ?d \<le> ni_end e)
                (pb_ner_data env))"
  proof (cases "pb_ner_data env = [] \<or> pb_selected env = []")
    case True
    then show ?thesis by (auto simp: nerMarkers_def find_None_iff)
  next
    case False
    then show ?thesis by (simp only: nerMarkers_def if_False find_map_option find_filter_conj test)
  qed
  show ?thesis using assms(1,3) d found by (simp add: handleMouseMove_def Let_def)
qed

theorem handleMouseMove_ner_witness:
  "\<not> isLoadingProgressBar example_bar \<and> 0 \<le> pb_duration example_bar \<and> hoveredNer initial_bar = None \<and>
   hoveredNer (handleMouseMove example_bar 260 initial_bar) =
     map_option (ner_marker_of example_bar)
       (find (\<lambda>e. ni_label e \<in> set (pb_selected example_bar) \<and>
                  ni_start e \<le> 260 / pb_width example_bar * pb_duration example_bar \<and>
                  260 / pb_width example_bar * pb_duration example_bar \<le> ni_end e) (pb_ner_data example_bar)) \<and>
   map_option nm_text (hoveredNer (handleMouseMove example_bar 260 initial_bar)) = Some ''Ann''"
proof -
  have h: "\<not> isLoadingProgressBar example_bar" "0 \<le> pb_duration example_bar" "hoveredNer initial_bar = None"
    by (simp_all add: isLoadingProgressBar_def example_bar_def initial_bar_def)
  have v: "map_option nm_text (hoveredNer (handleMouseMove example_bar 260 initial_bar)) = Some ''Ann''"
    by (simp add: handleMouseMove_def isLoadingProgressBar_def example_bar_def initial_bar_def Let_def
                  nerMarkers_def ner_marker_of_def js_or_def)
  show ?thesis using h v handleMouseMove_ner [OF h] by blast
qed

end
