(* ===== verification/Config.thy ===== *)
theory Config
  imports Prelude "HOL-Library.Word"
begin

text \<open>
  The organisation configuration \<open>src/config/organizationConfig.ts\<close>: the NER label
  table read from \<open>config.json\<close> (an input here, the record \<open>ner_config\<close>), the lookup
  of a label by its normalised id, its display name and colour, the colour map and the
  palette. A label without a configured colour gets a fallback colour chosen by a
  32-bit string hash: \<open>hashString\<close> multiplies by 31 and adds the character code at
  each step, and \<open>| 0\<close> truncates to a signed 32-bit integer. The intermediate value
  \<open>hash * 31 + code\<close> is below \<open>2 ^ 36\<close> in magnitude, exact in a double, so the
  step is the \<open>32 word\<close> arithmetic below, read back with \<open>sint\<close>. Character codes are
  those of the byte characters of the model.
\<close>

text \<open>\<open>NerLabelConfig\<close> (lines 11--15) and the \<open>ner\<close> part of \<open>AppConfig\<close> (lines 104--107).\<close>

record ner_label_config =
  nlc_id :: string
  nlc_displayName :: string
  nlc_color :: string

record ner_config =
  nc_labels :: "ner_label_config list"
  nc_fallbackColors :: "string list"

text \<open>\<open>normalize\<close> (line 119).\<close>

definition normalize_id :: "string \<Rightarrow> string" where
  "normalize_id value = to_lower (trim value)"

text \<open>One iteration of the loop of \<open>hashString\<close> (line 124): \<open>(hash * 31 + code) | 0\<close>.\<close>

definition hash_step :: "32 word \<Rightarrow> char \<Rightarrow> 32 word" where
  "hash_step hash c = hash * 31 + of_nat (of_char c)"

text \<open>\<open>hashString\<close> (lines 121--127).\<close>

definition hashString :: "string \<Rightarrow> 32 word" where
  "hashString value = fold (\<lambda>c hash. hash_step hash c) value 0"

text \<open>\<open>getNerLabelConfig\<close> (lines 132--135).\<close>

definition getNerLabelConfig :: "ner_config \<Rightarrow> string \<Rightarrow> ner_label_config option" where
  "getNerLabelConfig cfg ident =
     (let key = normalize_id ident in find (\<lambda>l. normalize_id (nlc_id l) = key) (nc_labels cfg))"

text \<open>\<open>getNerDisplayName\<close> (lines 137--140): \<open>id.replace(/_/g, ' ')\<close> when no label matches.\<close>

definition getNerDisplayName :: "ner_config \<Rightarrow> string \<Rightarrow> string" where
  "getNerDisplayName cfg ident =
     (case getNerLabelConfig cfg ident of
        Some l \<Rightarrow> nlc_displayName l
      | None \<Rightarrow> map (\<lambda>c. if c = CHR ''_'' then CHR '' '' else c) ident)"

text \<open>The fallback of \<open>getNerColor\<close> (lines 146--150):
  \<open>Math.abs(hashString(normalize(id))) % fallbacks.length\<close> as an index.\<close>

definition fallback_index :: "string \<Rightarrow> nat \<Rightarrow> nat" where
  "fallback_index ident n = nat (\<bar>sint (hashString (normalize_id ident))\<bar> mod int n)"

definition DEFAULT_NER_COLOR :: string where
  "DEFAULT_NER_COLOR = ''#9e9e9e''"

text \<open>\<open>getNerColor\<close> (lines 142--151); \<open>if (cfg?.color)\<close> tests for a non-empty string.\<close>

definition fallback_color :: "ner_config \<Rightarrow> string \<Rightarrow> string" where
  "fallback_color cfg ident =
     (let fallbacks = nc_fallbackColors cfg
      in if fallbacks = [] then DEFAULT_NER_COLOR else fallbacks ! fallback_index ident (length fallbacks))"

definition getNerColor :: "ner_config \<Rightarrow> string \<Rightarrow> string" where
  "getNerColor cfg ident =
     (case getNerLabelConfig cfg ident of
        Some l \<Rightarrow> if nlc_color l \<noteq> [] then nlc_color l else fallback_color cfg ident
      | None \<Rightarrow> fallback_color cfg ident)"

text \<open>\<open>getNerLabelColorMap\<close> (lines 153--157): a later label with the same id overwrites
  the colour in place.\<close>

definition getNerLabelColorMap :: "ner_config \<Rightarrow> (string \<times> string) list" where
  "getNerLabelColorMap cfg = fold (\<lambda>l colorMap. am_set (nlc_id l) (nlc_color l) colorMap) (nc_labels cfg) []"

text \<open>\<open>getNerColorPalette\<close> (lines 159--161).\<close>

definition getNerColorPalette :: "ner_config \<Rightarrow> string list" where
  "getNerColorPalette cfg = map nlc_color (nc_labels cfg) @ nc_fallbackColors cfg"

text \<open>The hash over unbounded integers: the polynomial \<open>\<Sum> code_i * 31 ^ (n - 1 - i)\<close>
  computed by Horner's rule, with no truncation.\<close>

definition hash_exact :: "string \<Rightarrow> int" where
  "hash_exact value = fold (\<lambda>c h. h * 31 + int (of_char c)) value 0"

text \<open>Witness input: two configured labels, one without a colour, and three fallbacks.\<close>

definition example_config :: ner_config where
  "example_config =
     \<lparr>nc_labels = [\<lparr>nlc_id = ''PERSON'', nlc_displayName = ''Person'', nlc_color = ''#f00''\<rparr>,
                   \<lparr>nlc_id = ''LOC'', nlc_displayName = ''Place'', nlc_color = []\<rparr>],
      nc_fallbackColors = [''#a'', ''#b'', ''#c'']\<rparr>"

subsection \<open>The 32-bit hash\<close>

lemma hashString_snoc: "hashString (s @ [c]) = hash_step (hashString s) c"
  by (simp add: hashString_def)

lemma hash_exact_snoc: "hash_exact (s @ [c]) = hash_exact s * 31 + int (of_char c)"
  by (simp add: hash_exact_def)

text \<open>
  C26: truncating to 32 bits after every step of \<open>hashString\<close> gives the exact
  polynomial hash reduced once modulo \<open>2 ^ 32\<close>; read as a signed integer, the ECMAScript
  \<open>ToInt32\<close> of the exact value that \<open>| 0\<close> computes, the hash lies in \<open>[-2 ^ 31, 2 ^ 31)\<close>.
\<close>

theorem hashString_wraps:
  "hashString s = of_int (hash_exact s) \<and>
   sint (hashString s) = (hash_exact s + 2 ^ 31) mod 2 ^ 32 - 2 ^ 31 \<and>
   - (2 ^ 31) \<le> sint (hashString s) \<and> sint (hashString s) < 2 ^ 31"
proof -
  have eq: "hashString s = of_int (hash_exact s)"
  proof (induction s rule: rev_induct)
    case Nil
    then show ?case by (simp add: hashString_def hash_exact_def)
  next
    case (snoc c s)
    then show ?case by (simp add: hashString_snoc hash_exact_snoc hash_step_def)
  qed
  have "sint (hashString s) = (hash_exact s + 2 ^ 31) mod 2 ^ 32 - 2 ^ 31"
    unfolding eq by (simp add: int_word_sint)
  moreover have "- (2 ^ 31) \<le> sint (hashString s)" and "sint (hashString s) < 2 ^ 31"
    using sint_ge [of "hashString s"] sint_lt [of "hashString s"] by simp_all
  ultimately show ?thesis using eq by simp
qed


subsection \<open>Colours\<close>

lemma fallback_index_bound: "0 < n \<Longrightarrow> fallback_index ident n < n"
  by (simp add: fallback_index_def nat_less_iff)

lemma fallback_color_palette:
  "fallback_color cfg ident \<in> set (nc_fallbackColors cfg) \<or>
   nc_fallbackColors cfg = [] \<and> fallback_color cfg ident = DEFAULT_NER_COLOR"
  using fallback_index_bound [of "length (nc_fallbackColors cfg)" ident]
  by (auto simp: fallback_color_def Let_def)

lemma getNerLabelConfig_in: "getNerLabelConfig cfg ident = Some l \<Longrightarrow> l \<in> set (nc_labels cfg)"
  by (auto simp: getNerLabelConfig_def Let_def find_Some_iff)

lemma fallback_color_normalize:
  "normalize_id b = normalize_id a \<Longrightarrow> fallback_color cfg b = fallback_color cfg a"
  by (simp add: fallback_color_def fallback_index_def Let_def)

lemma getNerColor_normalize:
  assumes "normalize_id b = normalize_id a"
  shows "getNerColor cfg b = getNerColor cfg a"
  unfolding getNerColor_def getNerLabelConfig_def Let_def assms fallback_color_normalize [OF assms] ..

text \<open>
  C27: \<open>getNerColor\<close> returns the configured colour of the label when it has one, and
  otherwise a fallback colour at an index within the fallback list, or the default
  grey when there is none; so every colour is one of the palette or the default, and
  ids equal after trimming and lower-casing get the same colour.
\<close>

theorem getNerColor_palette:
  "(\<forall>l. getNerLabelConfig cfg ident = Some l \<and> nlc_color l \<noteq> [] \<longrightarrow> getNerColor cfg ident = nlc_color l) \<and>
   (nc_fallbackColors cfg \<noteq> [] \<longrightarrow>
      fallback_index ident (length (nc_fallbackColors cfg)) < length (nc_fallbackColors cfg)) \<and>
   (getNerColor cfg ident \<in> set (getNerColorPalette cfg) \<or>
      nc_fallbackColors cfg = [] \<and> getNerColor cfg ident = DEFAULT_NER_COLOR) \<and>
   (\<forall>b. normalize_id b = normalize_id ident \<longrightarrow> getNerColor cfg b = getNerColor cfg ident)"
proof (intro conjI allI impI)
  show "getNerColor cfg ident = nlc_color l" if "getNerLabelConfig cfg ident = Some l \<and> nlc_color l \<noteq> []" for l
    using that by (simp add: getNerColor_def)
  show "fallback_index ident (length (nc_fallbackColors cfg)) < length (nc_fallbackColors cfg)"
    if "nc_fallbackColors cfg \<noteq> []" using that by (simp add: fallback_index_bound)
  show "getNerColor cfg ident \<in> set (getNerColorPalette cfg) \<or>
      nc_fallbackColors cfg = [] \<and> getNerColor cfg ident = DEFAULT_NER_COLOR"
    using fallback_color_palette [of cfg ident] getNerLabelConfig_in [of cfg ident]
    by (auto simp: getNerColor_def getNerColorPalette_def split: option.split)
  show "getNerColor cfg b = getNerColor cfg ident" if "normalize_id b = normalize_id ident" for b
    using that by (rule getNerColor_normalize)
qed

theorem getNerColor_palette_witness:
  "getNerColor example_config ''person'' = ''#f00'' \<and>
   getNerColor example_config '' Person '' = getNerColor example_config ''person'' \<and>
   getNerColor example_config ''LOC'' \<in> set (getNerColorPalette example_config) \<and>
   fallback_index ''LOC'' (length (nc_fallbackColors example_config)) < length (nc_fallbackColors example_config)"
proof -
  note spec = getNerColor_palette [of example_config "''person''"]
  have c: "getNerLabelConfig example_config ''person'' =
             Some \<lparr>nlc_id = ''PERSON'', nlc_displayName = ''Person'', nlc_color = ''#f00''\<rparr>"
    by code_simp
  have p: "getNerColor example_config ''person'' = ''#f00''"
    using spec [THEN conjunct1, rule_format, OF conjI [OF c]] by simp
  have n: "normalize_id '' Person '' = normalize_id ''person''" by code_simp
  have q: "getNerColor example_config '' Person '' = getNerColor example_config ''person''"
    by (rule spec [THEN conjunct2, THEN conjunct2, THEN conjunct2, rule_format, OF n])
  note spec2 = getNerColor_palette [of example_config "''LOC''"]
  have f: "nc_fallbackColors example_config \<noteq> []" by (simp add: example_config_def)
  have i: "fallback_index ''LOC'' (length (nc_fallbackColors example_config)) < length (nc_fallbackColors example_config)"
    by (rule spec2 [THEN conjunct2, THEN conjunct1, rule_format, OF f])
  have l: "getNerColor example_config ''LOC'' \<in> set (getNerColorPalette example_config)"
    using spec2 [THEN conjunct2, THEN conjunct2, THEN conjunct1] f by blast
  show ?thesis using p q i l by blast
qed

end
