(* ===== verification/Transcript.thy ===== *)
theory Transcript
  imports Occurrences
begin

text \<open>
  A paragraph of the transcript panel, \<open>StoryTranscriptParagraph.tsx\<close>
  (\<open>src/app/story/[storyUuid]/Components\<close>). Its render walks the paragraph's words
  (\<open>wordsInParagraph\<close>, entries of the store's \<open>allWords\<close>) with a set
  \<open>renderedWordIndexes\<close> of the positions already drawn: a word inside an NER entity of a
  selected label opens a group of the consecutive words inside that entity, which are
  marked drawn; any other word is drawn alone, flagged current or past for the player's
  time and marked as the first word of the current semantic match. Its effects scroll
  the paragraph into view for a pending scroll target, for the current match and while
  playing. The model is the list of segments the render produces and the decision of
  each effect; the DOM, the timers and the scrolling itself are outside it. The NER data
  are the well-formed items \<open>ner_item\<close>.
\<close>

record tparagraph =
  p_start :: rat
  p_end :: rat
  p_speaker :: string

text \<open>What the render draws: a group of NER words (\<open>StoryTranscriptNERGroupWords\<close>, with
  its label, whether one of its words is being spoken, and the time its click seeks
  to), or one word (\<open>StoryTranscriptWord\<close>, with \<open>isCurrent\<close>, \<open>isPast\<close> and whether
  the score badge of the current match precedes it).\<close>

datatype segment =
    NerGroup "word list" string bool rat
  | PlainWord word bool bool bool

text \<open>What the render reads from the stores.\<close>

record render_env =
  re_currentTime :: rat
  re_ner_data :: "ner_item list"
  re_selected :: "string list"
  re_matches :: "wobj list"
  re_currentMatchIndex :: int

text \<open>\<open>isCurrent\<close> (lines 251--253): the player's time lies between the word's start and
  the next word's start, or the word's end for the last word.\<close>

definition word_isCurrent :: "rat \<Rightarrow> word list \<Rightarrow> nat \<Rightarrow> bool" where
  "word_isCurrent currentTime ws i =
     (word_start (ws ! i) \<le> currentTime \<and>
      (if Suc i < length ws then currentTime < word_start (ws ! Suc i) else currentTime \<le> word_end (ws ! i)))"

text \<open>\<open>nerMatch\<close> (lines 257--260).\<close>

definition ner_in :: "ner_item \<Rightarrow> word \<Rightarrow> bool" where
  "ner_in ner w = (ni_start ner \<le> word_start w \<and> word_end w \<le> ni_end ner)"

definition nerMatch :: "render_env \<Rightarrow> word \<Rightarrow> ner_item option" where
  "nerMatch env w = find (\<lambda>ner. ner_in ner w \<and> ni_label ner \<in> set (re_selected env)) (re_ner_data env)"

text \<open>The grouping loop (lines 266--277): from the word on, the words inside the entity,
  up to the first that is not (\<open>break\<close>).\<close>

definition nerWords :: "ner_item \<Rightarrow> word list \<Rightarrow> nat \<Rightarrow> word list" where
  "nerWords ner ws i = takeWhile (ner_in ner) (drop i ws)"

text \<open>\<open>isNerCurrentlyActive\<close> (lines 280--285). \<open>nerWords.indexOf(w)\<close> is the position of
  \<open>w\<close> in the group: the words are distinct objects.\<close>

definition isNerCurrentlyActive :: "rat \<Rightarrow> word list \<Rightarrow> bool" where
  "isNerCurrentlyActive currentTime grp = (\<exists>j < length grp. word_isCurrent currentTime grp j)"

text \<open>\<open>isFirstWordOfCurrentMatch\<close> (lines 299--307): the match at \<open>currentMatchIndex\<close>, if
  there is one, starts inside the paragraph at the word's start.\<close>

definition current_match_start :: "render_env \<Rightarrow> rat option" where
  "current_match_start env =
     (if 0 \<le> re_currentMatchIndex env \<and> nat (re_currentMatchIndex env) < length (re_matches env)
      then start_time (re_matches env ! nat (re_currentMatchIndex env)) else None)"

definition isFirstWordOfCurrentMatch :: "render_env \<Rightarrow> tparagraph \<Rightarrow> word \<Rightarrow> bool" where
  "isFirstWordOfCurrentMatch env p w =
     (case current_match_start env of
        Some s \<Rightarrow> p_start p \<le> s \<and> s < p_end p \<and> word_start w = s
      | None \<Rightarrow> False)"

text \<open>The word drawn alone at position \<open>i\<close> (lines 251--255, 299--330).\<close>

definition plain_segment :: "render_env \<Rightarrow> tparagraph \<Rightarrow> word list \<Rightarrow> nat \<Rightarrow> segment" where
  "plain_segment env p ws i =
     (let w = ws ! i; isCurrent = word_isCurrent (re_currentTime env) ws i
      in PlainWord w isCurrent (\<not> isCurrent \<and> word_end w < re_currentTime env) (isFirstWordOfCurrentMatch env p w))"

text \<open>The callback of \<open>wordsInParagraph.map\<close> (lines 248--332) on the render's state, the
  segments drawn so far and \<open>renderedWordIndexes\<close>.\<close>

definition render_step ::
  "render_env \<Rightarrow> tparagraph \<Rightarrow> word list \<Rightarrow> segment list \<times> nat set \<Rightarrow> word \<times> nat \<Rightarrow> segment list \<times> nat set" where
  "render_step env p ws st wi =
     (case st of (segs, renderedWordIndexes) \<Rightarrow>
      case wi of (w, wordIndex) \<Rightarrow>
        if wordIndex \<in> renderedWordIndexes then (segs, renderedWordIndexes)
        else case nerMatch env w of
          Some ner \<Rightarrow>
            let grp = nerWords ner ws wordIndex
            in (segs @ [NerGroup grp (ni_label ner) (isNerCurrentlyActive (re_currentTime env) grp) (ni_start ner)],
                renderedWordIndexes \<union> {wordIndex..<wordIndex + length grp})
        | None \<Rightarrow> (segs @ [plain_segment env p ws wordIndex], renderedWordIndexes))"

definition renderWords :: "render_env \<Rightarrow> tparagraph \<Rightarrow> word list \<Rightarrow> segment list" where
  "renderWords env p ws = fst (fold (\<lambda>wi st. render_step env p ws st wi) (zip ws [0..<length ws]) ([], {}))"

text \<open>The words a segment draws.\<close>

fun seg_words :: "segment \<Rightarrow> word list" where
  "seg_words (NerGroup grp label active t) = grp"
| "seg_words (PlainWord w cur past first) = [w]"

text \<open>The effect on a pending scroll target (lines 76--95): the paragraph whose range
  holds the target scrolls into view and clears the target; the others leave it.\<close>

definition targetScrollEffect :: "rat option \<Rightarrow> tparagraph \<Rightarrow> bool \<times> rat option" where
  "targetScrollEffect targetScrollTime p =
     (case targetScrollTime of
        None \<Rightarrow> (False, None)
      | Some t \<Rightarrow> if p_start p \<le> t \<and> t < p_end p then (True, None) else (False, Some t))"

text \<open>The semantic-match part of the second effect (lines 101--117): the paragraph holding
  the start of the current match scrolls.\<close>

definition matchScrollEffect :: "render_env \<Rightarrow> tparagraph \<Rightarrow> bool" where
  "matchScrollEffect env p =
     (case current_match_start env of Some s \<Rightarrow> p_start p \<le> s \<and> s < p_end p | None \<Rightarrow> False)"

text \<open>The auto-scroll effect (lines 146--174), with whether the paragraph is already in
  view as an input.\<close>

definition autoScrollEffect :: "bool \<Rightarrow> bool \<Rightarrow> rat \<Rightarrow> tparagraph \<Rightarrow> bool \<Rightarrow> bool" where
  "autoScrollEffect isPlaying isCurrentTimeOutOfView currentTime p inView =
     (isPlaying \<and> \<not> isCurrentTimeOutOfView \<and> p_start p \<le> currentTime \<and> currentTime < p_end p \<and> \<not> inView)"

subsection \<open>The segmentation as a recursion\<close>

lemma nerMatch_in: "nerMatch env w = Some ner \<Longrightarrow> ner_in ner w \<and> ni_label ner \<in> set (re_selected env) \<and> ner \<in> set (re_ner_data env)"
  by (auto simp: nerMatch_def find_Some_iff)

lemma nerWords_nonempty:
  assumes "i < length ws" and "nerMatch env (ws ! i) = Some ner"
  shows "nerWords ner ws i \<noteq> []"
proof -
  have "drop i ws = ws ! i # drop (Suc i) ws" using assms(1) by (rule Cons_nth_drop_Suc [symmetric])
  then show ?thesis using nerMatch_in [OF assms(2)] by (simp add: nerWords_def)
qed

lemma length_nerWords: "length (nerWords ner ws i) \<le> length ws - i"
  using length_takeWhile_le [of "ner_in ner" "drop i ws"] by (simp add: nerWords_def)

text \<open>The reference: draw from position \<open>i\<close> on, a group at once or one word. It stops
  because a group holds at least the word that opens it.\<close>

function segments :: "render_env \<Rightarrow> tparagraph \<Rightarrow> word list \<Rightarrow> nat \<Rightarrow> segment list" where
  "segments env p ws i =
     (if length ws \<le> i then []
      else case nerMatch env (ws ! i) of
        Some ner \<Rightarrow>
          let grp = nerWords ner ws i
          in NerGroup grp (ni_label ner) (isNerCurrentlyActive (re_currentTime env) grp) (ni_start ner)
             # segments env p ws (i + length grp)
      | None \<Rightarrow> plain_segment env p ws i # segments env p ws (Suc i))"
  by pat_completeness auto
termination
proof (relation "measure (\<lambda>(env, p, ws, i). length ws - i)")
  fix env p ws i ner grp
  assume "\<not> length ws \<le> i" and "nerMatch env (ws ! i) = Some ner" and "grp = nerWords ner ws i"
  then have "0 < length grp" "length grp \<le> length ws - i" "i < length ws"
    using nerWords_nonempty [of i ws env ner] length_nerWords [of ner ws i] by auto
  then show "((env, p, ws, i + length grp), env, p, ws, i) \<in> measure (\<lambda>(env, p, ws, i). length ws - i)"
    by (simp del: length_greater_0_conv)
qed auto

declare segments.simps [simp del]

lemma zip_drop_upt_Cons:
  "i < length ws \<Longrightarrow> zip (drop i ws) [i..<length ws] = (ws ! i, i) # zip (drop (Suc i) ws) [Suc i..<length ws]"
proof -
  assume i: "i < length ws"
  have "drop i ws = ws ! i # drop (Suc i) ws" using i by (rule Cons_nth_drop_Suc [symmetric])
  then show ?thesis using i by (simp add: upt_conv_Cons)
qed

lemma segments_Some:
  "i < length ws \<Longrightarrow> nerMatch env (ws ! i) = Some ner \<Longrightarrow>
   segments env p ws i =
     NerGroup (nerWords ner ws i) (ni_label ner) (isNerCurrentlyActive (re_currentTime env) (nerWords ner ws i)) (ni_start ner)
     # segments env p ws (i + length (nerWords ner ws i))"
  by (simp add: segments.simps [of env p ws i] Let_def)

lemma segments_None:
  "i < length ws \<Longrightarrow> nerMatch env (ws ! i) = None \<Longrightarrow>
   segments env p ws i = plain_segment env p ws i # segments env p ws (Suc i)"
  by (simp add: segments.simps [of env p ws i])

lemma segments_end: "length ws \<le> i \<Longrightarrow> segments env p ws i = []"
  by (simp add: segments.simps [of env p ws i])

text \<open>The render's loop from position \<open>i\<close> on, when the positions drawn at or after \<open>i\<close>
  are those of a group that ends before \<open>j\<close>, draws what the recursion draws from
  \<open>j\<close>.\<close>

lemma fold_render_step:
  assumes "{k \<in> R. i \<le> k} = {i..<j}" and "i \<le> j" and "j \<le> length ws"
  shows "fst (fold (\<lambda>wi st. render_step env p ws st wi) (zip (drop i ws) [i..<length ws]) (segs, R)) =
           segs @ segments env p ws j"
  using assms
proof (induction "length ws - i" arbitrary: i j segs R)
  case 0
  then have "j = length ws" and "length ws \<le> i" by simp_all
  then show ?case by (simp add: segments_end)
next
  case (Suc m)
  then have i: "i < length ws" by simp
  let ?F = "\<lambda>wi st. render_step env p ws st wi"
  have m: "m = length ws - Suc i" using Suc.hyps(2) by simp
  show ?case
  proof (cases "i < j")
    case True
    then have "i \<in> R" using Suc.prems(1) by (metis (mono_tags, lifting) atLeastLessThan_iff le_refl mem_Collect_eq)
    then have step: "render_step env p ws (segs, R) (ws ! i, i) = (segs, R)" by (simp add: render_step_def)
    have "{k \<in> R. Suc i \<le> k} = {Suc i..<j}" using Suc.prems(1) by auto
    then show ?thesis using True Suc.prems(3) Suc.hyps(1) [OF m]
      by (simp add: zip_drop_upt_Cons [OF i] step)
  next
    case False
    then have j: "j = i" using Suc.prems(2) by simp
    then have notin: "i \<notin> R" and none: "{k \<in> R. i \<le> k} = {}" using Suc.prems(1) by auto
    show ?thesis
    proof (cases "nerMatch env (ws ! i)")
      case None
      have step: "render_step env p ws (segs, R) (ws ! i, i) = (segs @ [plain_segment env p ws i], R)"
        using notin None by (simp add: render_step_def)
      have "{k \<in> R. Suc i \<le> k} = {Suc i..<Suc i}" using none by auto
      then have "fst (fold ?F (zip (drop (Suc i) ws) [Suc i..<length ws]) (segs @ [plain_segment env p ws i], R)) =
                 (segs @ [plain_segment env p ws i]) @ segments env p ws (Suc i)"
        using i by (intro Suc.hyps(1) [OF m]) simp_all
      then show ?thesis by (simp add: zip_drop_upt_Cons [OF i] step j segments_None [OF i None])
    next
      case (Some ner)
      let ?g = "nerWords ner ws i"
      let ?G = "NerGroup ?g (ni_label ner) (isNerCurrentlyActive (re_currentTime env) ?g) (ni_start ner)"
      have ne: "0 < length ?g" using nerWords_nonempty [OF i Some] by simp
      have le: "i + length ?g \<le> length ws" using length_nerWords [of ner ws i] i by simp
      have step: "render_step env p ws (segs, R) (ws ! i, i) = (segs @ [?G], R \<union> {i..<i + length ?g})"
        using notin Some by (simp add: render_step_def Let_def)
      have "{k \<in> R \<union> {i..<i + length ?g}. Suc i \<le> k} = {Suc i..<i + length ?g}" using none by auto
      then have "fst (fold ?F (zip (drop (Suc i) ws) [Suc i..<length ws]) (segs @ [?G], R \<union> {i..<i + length ?g})) =
                 (segs @ [?G]) @ segments env p ws (i + length ?g)"
        using ne le by (intro Suc.hyps(1) [OF m]) (simp_all del: length_greater_0_conv)
      then show ?thesis by (simp add: zip_drop_upt_Cons [OF i] step j segments_Some [OF i Some])
    qed
  qed
qed

text \<open>
  C24: the render's \<open>map\<close> over the words, which skips the positions already in
  \<open>renderedWordIndexes\<close>, draws exactly what the recursion \<open>segments\<close> draws: a group or
  one word at a time, each followed by the rest of the paragraph after it.
\<close>

theorem renderWords_segments: "renderWords env p ws = segments env p ws 0"
  using fold_render_step [of "{}" 0 0 ws env p "[]"] by (simp add: renderWords_def)

subsection \<open>What the render draws\<close>

lemma nerWords_split: "nerWords ner ws i @ drop (i + length (nerWords ner ws i)) ws = drop i ws"
proof -
  have "drop (i + length (nerWords ner ws i)) ws = dropWhile (ner_in ner) (drop i ws)"
    by (simp add: nerWords_def dropWhile_eq_drop add.commute)
  then show ?thesis by (simp add: nerWords_def)
qed

lemma segments_spec:
  "concat (map seg_words (segments env p ws i)) = drop i ws \<and>
   (\<forall>seg \<in> set (segments env p ws i). case seg of
      NerGroup grp label active t \<Rightarrow> grp \<noteq> [] \<and>
        (\<exists>ner \<in> set (re_ner_data env). ni_label ner = label \<and> label \<in> set (re_selected env) \<and>
           t = ni_start ner \<and> (\<forall>w \<in> set grp. ner_in ner w))
    | PlainWord w cur past first \<Rightarrow> nerMatch env w = None)"
proof (induction env p ws i rule: segments.induct)
  case (1 env p ws i)
  show ?case
  proof (cases "length ws \<le> i")
    case True
    then show ?thesis by (simp add: segments_end)
  next
    case False
    then have i: "i < length ws" by simp
    show ?thesis
    proof (cases "nerMatch env (ws ! i)")
      case None
      have "drop i ws = ws ! i # drop (Suc i) ws" using i by (rule Cons_nth_drop_Suc [symmetric])
      then show ?thesis using "1.IH"(1) [OF False None] None
        by (simp add: segments_None [OF i None] plain_segment_def Let_def)
    next
      case (Some ner)
      let ?g = "nerWords ner ws i"
      have IH: "concat (map seg_words (segments env p ws (i + length ?g))) = drop (i + length ?g) ws \<and>
         (\<forall>seg \<in> set (segments env p ws (i + length ?g)). case seg of
            NerGroup grp label active t \<Rightarrow> grp \<noteq> [] \<and>
              (\<exists>ner \<in> set (re_ner_data env). ni_label ner = label \<and> label \<in> set (re_selected env) \<and>
                 t = ni_start ner \<and> (\<forall>w \<in> set grp. ner_in ner w))
          | PlainWord w cur past first \<Rightarrow> nerMatch env w = None)"
        using "1.IH"(2) [OF False Some refl] by simp
      have grp: "?g \<noteq> [] \<and> (\<forall>w \<in> set ?g. ner_in ner w)"
        using nerWords_nonempty [OF i Some] by (auto simp: nerWords_def dest: set_takeWhileD)
      show ?thesis
        using IH grp nerMatch_in [OF Some] nerWords_split [of ner ws i]
        by (auto simp: segments_Some [OF i Some])
    qed
  qed
qed

text \<open>
  C23: the render draws every word of the paragraph exactly once and in order: a group
  is a non-empty run of words inside one NER entity of a selected label, whose click
  seeks to the entity's start, and a word drawn alone lies in no such entity.
\<close>

theorem renderWords_partition:
  "concat (map seg_words (renderWords env p ws)) = ws \<and>
   (\<forall>seg \<in> set (renderWords env p ws). case seg of
      NerGroup grp label active t \<Rightarrow> grp \<noteq> [] \<and>
        (\<exists>ner \<in> set (re_ner_data env). ni_label ner = label \<and> label \<in> set (re_selected env) \<and>
           t = ni_start ner \<and> (\<forall>w \<in> set grp. ner_in ner w))
    | PlainWord w cur past first \<Rightarrow> nerMatch env w = None)"
  using segments_spec [of env p ws 0] by (simp add: renderWords_segments)

subsection \<open>At most one word is current\<close>

lemma plain_segment_current:
  "(\<exists>w past first. plain_segment env p ws i = PlainWord w True past first) \<longleftrightarrow>
   word_isCurrent (re_currentTime env) ws i"
  by (simp add: plain_segment_def Let_def)

lemma filter_upt_split:
  "i \<le> k \<Longrightarrow> k \<le> n \<Longrightarrow> filter P [i..<n] = filter P [i..<k] @ filter P [k..<n]"
  by (metis filter_append le_Suc_ex upt_add_eq_append)

text \<open>The words drawn alone and flagged current are among the current positions.\<close>

lemma segments_current_subseq:
  "subseq (filter (\<lambda>seg. \<exists>w past first. seg = PlainWord w True past first) (segments env p ws i))
     (map (plain_segment env p ws) (filter (word_isCurrent (re_currentTime env) ws) [i..<length ws]))"
proof (induction env p ws i rule: segments.induct)
  case (1 env p ws i)
  let ?C = "\<lambda>seg. \<exists>w past first. seg = PlainWord w True past first"
  let ?cur = "word_isCurrent (re_currentTime env) ws"
  show ?case
  proof (cases "length ws \<le> i")
    case True
    then show ?thesis by (simp add: segments_end)
  next
    case False
    then have i: "i < length ws" by simp
    have upt: "[i..<length ws] = i # [Suc i..<length ws]" using i by (simp add: upt_conv_Cons)
    show ?thesis
    proof (cases "nerMatch env (ws ! i)")
      case None
      note IH = "1.IH"(1) [OF False None]
      show ?thesis
      proof (cases "?cur i")
        case True
        then have "?C (plain_segment env p ws i)" using plain_segment_current by blast
        then show ?thesis using IH True by (simp add: segments_None [OF i None] upt)
      next
        case False
        then have "\<not> ?C (plain_segment env p ws i)" using plain_segment_current by blast
        then show ?thesis using IH False by (simp add: segments_None [OF i None] upt)
      qed
    next
      case (Some ner)
      let ?k = "i + length (nerWords ner ws i)"
      have IH: "subseq (filter ?C (segments env p ws ?k)) (map (plain_segment env p ws) (filter ?cur [?k..<length ws]))"
        using "1.IH"(2) [OF False Some refl] by simp
      have k: "i \<le> ?k" "?k \<le> length ws" using length_nerWords [of ner ws i] i by simp_all
      have "subseq (filter ?C (segments env p ws ?k))
              (map (plain_segment env p ws) (filter ?cur [i..<?k] @ filter ?cur [?k..<length ws]))"
        using IH by (simp add: list_emb_append2)
      then show ?thesis by (simp add: segments_Some [OF i Some] filter_upt_split [OF k])
    qed
  qed
qed

lemma at_most_one_upt:
  assumes "\<forall>i k. i < k \<longrightarrow> k < n \<longrightarrow> P i \<longrightarrow> \<not> P k"
  shows "length (filter P [0..<n]) \<le> 1"
  using assms
proof (induction n)
  case (Suc n)
  show ?case
  proof (cases "P n")
    case True
    then have "filter P [0..<n] = []" using Suc.prems by (auto simp: filter_empty_conv)
    then show ?thesis using True by simp
  next
    case False
    then show ?thesis using Suc by simp
  qed
qed simp

lemma word_isCurrent_unique:
  assumes "sorted_wrt (\<lambda>a b. word_start a < word_start b) ws" and "i < k" and "k < length ws"
    and "word_isCurrent t ws i"
  shows "\<not> word_isCurrent t ws k"
proof
  assume k: "word_isCurrent t ws k"
  have "Suc i < length ws" using assms(2,3) by simp
  then have lt: "t < word_start (ws ! Suc i)" using assms(4) by (simp add: word_isCurrent_def)
  have "word_start (ws ! Suc i) \<le> word_start (ws ! k)"
  proof (cases "Suc i = k")
    case False
    then have "Suc i < k" using assms(2) by simp
    then show ?thesis using sorted_wrt_nth_less [OF assms(1) _ assms(3)] by fastforce
  qed simp
  then show False using lt k by (simp add: word_isCurrent_def)
qed

text \<open>
  When the paragraph's words start at strictly increasing times, at most one word
  drawn alone is flagged as the one being spoken.
\<close>

theorem renderWords_one_current:
  assumes "sorted_wrt (\<lambda>a b. word_start a < word_start b) ws"
  shows "length (filter (\<lambda>seg. \<exists>w past first. seg = PlainWord w True past first) (renderWords env p ws)) \<le> 1"
proof -
  let ?cur = "word_isCurrent (re_currentTime env) ws"
  have "length (filter (\<lambda>seg. \<exists>w past first. seg = PlainWord w True past first) (renderWords env p ws))
          \<le> length (map (plain_segment env p ws) (filter ?cur [0..<length ws]))"
    unfolding renderWords_segments by (rule list_emb_length [OF segments_current_subseq])
  also have "\<dots> \<le> 1"
    unfolding length_map by (rule at_most_one_upt) (use word_isCurrent_unique [OF assms] in blast)
  finally show ?thesis .
qed

subsection \<open>One paragraph scrolls\<close>

lemma at_most_one_interval:
  assumes "sorted_wrt (\<lambda>p q. p_end p \<le> p_start q) ps"
  shows "length (filter (\<lambda>p. p_start p \<le> t \<and> t < p_end p) ps) \<le> 1"
  using assms
proof (induction ps)
  case (Cons p ps)
  show ?case
  proof (cases "p_start p \<le> t \<and> t < p_end p")
    case True
    then have "filter (\<lambda>p. p_start p \<le> t \<and> t < p_end p) ps = []"
      using Cons.prems by (fastforce simp: filter_empty_conv)
    then show ?thesis using True by simp
  next
    case False
    then have "filter (\<lambda>p. p_start p \<le> t \<and> t < p_end p) (p # ps) = filter (\<lambda>p. p_start p \<le> t \<and> t < p_end p) ps"
      by simp
    then show ?thesis using Cons by simp
  qed
qed simp

text \<open>
  C25: over the paragraphs of a transcript, whose ranges follow one another without
  overlap, at most one paragraph scrolls to a pending target time (and only it clears
  the target), and at most one scrolls to the current semantic match.
\<close>

theorem paragraph_scroll_unique:
  assumes "sorted_wrt (\<lambda>p q. p_end p \<le> p_start q) ps"
  shows "length (filter (\<lambda>p. fst (targetScrollEffect (Some t) p)) ps) \<le> 1 \<and>
         (\<forall>p \<in> set ps. snd (targetScrollEffect (Some t) p) = None \<longleftrightarrow> fst (targetScrollEffect (Some t) p)) \<and>
         length (filter (matchScrollEffect env) ps) \<le> 1"
proof (intro conjI)
  show "length (filter (\<lambda>p. fst (targetScrollEffect (Some t) p)) ps) \<le> 1"
    using at_most_one_interval [OF assms, of t] by (simp add: targetScrollEffect_def)
  show "\<forall>p \<in> set ps. snd (targetScrollEffect (Some t) p) = None \<longleftrightarrow> fst (targetScrollEffect (Some t) p)"
    by (simp add: targetScrollEffect_def)
  show "length (filter (matchScrollEffect env) ps) \<le> 1"
  proof (cases "current_match_start env")
    case (Some s)
    then have "matchScrollEffect env = (\<lambda>p. p_start p \<le> s \<and> s < p_end p)"
      by (simp add: fun_eq_iff matchScrollEffect_def)
    then show ?thesis using at_most_one_interval [OF assms, of s] by simp
  qed (simp add: matchScrollEffect_def)
qed

subsection \<open>Witnesses\<close>

text \<open>A paragraph of the three words of \<open>example_words\<close>, with the player at the second
  word and one selected entity over the last word.\<close>

definition example_render_env :: render_env where
  "example_render_env =
     \<lparr>re_currentTime = 5 / 2,
      re_ner_data = [\<lparr>ni_text = ''Paris'', ni_label = ''GPE'', ni_start = 5, ni_end = 6\<rparr>],
      re_selected = [''GPE''], re_matches = [], re_currentMatchIndex = -1\<rparr>"

definition example_tparagraph :: tparagraph where
  "example_tparagraph = \<lparr>p_start = 0, p_end = 6, p_speaker = ''Interviewer''\<rparr>"

definition example_tparagraphs :: "tparagraph list" where
  "example_tparagraphs = [example_tparagraph, \<lparr>p_start = 6, p_end = 9, p_speaker = ''Narrator''\<rparr>]"

theorem renderWords_partition_witness:
  "concat (map seg_words (renderWords example_render_env example_tparagraph example_words)) = example_words"
  by (rule renderWords_partition [THEN conjunct1])

theorem renderWords_one_current_witness:
  "sorted_wrt (\<lambda>a b. word_start a < word_start b) example_words \<and>
   length (filter (\<lambda>seg. \<exists>w past first. seg = PlainWord w True past first)
     (renderWords example_render_env example_tparagraph example_words)) \<le> 1"
proof
  show s: "sorted_wrt (\<lambda>a b. word_start a < word_start b) example_words"
    by (simp add: example_words_def)
  show "length (filter (\<lambda>seg. \<exists>w past first. seg = PlainWord w True past first)
     (renderWords example_render_env example_tparagraph example_words)) \<le> 1"
    by (rule renderWords_one_current [OF s])
qed

theorem paragraph_scroll_unique_witness:
  "sorted_wrt (\<lambda>p q. p_end p \<le> p_start q) example_tparagraphs \<and>
   length (filter (\<lambda>p. fst (targetScrollEffect (Some 6) p)) example_tparagraphs) \<le> 1 \<and>
   length (filter (matchScrollEffect example_render_env) example_tparagraphs) \<le> 1"
proof -
  have s: "sorted_wrt (\<lambda>p q. p_end p \<le> p_start q) example_tparagraphs"
    by (simp add: example_tparagraphs_def example_tparagraph_def)
  have u: "length (filter (\<lambda>p. fst (targetScrollEffect (Some 6) p)) example_tparagraphs) \<le> 1 \<and>
     (\<forall>p \<in> set example_tparagraphs. snd (targetScrollEffect (Some 6) p) = None \<longleftrightarrow> fst (targetScrollEffect (Some 6) p)) \<and>
     length (filter (matchScrollEffect example_render_env) example_tparagraphs) \<le> 1"
    by (rule paragraph_scroll_unique [OF s])
  from s u show ?thesis by blast
qed

end
