(* ===== verification/ActiveFilters.thy ===== *)
theory ActiveFilters
  imports Store Config
begin

text \<open>
  The active-filter bar \<open>src/components/ActiveFiltersDisplay.tsx\<close>. It reads the store
  (\<open>nerFilters\<close>, \<open>collections\<close>, \<open>selectedCollectionIds\<close>, \<open>hasSearched\<close>,
  \<open>searchType\<close>) and draws a "Clear all" chip, one chip per NER filter and one per
  selected collection. Its handlers are modelled as the sequences of store actions they
  issue (\<open>Store.event\<close>), computed from the values of the render that created them, as
  a closure captures them; \<open>Store.run_events\<close> runs such a sequence. Every asynchronous
  action a handler issues is its last call, so running each action to completion in
  order is the code's order when no other event interleaves. The thresholds come from
  \<open>useThreshold\<close> and \<open>PAGINATION_ITEMS_PER_PAGE\<close> from \<open>src/app/constants\<close>; both are
  parameters. The scroll buttons are modelled on the element's scroll geometry.
\<close>

subsection \<open>Handlers\<close>

text \<open>The search action of the \<open>switch\<close> of \<open>refreshCollectionQueries\<close> (lines 65--76):
  the BM25 search is also the \<open>default\<close>, taken for \<open>traditional\<close>.\<close>

definition search_event :: "search_type \<Rightarrow> string list \<Rightarrow> score \<Rightarrow> score \<Rightarrow> event" where
  "search_event t filters minValue maxValue =
     (case t of
        SearchType_hybrid \<Rightarrow> RunHybridSearch 1000 0 filters (Some minValue) (Some maxValue)
      | SearchType_vector \<Rightarrow> RunVectorSearch 1000 0 filters (Some minValue) (Some maxValue)
      | _ \<Rightarrow> Run25bmSearch 1000 0 filters (Some minValue) (Some maxValue))"

text \<open>\<open>refreshCollectionQueries\<close> (lines 42--77): back to page \<open>1\<close>, then the story
  listing when nothing was searched, else the search of the current type with the
  render's NER filters.\<close>

definition refreshCollectionQueries :: "nat \<Rightarrow> score \<Rightarrow> score \<Rightarrow> store \<Rightarrow> event list" where
  "refreshCollectionQueries itemsPerPage minValue maxValue st =
     SetCurrentPage 1 #
     (if \<not> hasSearched st then [GetAllStories itemsPerPage 0]
      else [search_event (searchType st) (nerFilters st) minValue maxValue])"

text \<open>\<open>handleRemoveFilter\<close> (lines 79--82).\<close>

definition handleRemoveFilter :: "string \<Rightarrow> store \<Rightarrow> event list" where
  "handleRemoveFilter filterToRemove st = [SetNerFilters (filter (\<lambda>f. f \<noteq> filterToRemove) (nerFilters st))]"

text \<open>\<open>handleClearAllFilters\<close> (lines 84--90).\<close>

definition handleClearAllFilters :: "nat \<Rightarrow> score \<Rightarrow> score \<Rightarrow> store \<Rightarrow> event list" where
  "handleClearAllFilters itemsPerPage minValue maxValue st =
     SetNerFilters [] #
     (if selectedCollectionIds st \<noteq> []
      then SetSelectedCollectionIds [] # refreshCollectionQueries itemsPerPage minValue maxValue st
      else [])"

text \<open>The \<open>onDelete\<close> of a collection chip (lines 233--236).\<close>

definition handleRemoveCollection :: "nat \<Rightarrow> score \<Rightarrow> score \<Rightarrow> string \<Rightarrow> store \<Rightarrow> event list" where
  "handleRemoveCollection itemsPerPage minValue maxValue collectionId st =
     SetSelectedCollectionIds (filter (\<lambda>selectedId. selectedId \<noteq> collectionId) (selectedCollectionIds st)) #
     refreshCollectionQueries itemsPerPage minValue maxValue st"

subsection \<open>Chips\<close>

text \<open>\<open>selectedCollectionMap\<close> (line 40): a \<open>Map\<close> built from the entries, a later entry
  with the same id overwriting the name.\<close>

definition selectedCollectionMap :: "store \<Rightarrow> string \<rightharpoonup> string" where
  "selectedCollectionMap st =
     map_of (fold (\<lambda>c al. am_set (co_id c) (co_name c) al) (collections st) [])"

datatype chip = ClearAllChip | NerChip string string | CollectionChip string string

text \<open>The three groups of chips (lines 190--205, 207--226, 228--244), each with its key
  (the filter or the collection id) and its label.\<close>

definition clear_chips :: "store \<Rightarrow> chip list" where
  "clear_chips st = (if 0 < length (nerFilters st) + length (selectedCollectionIds st) then [ClearAllChip] else [])"

definition ner_chips :: "ner_config \<Rightarrow> store \<Rightarrow> chip list" where
  "ner_chips cfg st = map (\<lambda>f. NerChip f (getNerDisplayName cfg f)) (nerFilters st)"

definition collection_chips :: "store \<Rightarrow> chip list" where
  "collection_chips st =
     map (\<lambda>collectionId. CollectionChip collectionId
            (case selectedCollectionMap st collectionId of Some n \<Rightarrow> n | None \<Rightarrow> collectionId))
         (selectedCollectionIds st)"

text \<open>The render (lines 140--259): nothing (\<open>null\<close>) without active filters.\<close>

definition filter_chips :: "ner_config \<Rightarrow> store \<Rightarrow> chip list option" where
  "filter_chips cfg st =
     (if nerFilters st = [] \<and> selectedCollectionIds st = [] then None
      else Some (clear_chips st @ ner_chips cfg st @ collection_chips st))"

text \<open>What a click on a chip issues: \<open>onClick\<close> of "Clear all", \<open>onDelete\<close> of the
  others.\<close>

fun chip_action :: "nat \<Rightarrow> score \<Rightarrow> score \<Rightarrow> chip \<Rightarrow> store \<Rightarrow> event list" where
  "chip_action n mn mx ClearAllChip st = handleClearAllFilters n mn mx st"
| "chip_action n mn mx (NerChip f label) st = handleRemoveFilter f st"
| "chip_action n mn mx (CollectionChip cid label) st = handleRemoveCollection n mn mx cid st"

text \<open>The mobile effect (lines 133--138): whether it collapses the top bar.\<close>

definition collapsesTopBar :: "bool \<Rightarrow> store \<Rightarrow> bool" where
  "collapsesTopBar isMobile st = (isMobile \<and> (0 < length (nerFilters st) \<or> 0 < length (selectedCollectionIds st)))"

subsection \<open>Scroll buttons\<close>

record scroll_box =
  scrollWidth :: rat
  clientWidth :: rat
  scrollLeft :: rat

text \<open>\<open>updateFilterScrollButtons\<close> (lines 92--103): whether each arrow shows, with no
  element mounted neither.\<close>

definition updateFilterScrollButtons :: "scroll_box option \<Rightarrow> bool \<times> bool" where
  "updateFilterScrollButtons el =
     (case el of
        None \<Rightarrow> (False, False)
      | Some e \<Rightarrow> let maxScrollLeft = scrollWidth e - clientWidth e
                 in (0 < scrollLeft e, 1 < maxScrollLeft - scrollLeft e))"

datatype direction = Dir_left | Dir_right

text \<open>\<open>scrollFilters\<close> (lines 105--113): the offset it asks \<open>scrollBy\<close> for.\<close>

definition scrollFilters :: "scroll_box option \<Rightarrow> direction \<Rightarrow> rat option" where
  "scrollFilters el d = (case el of None \<Rightarrow> None | Some e \<Rightarrow> Some (if d = Dir_left then -220 else 220))"


subsection \<open>Running the handlers\<close>

text \<open>The server function the action of \<open>search_event\<close> calls.\<close>

definition search_fn_of :: "api \<Rightarrow> search_type \<Rightarrow> search_fn" where
  "search_fn_of a t =
     (case t of SearchType_hybrid \<Rightarrow> api_hybridSearch a | SearchType_vector \<Rightarrow> api_vectorSearch a
      | _ \<Rightarrow> api_bm25Search a)"

lemma store_step_search_event:
  "fst (store_step a (search_event t fs mn mx) st) =
   fst (runSearch (search_fn_of a t) 1000 0 fs (Some mn) (Some mx) st)"
  by (cases t) (simp_all add: search_event_def search_fn_of_def runHybridSearch_def runVectorSearch_def run25bmSearch_def)

lemma run_events_Cons [simp]: "run_events a (ev # evs) st = run_events a evs (fst (store_step a ev st))"
  by (simp add: run_events_def)

lemma run_events_Nil [simp]: "run_events a [] st = st"
  by (simp add: run_events_def)

lemma find_append:
  "find P (xs @ ys) = (case find P xs of None \<Rightarrow> find P ys | Some x \<Rightarrow> Some x)"
  by (induction xs) auto

text \<open>A \<open>Map\<close> built by \<open>Map.set\<close> over entries answers with the last entry of the key.\<close>

lemma map_of_fold_am_set:
  "map_of (fold (\<lambda>c al. am_set (k c) (v c) al) cs al0) x =
   (case find (\<lambda>c. k c = x) (rev cs) of Some c \<Rightarrow> Some (v c) | None \<Rightarrow> map_of al0 x)"
proof (induction cs arbitrary: al0)
  case Nil
  then show ?case by simp
next
  case (Cons c cs)
  then show ?case by (simp add: find_append split: option.split)
qed

lemma selectedCollectionMap_last:
  "selectedCollectionMap st cid = map_option co_name (find (\<lambda>c. co_id c = cid) (rev (collections st)))"
  by (simp add: selectedCollectionMap_def map_of_fold_am_set split: option.split)

text \<open>
  C28: "Clear all" with collections selected after a search clears both filter lists,
  returns to page \<open>1\<close> and reruns the search of the current type, but with the NER
  filters of the render it was clicked in: the filters it has just cleared.
\<close>

theorem handleClearAllFilters_stale:
  assumes "selectedCollectionIds st \<noteq> []" and "hasSearched st"
  shows "run_events a (handleClearAllFilters n mn mx st) st =
         fst (runSearch (search_fn_of a (searchType st)) 1000 0 (nerFilters st) (Some mn) (Some mx)
                (st\<lparr>nerFilters := [], selectedCollectionIds := [], currentPage := 1\<rparr>))"
  using assms
  by (simp add: handleClearAllFilters_def refreshCollectionQueries_def store_step_search_event)

text \<open>
  C29: removing a collection chip before any search returns to page \<open>1\<close> and, against a
  datastore that pages through its corpus, lists the first page of the stories the
  remaining collections admit, with a next page exactly when more remain.
\<close>

theorem handleRemoveCollection_list_backend:
  assumes "0 < n" and "\<not> hasSearched st"
  shows "let st' = run_events (server (list_backend c) fT de collate fc fs) (handleRemoveCollection n mn mx cid st) st;
             sel = filter (\<lambda>i. i \<noteq> cid) (selectedCollectionIds st);
             F = buildCombinedFilters [] sel
         in selectedCollectionIds st' = sel \<and> currentPage st' = 1 \<and>
            stories st' = Some (window c F n 0) \<and>
            hasNextStoriesPage st' = (n < length (filter (applies F) c))"
proof -
  let ?sel = "filter (\<lambda>i. i \<noteq> cid) (selectedCollectionIds st)"
  let ?st1 = "st\<lparr>selectedCollectionIds := ?sel, currentPage := 1\<rparr>"
  have w: "let st' = getAllStories (server (list_backend c) fT de collate fc fs) n 0 ?st1;
             F = buildCombinedFilters [] (selectedCollectionIds ?st1)
         in stories st' = Some (window c F n 0) \<and>
            hasNextStoriesPage st' = (0 + n < length (filter (applies F) c)) \<and> \<not> loading st'"
    using assms(1) by (rule getAllStories_window)
  then show ?thesis
    using assms(2) by (simp add: handleRemoveCollection_def refreshCollectionQueries_def Let_def)
qed

text \<open>
  The bar draws nothing exactly when there is no active filter; otherwise "Clear
  all", then one chip per NER filter with its display name, then one chip per selected
  collection with the name of the last loaded collection of that id, or the id itself.
  The mobile effect collapses the top bar exactly when the bar is drawn.
\<close>

theorem filter_chips_spec:
  "filter_chips cfg st =
     (if nerFilters st = [] \<and> selectedCollectionIds st = [] then None
      else Some (ClearAllChip # map (\<lambda>f. NerChip f (getNerDisplayName cfg f)) (nerFilters st) @
        map (\<lambda>cid. CollectionChip cid
               (case find (\<lambda>c. co_id c = cid) (rev (collections st)) of Some c \<Rightarrow> co_name c | None \<Rightarrow> cid))
            (selectedCollectionIds st))) \<and>
   collapsesTopBar isMobile st = (isMobile \<and> filter_chips cfg st \<noteq> None)"
proof
  have "collection_chips st =
        map (\<lambda>cid. CollectionChip cid
               (case find (\<lambda>c. co_id c = cid) (rev (collections st)) of Some c \<Rightarrow> co_name c | None \<Rightarrow> cid))
            (selectedCollectionIds st)"
    by (simp add: collection_chips_def selectedCollectionMap_last split: option.split)
  then show "filter_chips cfg st = (if nerFilters st = [] \<and> selectedCollectionIds st = [] then None
      else Some (ClearAllChip # map (\<lambda>f. NerChip f (getNerDisplayName cfg f)) (nerFilters st) @
        map (\<lambda>cid. CollectionChip cid
               (case find (\<lambda>c. co_id c = cid) (rev (collections st)) of Some c \<Rightarrow> co_name c | None \<Rightarrow> cid))
            (selectedCollectionIds st)))"
    by (simp add: filter_chips_def clear_chips_def ner_chips_def)
  show "collapsesTopBar isMobile st = (isMobile \<and> filter_chips cfg st \<noteq> None)"
    by (auto simp: collapsesTopBar_def filter_chips_def)
qed

text \<open>
  Deleting a NER chip removes exactly that chip and keeps the others in order, but
  issues no query: the results, the story list and the page stay those of the filters
  before the deletion.
\<close>

theorem handleRemoveFilter_no_refresh:
  "let st' = run_events a (handleRemoveFilter f st) st
   in ner_chips cfg st' = filter (\<lambda>c. c \<noteq> NerChip f (getNerDisplayName cfg f)) (ner_chips cfg st) \<and>
      collection_chips st' = collection_chips st \<and>
      result st' = result st \<and> stories st' = stories st \<and> currentPage st' = currentPage st"
  by (simp add: handleRemoveFilter_def ner_chips_def collection_chips_def selectedCollectionMap_def
      filter_map comp_def)

subsection \<open>Witnesses\<close>

text \<open>A store after a hybrid search for \<open>rome\<close> with the NER filter \<open>PER\<close> and one
  selected collection, against a search that finds the hit only without NER filter.\<close>

definition example_filter_store :: store where
  "example_filter_store =
     initial_store\<lparr>hasSearched := True, searchType := SearchType_hybrid, searchTerm := ''rome'',
       nerFilters := [''PER''], selectedCollectionIds := [''c1''], currentPage := 3\<rparr>"

definition example_filter_api :: api where
  "example_filter_api =
     example_api\<lparr>api_hybridSearch := (\<lambda>t l off f cs mn mx. Inr (if f = [] then [hit ''a'' (Some 0) None None] else []))\<rparr>"

theorem handleClearAllFilters_stale_witness:
  "nerFilters (run_events example_filter_api (handleClearAllFilters 10 0 1 example_filter_store) example_filter_store) = [] \<and>
   currentPage (run_events example_filter_api (handleClearAllFilters 10 0 1 example_filter_store) example_filter_store) = 1 \<and>
   result (run_events example_filter_api (handleClearAllFilters 10 0 1 example_filter_store) example_filter_store) = Some []"
proof -
  have h1: "selectedCollectionIds example_filter_store \<noteq> []" and h2: "hasSearched example_filter_store"
    by (simp_all add: example_filter_store_def)
  show ?thesis
    unfolding handleClearAllFilters_stale [OF h1 h2]
    by (simp add: runSearch_def search_fn_of_def example_filter_store_def example_filter_api_def)
qed

theorem handleRemoveCollection_list_backend_witness:
  "selectedCollectionIds (run_events (server (list_backend [hit ''a'' None None None]) (\<lambda>_. Inr []) (Inr []) length
       (\<lambda>_. Inr None) (\<lambda>_. Inr None)) (handleRemoveCollection 10 0 1 ''c1'' (example_filter_store\<lparr>hasSearched := False\<rparr>))
       (example_filter_store\<lparr>hasSearched := False\<rparr>)) = [] \<and>
   stories (run_events (server (list_backend [hit ''a'' None None None]) (\<lambda>_. Inr []) (Inr []) length
       (\<lambda>_. Inr None) (\<lambda>_. Inr None)) (handleRemoveCollection 10 0 1 ''c1'' (example_filter_store\<lparr>hasSearched := False\<rparr>))
       (example_filter_store\<lparr>hasSearched := False\<rparr>)) = Some [hit ''a'' None None None]"
  using handleRemoveCollection_list_backend [of 10 "example_filter_store\<lparr>hasSearched := False\<rparr>"
      "[hit ''a'' None None None]" "\<lambda>_. Inr []" "Inr []" length "\<lambda>_. Inr None" "\<lambda>_. Inr None" 0 1 "''c1''"]
  by (simp add: Let_def example_filter_store_def initial_store_def buildCombinedFilters_def window_def)

end
