(* ===== verification/Container.thy ===== *)
theory Container
  imports Store
begin

text \<open>
  The story page \<open>src/app/story/[storyUuid]/Components/StoryContainer.tsx\<close>. Its first
  effect (lines 37--61) sets the search type, starts \<open>loadTranscript\<close>, whose
  \<open>finally\<close> marks the initial fetch complete only while its own \<open>isMounted\<close> flag
  holds, and on cleanup clears the flag and the store. The store action
  \<open>getStoryTranscriptByUuid\<close> sets \<open>loading\<close> and then awaits the fetch, so its two
  halves are separate steps here: \<open>Mount\<close> runs the effect up to the \<open>await\<close>, and
  \<open>FetchResolved i r\<close> resumes run \<open>i\<close> with the response \<open>r\<close>
  (\<open>Store.transcript_response\<close>). A run of the page is any sequence of these steps, so
  fetches may resolve in any order. The second effect (lines 64--96) reads the URL
  parameters once a transcript is loaded. The render (lines 102--279) is the view it
  chooses: spinner, message or the layout, with its panels.
\<close>

subsection \<open>State and steps\<close>

text \<open>The page's state: the store, the effect runs so far (each with its own
  \<open>isMounted\<close>), the run whose flag is still set, the two \<open>useState\<close> hooks, and the
  \<open>loadTranscript\<close> calls waiting on their fetch.\<close>

record container =
  c_store :: store
  c_runs :: nat
  c_isMounted :: "nat option"
  c_hasCompletedInitialFetch :: bool
  c_mobileTabValue :: nat
  c_pending :: "(nat \<times> string) list"

text \<open>The first render: \<open>useState(0)\<close> and \<open>useState(false)\<close> (lines 21--22).\<close>

definition initial_container :: "store \<Rightarrow> container" where
  "initial_container st =
     \<lparr>c_store = st, c_runs = 0, c_isMounted = None, c_hasCompletedInitialFetch = False,
      c_mobileTabValue = 0, c_pending = []\<rparr>"

datatype container_event =
    Mount string | Cleanup | FetchResolved nat "hub option result" | MobileTabChange nat

text \<open>The effect body up to the \<open>await\<close> (lines 38--55, store lines 219--223).\<close>

definition mount_effect :: "string \<Rightarrow> container \<Rightarrow> container" where
  "mount_effect storyUuid c =
     (let i = c_runs c
      in c\<lparr>c_store := (c_store c)\<lparr>searchType := SearchType_traditional, loading := True\<rparr>,
           c_runs := Suc i, c_isMounted := Some i, c_hasCompletedInitialFetch := False,
           c_pending := c_pending c @ [(i, storyUuid)]\<rparr>)"

text \<open>The cleanup (lines 57--60).\<close>

definition cleanup_effect :: "container \<Rightarrow> container" where
  "cleanup_effect c = c\<lparr>c_isMounted := None, c_store := clearStore (c_store c)\<rparr>"

text \<open>Run \<open>i\<close> resumes after its fetch (store lines 222--265, then lines 48--52).\<close>

definition fetch_resolved :: "nat \<Rightarrow> hub option result \<Rightarrow> container \<Rightarrow> container" where
  "fetch_resolved i response c =
     (case map_of (c_pending c) i of
        None \<Rightarrow> c
      | Some _ \<Rightarrow>
          c\<lparr>c_store := transcript_response response (c_store c),
            c_pending := filter (\<lambda>p. fst p \<noteq> i) (c_pending c),
            c_hasCompletedInitialFetch := (c_hasCompletedInitialFetch c \<or> c_isMounted c = Some i)\<rparr>)"

fun container_step :: "container_event \<Rightarrow> container \<Rightarrow> container" where
  "container_step (Mount u) c = mount_effect u c"
| "container_step Cleanup c = cleanup_effect c"
| "container_step (FetchResolved i r) c = fetch_resolved i r c"
| "container_step (MobileTabChange v) c = c\<lparr>c_mobileTabValue := v\<rparr>"

definition run_container :: "container_event list \<Rightarrow> container \<Rightarrow> container" where
  "run_container evs c = fold container_step evs c"

subsection \<open>The view\<close>

datatype panel = VideoPanel | TranscriptPanel | MetadataPanel | EntitiesPanel | ProgressBarPanel

datatype container_view = Spinner | NoTranscript | StoryLayout "panel list"

text \<open>The panels of the layout (lines 132--277): on mobile the video, the panel of the
  selected tab and the progress bar; on desktop the video, the metadata, the
  transcript and the progress bar.\<close>

definition container_panels :: "bool \<Rightarrow> nat \<Rightarrow> panel list" where
  "container_panels isMobile mobileTabValue =
     (if isMobile
      then VideoPanel #
           (if mobileTabValue = 0 then [TranscriptPanel] else if mobileTabValue = 1 then [MetadataPanel]
            else if mobileTabValue = 2 then [EntitiesPanel] else []) @ [ProgressBarPanel]
      else [VideoPanel, MetadataPanel, TranscriptPanel, ProgressBarPanel])"

text \<open>The render's early returns (lines 102--130).\<close>

definition container_view :: "bool \<Rightarrow> container \<Rightarrow> container_view" where
  "container_view isMobile c =
     (let st = c_store c
      in if loading st \<or> \<not> c_hasCompletedInitialFetch c then Spinner
         else if transcript st = None \<and> c_hasCompletedInitialFetch c \<and> \<not> loading st then NoTranscript
         else StoryLayout (container_panels isMobile (c_mobileTabValue c)))"

subsection \<open>URL parameters\<close>

record url_params =
  up_start :: "string option"
  up_nerLabel :: "string option"
  up_nerFilters :: "string option"

text \<open>\<open>String.prototype.split\<close> on one character.\<close>

fun split_on :: "char \<Rightarrow> string \<Rightarrow> string list" where
  "split_on d [] = [[]]"
| "split_on d (c # cs) = (if c = d then [] # split_on d cs else (let r = split_on d cs in (c # hd r) # tl r))"

text \<open>\<open>Array.from(new Set(xs))\<close>: the first occurrence of each element, in order.\<close>

definition set_add_all :: "'a list \<Rightarrow> 'a list \<Rightarrow> 'a list" where
  "set_add_all acc xs = fold (\<lambda>x acc. if x \<in> set acc then acc else acc @ [x]) xs acc"

definition js_set_of :: "'a list \<Rightarrow> 'a list" where
  "js_set_of xs = set_add_all [] xs"

text \<open>The second effect (lines 64--96), with \<open>parseFloat\<close> a parameter (\<open>None\<close> is
  \<open>NaN\<close>): the time it seeks to and scrolls to, and the store after it. The two
  \<open>getState()\<close> calls read the store at that point of the effect.\<close>

definition url_effect :: "(string \<Rightarrow> rat option) \<Rightarrow> url_params \<Rightarrow> store \<Rightarrow> rat option \<times> store" where
  "url_effect parseFloat p st =
     (if transcript st = None then (None, st)
      else
        (let seek = (case up_start p of Some s \<Rightarrow> if s \<noteq> [] then parseFloat s else None | None \<Rightarrow> None);
             st1 = (case up_nerLabel p of
                      Some l \<Rightarrow> if l \<noteq> [] \<and> l \<notin> set (selected_ner_labels st) then setUpdateSelectedNerLabel l st else st
                    | None \<Rightarrow> st);
             st2 = (case up_nerFilters p of
                      Some nf \<Rightarrow>
                        if nf \<noteq> []
                        then st1\<lparr>selected_ner_labels :=
                               js_set_of (selected_ner_labels st1 @ map trim (split_on (CHR '','') nf))\<rparr>
                        else st1
                    | None \<Rightarrow> st1)
         in (seek, st2)))"

text \<open>\<open>handleMobileTabChange\<close> (lines 98--100) is the step \<open>MobileTabChange\<close>.\<close>


subsection \<open>The set of labels\<close>

lemma set_add_all_append: "set_add_all acc (xs @ ys) = set_add_all (set_add_all acc xs) ys"
  by (simp add: set_add_all_def)

lemma set_add_all_Nil [simp]: "set_add_all acc [] = acc"
  by (simp add: set_add_all_def)

lemma set_add_all_Cons: "set_add_all acc (x # xs) = set_add_all (if x \<in> set acc then acc else acc @ [x]) xs"
  by (simp add: set_add_all_def)

lemma set_add_all_set [simp]: "set (set_add_all acc xs) = set acc \<union> set xs"
  by (induction xs arbitrary: acc) (auto simp: set_add_all_Cons)

lemma set_add_all_distinct: "distinct acc \<Longrightarrow> distinct (set_add_all acc xs)"
  by (induction xs arbitrary: acc) (simp_all add: set_add_all_Cons)

lemma set_add_all_covered: "set xs \<subseteq> set acc \<Longrightarrow> set_add_all acc xs = acc"
  by (induction xs) (simp_all add: set_add_all_Cons)

lemma set_add_all_distinct_append: "distinct (acc @ xs) \<Longrightarrow> set_add_all acc xs = acc @ xs"
  by (induction xs arbitrary: acc) (simp_all add: set_add_all_Cons)

lemma js_set_of_distinct_append:
  "distinct xs \<Longrightarrow> js_set_of (xs @ ys) = set_add_all xs ys"
  by (simp add: js_set_of_def set_add_all_append set_add_all_distinct_append)

subsection \<open>Invariant of the page\<close>

text \<open>Every pending call belongs to an earlier run and appears once, the mounted run
  is an earlier run, and while the mounted run's fetch is pending the initial fetch
  is not complete.\<close>

definition container_inv :: "container \<Rightarrow> bool" where
  "container_inv c =
     ((\<forall>p \<in> set (c_pending c). fst p < c_runs c) \<and> distinct (map fst (c_pending c)) \<and>
      (\<forall>i. c_isMounted c = Some i \<longrightarrow> i < c_runs c \<and>
             (i \<in> fst ` set (c_pending c) \<longrightarrow> \<not> c_hasCompletedInitialFetch c)))"

lemma container_inv_initial: "container_inv (initial_container st)"
  by (simp add: container_inv_def initial_container_def)

lemma distinct_map_fst_filter: "distinct (map fst ps) \<Longrightarrow> distinct (map fst (filter P ps))"
  by (induction ps) auto

lemma container_inv_step: "container_inv c \<Longrightarrow> container_inv (container_step ev c)"
proof (cases ev)
  case (Mount u)
  assume "container_inv c"
  then show ?thesis using Mount by (fastforce simp: container_inv_def mount_effect_def Let_def)
next
  case Cleanup
  assume "container_inv c"
  then show ?thesis using Cleanup by (simp add: container_inv_def cleanup_effect_def)
next
  case (FetchResolved i r)
  assume inv: "container_inv c"
  show ?thesis
  proof (cases "map_of (c_pending c) i")
    case None
    then show ?thesis using FetchResolved inv by (simp add: fetch_resolved_def)
  next
    case (Some u)
    from inv show ?thesis using FetchResolved Some
      by (auto simp: container_inv_def fetch_resolved_def distinct_map_fst_filter)
  qed
next
  case (MobileTabChange v)
  assume "container_inv c"
  then show ?thesis using MobileTabChange by (simp add: container_inv_def)
qed

lemma container_inv_run: "container_inv c \<Longrightarrow> container_inv (run_container evs c)"
  unfolding run_container_def by (induction evs arbitrary: c) (simp_all add: container_inv_step)

lemma run_container_Cons [simp]: "run_container (ev # evs) c = run_container evs (container_step ev c)"
  by (simp add: run_container_def)

lemma run_container_Nil [simp]: "run_container [] c = c"
  by (simp add: run_container_def)

lemma transcript_response_loading [simp]: "\<not> loading (transcript_response r st)"
  by (simp add: transcript_response_def Let_def split: sum.split option.split)

text \<open>
  C31: in every state the page reaches from its first render by any interleaving of
  mounts, cleanups, fetch resolutions and tab changes, the page shows the spinner
  while the fetch of the mounted run is still pending.
\<close>

theorem container_spinner_while_pending:
  assumes "c_isMounted (run_container evs (initial_container st)) = Some i"
    and "i \<in> fst ` set (c_pending (run_container evs (initial_container st)))"
  shows "container_view isMobile (run_container evs (initial_container st)) = Spinner"
proof -
  have "container_inv (run_container evs (initial_container st))"
    by (rule container_inv_run [OF container_inv_initial])
  then have "\<not> c_hasCompletedInitialFetch (run_container evs (initial_container st))"
    using assms unfolding container_inv_def by blast
  then show ?thesis by (simp add: container_view_def)
qed

text \<open>
  C32: from any reachable state, mounting the page for a story and resolving that
  run's fetch ends the spinner: the page then shows the layout, or the message when
  the response gives no transcript.
\<close>

theorem container_mount_resolves:
  assumes "container_inv c"
  shows "let c' = run_container [Mount u, FetchResolved (c_runs c) r] c
         in container_view isMobile c' =
              (if transcript (c_store c') = None then NoTranscript
               else StoryLayout (container_panels isMobile (c_mobileTabValue c)))"
proof -
  have "map_of (c_pending c) (c_runs c) = None"
    using assms by (auto simp: container_inv_def map_of_eq_None_iff)
  then have "map_of (c_pending c @ [(c_runs c, u)]) (c_runs c) = Some u"
    by (simp add: map_of_append map_add_def)
  then show ?thesis
    by (simp add: mount_effect_def fetch_resolved_def container_view_def Let_def)
qed

text \<open>
  C30: leaving a story for another before its transcript arrives lets the first fetch
  resolve last: its response overwrites the store after the cleanup and after the new
  story's response, and the new story's page shows the first story's transcript.
\<close>

theorem container_stale_transcript:
  assumes "hub_transcription hA = Some (Inr tA)"
  shows "let c' = run_container [Mount a, Cleanup, Mount b, FetchResolved 1 rB, FetchResolved 0 (Inr (Some hA))]
                    (initial_container st)
         in transcript (c_store c') = Some tA \<and> storyHubPage (c_store c') = Some hA \<and>
            c_pending c' = [] \<and> container_view isMobile c' = StoryLayout (container_panels isMobile 0)"
  using assms
  by (simp add: initial_container_def mount_effect_def cleanup_effect_def fetch_resolved_def
      container_view_def transcript_response_def Let_def)

text \<open>The URL effect adds the label, then the filters, to the selected labels.\<close>

lemma url_effect_selection:
  assumes "transcript st \<noteq> None" and "distinct (selected_ner_labels st)"
  shows "snd (url_effect parseFloat p st) =
           st\<lparr>selected_ner_labels := set_add_all (set_add_all (selected_ner_labels st)
              (case up_nerLabel p of Some l \<Rightarrow> if l \<noteq> [] then [l] else [] | None \<Rightarrow> []))
              (case up_nerFilters p of
                 Some nf \<Rightarrow> if nf \<noteq> [] then map trim (split_on (CHR '','') nf) else [] | None \<Rightarrow> [])\<rparr>"
  using assms
  by (auto simp: url_effect_def setUpdateSelectedNerLabel_def Let_def js_set_of_distinct_append
      set_add_all_Cons split: option.split)

text \<open>
  C33: once a transcript is loaded, the URL effect adds the \<open>nerLabel\<close> parameter and the
  trimmed comma-separated \<open>nerFilters\<close> after the selected labels, each once, and
  changes nothing else of the store; run again, as on a re-render, it changes nothing.
\<close>

theorem url_effect_labels:
  assumes "transcript st \<noteq> None" and "distinct (selected_ner_labels st)"
  shows "let st' = snd (url_effect parseFloat p st);
             L = (case up_nerLabel p of Some l \<Rightarrow> if l \<noteq> [] then [l] else [] | None \<Rightarrow> []);
             F = (case up_nerFilters p of
                    Some nf \<Rightarrow> if nf \<noteq> [] then map trim (split_on (CHR '','') nf) else [] | None \<Rightarrow> [])
         in st' = st\<lparr>selected_ner_labels := js_set_of (selected_ner_labels st @ L @ F)\<rparr> \<and>
            snd (url_effect parseFloat p st') = st'"
proof -
  let ?S = "selected_ner_labels st"
  let ?L = "case up_nerLabel p of Some l \<Rightarrow> if l \<noteq> [] then [l] else [] | None \<Rightarrow> []"
  let ?F = "case up_nerFilters p of
              Some nf \<Rightarrow> if nf \<noteq> [] then map trim (split_on (CHR '','') nf) else [] | None \<Rightarrow> []"
  let ?T = "set_add_all (set_add_all ?S ?L) ?F"
  have T: "?T = js_set_of (?S @ ?L @ ?F)"
    using js_set_of_distinct_append [OF assms(2), of "?L @ ?F"] by (simp add: set_add_all_append)
  have st': "snd (url_effect parseFloat p st) = st\<lparr>selected_ner_labels := ?T\<rparr>"
    by (rule url_effect_selection [OF assms])
  have dT: "distinct ?T" using assms(2) by (simp add: set_add_all_distinct)
  have "snd (url_effect parseFloat p (st\<lparr>selected_ner_labels := ?T\<rparr>)) =
        st\<lparr>selected_ner_labels := set_add_all (set_add_all ?T ?L) ?F\<rparr>"
    using url_effect_selection [of "st\<lparr>selected_ner_labels := ?T\<rparr>"] assms(1) dT by simp
  also have "set_add_all (set_add_all ?T ?L) ?F = ?T"
  proof -
    have "set_add_all ?T ?L = ?T" by (rule set_add_all_covered) auto
    moreover have "set_add_all ?T ?F = ?T" by (rule set_add_all_covered) auto
    ultimately show ?thesis by simp
  qed
  finally show ?thesis using st' T by (simp add: Let_def)
qed

subsection \<open>Witnesses\<close>

theorem container_spinner_while_pending_witness:
  "c_isMounted (run_container [Mount ''a''] (initial_container initial_store)) = Some 0 \<and>
   container_view False (run_container [Mount ''a''] (initial_container initial_store)) = Spinner"
proof -
  have m: "c_isMounted (run_container [Mount ''a''] (initial_container initial_store)) = Some 0"
    and p: "0 \<in> fst ` set (c_pending (run_container [Mount ''a''] (initial_container initial_store)))"
    by (simp_all add: initial_container_def mount_effect_def)
  show ?thesis using m container_spinner_while_pending [OF m p] by (rule conjI)
qed

theorem container_mount_resolves_witness:
  "container_view False (run_container [Mount ''a'', FetchResolved 0 (Inr None)] (initial_container initial_store)) =
   NoTranscript"
proof -
  have inv: "container_inv (initial_container initial_store)" by (rule container_inv_initial)
  have "c_runs (initial_container initial_store) = 0" by (simp add: initial_container_def)
  then show ?thesis
    using container_mount_resolves [OF inv, where isMobile = False and u = "''a''" and r = "Inr None"]
    by (simp add: initial_container_def mount_effect_def fetch_resolved_def transcript_response_def Let_def)
qed

definition example_hub :: "string \<Rightarrow> transcription \<Rightarrow> hub" where
  "example_hub u t = \<lparr>hub_uuid = u, hub_transcription = Some (Inr t)\<rparr>"

theorem container_stale_transcript_witness:
  "transcript (c_store (run_container [Mount ''a'', Cleanup, Mount ''b'',
      FetchResolved 1 (Inr (Some (example_hub ''b'' [[[]]]))), FetchResolved 0 (Inr (Some (example_hub ''a'' [])))]
      (initial_container initial_store))) = Some [] \<and>
   container_view False (run_container [Mount ''a'', Cleanup, Mount ''b'',
      FetchResolved 1 (Inr (Some (example_hub ''b'' [[[]]]))), FetchResolved 0 (Inr (Some (example_hub ''a'' [])))]
      (initial_container initial_store)) = StoryLayout [VideoPanel, MetadataPanel, TranscriptPanel, ProgressBarPanel]"
proof -
  have h: "hub_transcription (example_hub ''a'' []) = Some (Inr [])" by (simp add: example_hub_def)
  show ?thesis
    using container_stale_transcript [OF h, where a = "''a''" and b = "''b''" and rB = "Inr (Some (example_hub ''b'' [[[]]]))"
      and st = initial_store and isMobile = False]
    by (simp add: Let_def container_panels_def)
qed

definition example_url :: url_params where
  "example_url = \<lparr>up_start = None, up_nerLabel = Some ''LOC'', up_nerFilters = Some '' PER, ORG''\<rparr>"

theorem url_effect_labels_witness:
  "selected_ner_labels (snd (url_effect (\<lambda>_. None) example_url
     (initial_store\<lparr>transcript := Some [], selected_ner_labels := [''PER'']\<rparr>))) = [''PER'', ''LOC'', ''ORG'']"
proof -
  have t: "transcript (initial_store\<lparr>transcript := Some [], selected_ner_labels := [''PER'']\<rparr>) \<noteq> None"
    and d: "distinct (selected_ner_labels (initial_store\<lparr>transcript := Some [], selected_ner_labels := [''PER'']\<rparr>))"
    by simp_all
  show ?thesis
    using url_effect_labels [OF t d, of "\<lambda>_. None" example_url]
    by (simp add: Let_def example_url_def js_set_of_def set_add_all_def trim_def is_ws_def)
qed

end
