(* ===== verification/Widgets.thy ===== *)
theory Widgets
  imports Store Config
begin

text \<open>
  Two small views of the search page that read the store: the search-type selector
  \<open>src/components/SearchTypeSelector.tsx\<close> and the NER chips of a story in the list view
  \<open>src/components/ListViewNerChips.tsx\<close>. The selector's change handler is the store
  action \<open>SetSearchType\<close>; the chips are modelled as their key, label and colour.
\<close>

subsection \<open>Search-type selector\<close>

text \<open>\<open>SEARCH_TYPE_LABELS\<close> and \<open>SEARCH_TYPE_FULL_LABELS\<close> (lines 7--17): partial records,
  with no entry for \<open>traditional\<close>.\<close>

definition SEARCH_TYPE_LABELS :: "search_type \<Rightarrow> string option" where
  "SEARCH_TYPE_LABELS t =
     (case t of SearchType_bm25 \<Rightarrow> Some ''Keyword'' | SearchType_vector \<Rightarrow> Some ''Thematic''
      | SearchType_hybrid \<Rightarrow> Some ''Hybrid'' | SearchType_traditional \<Rightarrow> None)"

definition SEARCH_TYPE_FULL_LABELS :: "search_type \<Rightarrow> string option" where
  "SEARCH_TYPE_FULL_LABELS t =
     (case t of SearchType_bm25 \<Rightarrow> Some ''Keyword Search'' | SearchType_vector \<Rightarrow> Some ''Thematic Search''
      | SearchType_hybrid \<Rightarrow> Some ''Hybrid Search'' | SearchType_traditional \<Rightarrow> None)"

text \<open>The menu items (lines 47--49) and the \<open>renderValue\<close> of the store's type (lines 30--34);
  \<open>None\<close> renders nothing.\<close>

definition search_type_items :: "search_type list" where
  "search_type_items = [SearchType_bm25, SearchType_vector, SearchType_hybrid]"

definition searchTypeSelector_value :: "bool \<Rightarrow> store \<Rightarrow> string option" where
  "searchTypeSelector_value isCompact st =
     (if isCompact then SEARCH_TYPE_LABELS (searchType st) else SEARCH_TYPE_FULL_LABELS (searchType st))"

text \<open>\<open>handleSearchTypeChange\<close> (lines 22--24).\<close>

definition handleSearchTypeChange :: "search_type \<Rightarrow> event list" where
  "handleSearchTypeChange newType = [SetSearchType newType]"

subsection \<open>NER chips of the list view\<close>

text \<open>\<open>ListViewNerChips\<close> (lines 10--37): nothing when none of the story's labels is a
  filter; otherwise a chip for every label of the story.\<close>

definition listViewNerChips :: "ner_config \<Rightarrow> wobj \<Rightarrow> store \<Rightarrow> (string \<times> string \<times> string) list option" where
  "listViewNerChips cfg s st =
     (let filteredNerLabels = filter (\<lambda>label. label \<in> set (nerFilters st)) (ner_labels s)
      in if length filteredNerLabels = 0 then None
         else Some (map (\<lambda>ner. (ner, getNerDisplayName cfg ner, getNerColor cfg ner)) (ner_labels s)))"

subsection \<open>Properties\<close>

text \<open>Every item of the menu has both labels, and the selected value renders as nothing
  exactly when the store holds \<open>traditional\<close>, the type the story page sets; a change
  sets the chosen type.\<close>

lemma searchTypeSelector_traditional:
  "(\<forall>t \<in> set search_type_items. SEARCH_TYPE_LABELS t \<noteq> None \<and> SEARCH_TYPE_FULL_LABELS t \<noteq> None) \<and>
   (searchTypeSelector_value isCompact st = None \<longleftrightarrow> searchType st = SearchType_traditional) \<and>
   searchType (run_events a (handleSearchTypeChange t) st) = t"
  by (cases "searchType st")
     (simp_all add: search_type_items_def SEARCH_TYPE_LABELS_def SEARCH_TYPE_FULL_LABELS_def
        searchTypeSelector_value_def handleSearchTypeChange_def run_events_def)

text \<open>The chips are drawn when one label of the story is a filter, and then they are all
  the story's labels, the ones that are no filter included.\<close>

lemma listViewNerChips_all_labels:
  "listViewNerChips cfg s st =
     (if set (ner_labels s) \<inter> set (nerFilters st) = {} then None
      else Some (map (\<lambda>ner. (ner, getNerDisplayName cfg ner, getNerColor cfg ner)) (ner_labels s)))"
  by (auto simp: listViewNerChips_def Let_def filter_empty_conv)

end
