(* ===== verification/Modal.thy ===== *)
theory Modal
  imports Occurrences
begin

text \<open>
  The stateful part of the entity modal
  \<open>src/app/story/[storyUuid]/Components/NerEntityModal.tsx\<close>; its pure helpers are in
  \<open>Occurrences\<close>. The modal keeps the occurrences of the entity in other recordings, the
  project-wide mention and recording counts, a loading flag, the selected tab and the
  expanded recording sections (\<open>useState\<close>, lines 252--257). Its load effect (lines
  290--312) starts \<open>Promise.all\<close> of \<open>searchNerEntitiesAcrossCollection\<close> and
  \<open>getNerEntityRecordingCounts\<close> and is not cancelled, so it is split, as in
  \<open>Container\<close>, into the effect run \<open>ModalLoad\<close> and the settling \<open>LoadSettled\<close> of a
  run's promise, and loads may settle in any order. The record readers the model's
  \<open>wobj\<close> lacks (\<open>interview_title\<close>, \<open>end_time\<close>) are parameters. The NER data records of
  the story are typed against the interface \<open>NerDataItem\<close>.
\<close>

subsection \<open>Types of the NER data\<close>

text \<open>The type of a JSON value, as \<open>typeof\<close> and \<open>Array.isArray\<close> tell them apart.\<close>

datatype json_ty = TyNull | TyBool | TyNum | TyStr | TyArr | TyObj

fun json_type :: "json \<Rightarrow> json_ty" where
  "json_type JNull = TyNull"
| "json_type (JBool b) = TyBool"
| "json_type (JNum n) = TyNum"
| "json_type (JStr s) = TyStr"
| "json_type (JArr xs) = TyArr"
| "json_type (JObj es) = TyObj"

text \<open>The interface \<open>NerDataItem\<close> (lines 39--44) as a schema, and an object conforming to
  it: each field present with its type.\<close>

definition NER_ITEM_SCHEMA :: "(string \<times> json_ty) list" where
  "NER_ITEM_SCHEMA = [(''text'', TyStr), (''label'', TyStr), (''start_time'', TyNum), (''end_time'', TyNum)]"

definition conforms :: "(string \<times> json_ty) list \<Rightarrow> json \<Rightarrow> bool" where
  "conforms schema j =
     (case j of
        JObj entries \<Rightarrow> list_all (\<lambda>(k, t). map_option json_type (map_of entries k) = Some t) schema
      | _ \<Rightarrow> False)"

text \<open>A record as the object that carries it.\<close>

definition ner_item_json :: "ner_item \<Rightarrow> json" where
  "ner_item_json n =
     JObj [(''text'', JStr (ni_text n)), (''label'', JStr (ni_label n)),
           (''start_time'', JNum (ni_start n)), (''end_time'', JNum (ni_end n))]"

subsection \<open>State and steps\<close>

record modal =
  md_runs :: nat
  md_pending :: "(nat \<times> string) list"
  md_tabValue :: nat
  md_loading :: bool
  md_collectionOccurrences :: "wobj list"
  md_projectMentionCount :: "nat option"
  md_projectRecordingCount :: "nat option"
  md_expandedSections :: "string set"

text \<open>The first render (lines 252--257).\<close>

definition initial_modal :: modal where
  "initial_modal =
     \<lparr>md_runs = 0, md_pending = [], md_tabValue = 0, md_loading = False, md_collectionOccurrences = [],
      md_projectMentionCount = None, md_projectRecordingCount = None, md_expandedSections = {}\<rparr>"

datatype modal_event =
    ModalLoad bool string string
  | LoadSettled nat "wobj list result" "string \<rightharpoonup> nat"
  | TabChange nat
  | ToggleSection string
  | ExpandAllSections bool

text \<open>The load effect up to \<open>Promise.all\<close> (lines 290--297), for the props \<open>open\<close>,
  \<open>entityText\<close> and \<open>entityLabel\<close>; its run remembers the key it reads the counts by.\<close>

definition modal_load_effect :: "bool \<Rightarrow> string \<Rightarrow> string \<Rightarrow> modal \<Rightarrow> modal" where
  "modal_load_effect isOpen entityText entityLabel m =
     (if \<not> isOpen then m
      else
        (let key = to_lower entityText @ ''|'' @ entityLabel; i = md_runs m
         in m\<lparr>md_runs := Suc i, md_pending := md_pending m @ [(i, key)],
              md_projectRecordingCount := None, md_projectMentionCount := None, md_loading := True\<rparr>))"

text \<open>Run \<open>i\<close>'s promise settles with the search's outcome and the counts (lines 298--311):
  \<open>then\<close> on success, \<open>catch\<close> on a failure, \<open>finally\<close> in both cases.\<close>

definition modal_load_settled :: "nat \<Rightarrow> wobj list result \<Rightarrow> (string \<rightharpoonup> nat) \<Rightarrow> modal \<Rightarrow> modal" where
  "modal_load_settled i searchResult counts m =
     (case map_of (md_pending m) i of
        None \<Rightarrow> m
      | Some key \<Rightarrow>
          (let m1 = m\<lparr>md_pending := filter (\<lambda>p. fst p \<noteq> i) (md_pending m)\<rparr>
           in case searchResult of
                Inl _ \<Rightarrow> m1\<lparr>md_loading := False\<rparr>
              | Inr objects \<Rightarrow>
                  m1\<lparr>md_collectionOccurrences := objects, md_projectMentionCount := Some (length objects),
                     md_projectRecordingCount := Some (case counts key of Some n \<Rightarrow> n | None \<Rightarrow> 0),
                     md_loading := False\<rparr>))"

text \<open>The groups of the project tab (\<open>occurrencesByRecording\<close>, keyed by
  \<open>theirstory_id\<close>), with the title reader a parameter.\<close>

definition modal_groups :: "(wobj \<Rightarrow> string) \<Rightarrow> modal \<Rightarrow> wobj recording_group list" where
  "modal_groups titleOf m = occurrencesByRecording theirstory_id titleOf (md_collectionOccurrences m)"

text \<open>The effect that expands every recording section (lines 386--390).\<close>

definition expand_all_sections :: "(wobj \<Rightarrow> string) \<Rightarrow> bool \<Rightarrow> modal \<Rightarrow> modal" where
  "expand_all_sections titleOf isOpen m =
     (if isOpen \<and> 0 < length (modal_groups titleOf m)
      then m\<lparr>md_expandedSections := set (map rg_theirstory_id (modal_groups titleOf m))\<rparr> else m)"

text \<open>\<open>toggleSection\<close> (lines 392--399).\<close>

definition toggleSection :: "string \<Rightarrow> modal \<Rightarrow> modal" where
  "toggleSection theirstoryId m =
     m\<lparr>md_expandedSections := (if theirstoryId \<in> md_expandedSections m
                               then md_expandedSections m - {theirstoryId}
                               else insert theirstoryId (md_expandedSections m))\<rparr>"

fun modal_step :: "(wobj \<Rightarrow> string) \<Rightarrow> modal_event \<Rightarrow> modal \<Rightarrow> modal" where
  "modal_step titleOf (ModalLoad isOpen t l) m = modal_load_effect isOpen t l m"
| "modal_step titleOf (LoadSettled i r c) m = modal_load_settled i r c m"
| "modal_step titleOf (TabChange v) m = m\<lparr>md_tabValue := v\<rparr>"
| "modal_step titleOf (ToggleSection s) m = toggleSection s m"
| "modal_step titleOf (ExpandAllSections isOpen) m = expand_all_sections titleOf isOpen m"

definition run_modal :: "(wobj \<Rightarrow> string) \<Rightarrow> modal_event list \<Rightarrow> modal \<Rightarrow> modal" where
  "run_modal titleOf evs m = fold (modal_step titleOf) evs m"

subsection \<open>Counts and labels\<close>

text \<open>\<open>recordingCount\<close>, \<open>mentionCount\<close>, \<open>mentionCountDisplay\<close> and \<open>projectTabLabel\<close>
  (lines 401--407).\<close>

definition recordingCount :: "(wobj \<Rightarrow> string) \<Rightarrow> modal \<Rightarrow> nat" where
  "recordingCount titleOf m = nullish (md_projectRecordingCount m) (length (modal_groups titleOf m))"

definition mentionCount :: "modal \<Rightarrow> nat" where
  "mentionCount m = nullish (md_projectMentionCount m) (length (md_collectionOccurrences m))"

definition mentionCountDisplay :: "modal \<Rightarrow> string" where
  "mentionCountDisplay m = (if 10000 \<le> mentionCount m then ''10,000+'' else nat_str (mentionCount m))"

definition projectTabLabel :: "(wobj \<Rightarrow> string) \<Rightarrow> modal \<Rightarrow> string" where
  "projectTabLabel titleOf m =
     (if 0 < mentionCount m \<or> 0 < length (md_collectionOccurrences m)
      then ''In the project ('' @ mentionCountDisplay m @ '' mention'' @ plural_s (mentionCount m) @ '' in '' @
           nat_str (recordingCount titleOf m) @ '' recording'' @ plural_s (recordingCount titleOf m) @ '')''
      else ''In the project'')"

text \<open>The project tab's content (lines 508--620): a spinner, the empty message, or the
  summary line and, per recording, its title, whether it is expanded and its number of
  mentions.\<close>

datatype project_view =
    ProjectLoading | ProjectEmpty | ProjectGroups string "(string \<times> bool \<times> nat) list"

definition project_view :: "(wobj \<Rightarrow> string) \<Rightarrow> modal \<Rightarrow> project_view" where
  "project_view titleOf m =
     (if md_loading m then ProjectLoading
      else if md_collectionOccurrences m = [] then ProjectEmpty
      else ProjectGroups
             (mentionCountDisplay m @ '' mention'' @ plural_s (mentionCount m) @ '' across '' @
              nat_str (recordingCount titleOf m) @ '' recording'' @ plural_s (recordingCount titleOf m))
             (map (\<lambda>g. (rg_interview_title g, rg_theirstory_id g \<in> md_expandedSections m, length (rg_occurrences g)))
                  (modal_groups titleOf m)))"

subsection \<open>Clicks\<close>

text \<open>\<open>handleCurrentInterviewClick\<close> (lines 347--357): the label is switched on if it is
  off, the player seeks to the occurrence and the transcript scrolls there (the time
  returned), and the modal closes.\<close>

definition handleCurrentInterviewClick :: "string \<Rightarrow> occurrence \<Rightarrow> store \<Rightarrow> store \<times> rat" where
  "handleCurrentInterviewClick nerLabel occ st =
     ((if nerLabel \<notin> set (selected_ner_labels st) then setUpdateSelectedNerLabel nerLabel st else st),
      oc_start occ)"

text \<open>A template literal's \<open>${x}\<close> of an optional number, with \<open>String(x)\<close> a parameter.\<close>

definition js_num_str :: "(rat \<Rightarrow> string) \<Rightarrow> rat option \<Rightarrow> string" where
  "js_num_str numStr x = (case x of Some v \<Rightarrow> numStr v | None \<Rightarrow> ''undefined'')"

text \<open>\<open>handleCollectionClick\<close> (lines 359--365): the URL it opens, if the hit has a uuid.\<close>

definition handleCollectionClick ::
  "(rat \<Rightarrow> string) \<Rightarrow> string \<Rightarrow> (wobj \<Rightarrow> rat option) \<Rightarrow> wobj \<Rightarrow> string option" where
  "handleCollectionClick numStr entityLabel endOf occurrence =
     (if obj_id occurrence \<noteq> []
      then Some (''/story/'' @ theirstory_id occurrence @ ''?start='' @ js_num_str numStr (start_time occurrence) @
                 ''&end='' @ js_num_str numStr (endOf occurrence) @ ''&nerLabel='' @ entityLabel)
      else None)"


subsection \<open>The type guard\<close>

lemma json_type_TyStr [simp]: "json_type j = TyStr \<longleftrightarrow> (\<exists>s. j = JStr s)"
  by (cases j) simp_all

lemma json_type_TyNum [simp]: "json_type j = TyNum \<longleftrightarrow> (\<exists>n. j = JNum n)"
  by (cases j) simp_all

lemma as_ner_item_conforms: "as_ner_item j \<noteq> None \<longleftrightarrow> conforms NER_ITEM_SCHEMA j"
proof (cases j)
  case (JObj entries)
  then show ?thesis
    by (auto simp: as_ner_item_def conforms_def NER_ITEM_SCHEMA_def split: option.split json.split)
qed (simp_all add: as_ner_item_def conforms_def)

lemma normalizeNerData_filter:
  "normalizeNerData js = map (the \<circ> as_ner_item) (filter (conforms NER_ITEM_SCHEMA) js)"
  unfolding normalizeNerData_def List.map_filter_def as_ner_item_conforms ..

text \<open>
  C34: the type guard of \<open>normalizeNerData\<close> accepts exactly the objects that conform
  to \<open>NerDataItem\<close>, and the NER data keep one record per conforming entry, in order;
  a record's object is read back as the record.
\<close>

theorem normalizeNerData_type:
  "(as_ner_item j \<noteq> None \<longleftrightarrow> conforms NER_ITEM_SCHEMA j) \<and>
   normalizeNerData js = map (the \<circ> as_ner_item) (filter (conforms NER_ITEM_SCHEMA) js) \<and>
   conforms NER_ITEM_SCHEMA (ner_item_json n) \<and>
   normalizeNerData (map ner_item_json ns) = ns"
proof (intro conjI)
  show "as_ner_item j \<noteq> None \<longleftrightarrow> conforms NER_ITEM_SCHEMA j" by (rule as_ner_item_conforms)
  show "normalizeNerData js = map (the \<circ> as_ner_item) (filter (conforms NER_ITEM_SCHEMA) js)"
    by (rule normalizeNerData_filter)
  have rt: "as_ner_item (ner_item_json n) = Some n" for n
    by (simp add: as_ner_item_def ner_item_json_def)
  then show "conforms NER_ITEM_SCHEMA (ner_item_json n)"
    using as_ner_item_conforms by blast
  show "normalizeNerData (map ner_item_json ns) = ns"
    by (induction ns) (simp_all add: normalizeNerData_def List.map_filter_simps rt)
qed

subsection \<open>Loading\<close>

text \<open>Every pending load belongs to an earlier run.\<close>

definition modal_inv :: "modal \<Rightarrow> bool" where
  "modal_inv m = (\<forall>p \<in> set (md_pending m). fst p < md_runs m)"

lemma modal_inv_initial: "modal_inv initial_modal"
  by (simp add: modal_inv_def initial_modal_def)

lemma modal_inv_step: "modal_inv m \<Longrightarrow> modal_inv (modal_step titleOf ev m)"
  by (cases ev)
     (auto simp: modal_inv_def modal_load_effect_def modal_load_settled_def Let_def toggleSection_def
        expand_all_sections_def split: option.split sum.split)

lemma modal_inv_run: "modal_inv m \<Longrightarrow> modal_inv (run_modal titleOf evs m)"
  unfolding run_modal_def by (induction evs arbitrary: m) (simp_all add: modal_inv_step)

lemma run_modal_Cons [simp]: "run_modal titleOf (ev # evs) m = run_modal titleOf evs (modal_step titleOf ev m)"
  by (simp add: run_modal_def)

lemma run_modal_Nil [simp]: "run_modal titleOf [] m = m"
  by (simp add: run_modal_def)

text \<open>A load opened and settled with the outcome \<open>r\<close> and the counts \<open>c\<close>.\<close>

lemma modal_load_then_settle:
  assumes "modal_inv m"
  shows "run_modal titleOf [ModalLoad True t l, LoadSettled (md_runs m) r c] m =
         (let m1 = m\<lparr>md_runs := Suc (md_runs m), md_projectRecordingCount := None,
                      md_projectMentionCount := None, md_loading := False\<rparr>
          in case r of
               Inl _ \<Rightarrow> m1
             | Inr objects \<Rightarrow>
                 m1\<lparr>md_collectionOccurrences := objects, md_projectMentionCount := Some (length objects),
                    md_projectRecordingCount := Some (nullish (c (NER_ENTITY_RECORDING_COUNT_KEY t l)) 0)\<rparr>)"
proof -
  have none: "map_of (md_pending m) (md_runs m) = None"
    using assms by (auto simp: modal_inv_def map_of_eq_None_iff)
  then have "map_of (md_pending m @ [(md_runs m, to_lower t @ ''|'' @ l)]) (md_runs m) = Some (to_lower t @ ''|'' @ l)"
    by (simp add: map_of_append map_add_def)
  moreover have "filter (\<lambda>p. fst p \<noteq> md_runs m) (md_pending m) = md_pending m"
    using assms by (auto simp: modal_inv_def filter_id_conv)
  ultimately show ?thesis
    by (simp add: modal_load_effect_def modal_load_settled_def NER_ENTITY_RECORDING_COUNT_KEY_def Let_def
        split: sum.split option.split)
qed

text \<open>\<open>String(n)\<close> is never the capped display.\<close>

lemma nat_str_not_capped: "nat_str n \<noteq> ''10,000+''"
proof
  assume "nat_str n = ''10,000+''"
  then have "of_char (last (nat_str n)) = (43::nat)" by simp
  moreover have "of_char (last (nat_str n)) = (48 + n mod 10 :: nat)"
    using nat_str_last [of n] by (simp add: of_char_of)
  ultimately show False by simp
qed

lemma getNerEntityRecordingCounts_single:
  "getNerEntityRecordingCounts bk [(t, l)] (NER_ENTITY_RECORDING_COUNT_KEY t l) = Some (count_for bk (t, l))"
  by (simp add: getNerEntityRecordingCounts_def put_count_def)

lemma searchNerEntitiesAcrossCollection_bound:
  assumes "backend_sound bk" and "searchNerEntitiesAcrossCollection bk t l u limit = Inr objs"
  shows "length objs \<le> limit"
proof -
  have "bk_fetch bk (Some (cross_collection_filter t l u)) limit 0 = Inr objs"
    using assms(2) by (simp add: searchNerEntitiesAcrossCollection_def split: sum.splits)
  then show ?thesis using assms(1) unfolding backend_sound_def by blast
qed

text \<open>
  C35: opening the modal for an entity and letting its load settle against the server
  functions gives, when the project-wide search succeeds, its hits as the collection
  occurrences, their number as the mention count and the on-demand recording count of
  the (text, label) pair as the recording count; over a datastore that keeps its
  contract the mention count is at most \<open>10000\<close>, shown as "10,000+" exactly when the
  search returned its full \<open>10000\<close> hits.
\<close>

theorem modal_load_counts:
  assumes "modal_inv m" and "backend_sound bk"
    and "searchNerEntitiesAcrossCollection bk t l u 10000 = Inr objs"
  shows "let m' = run_modal titleOf [ModalLoad True t l,
                    LoadSettled (md_runs m) (searchNerEntitiesAcrossCollection bk t l u 10000)
                      (getNerEntityRecordingCounts bk [(t, l)])] m
         in \<not> md_loading m' \<and> md_collectionOccurrences m' = objs \<and> mentionCount m' = length objs \<and>
            recordingCount titleOf m' = count_for bk (t, l) \<and> mentionCount m' \<le> 10000 \<and>
            (mentionCountDisplay m' = ''10,000+'' \<longleftrightarrow> length objs = 10000)"
proof -
  have b: "length objs \<le> 10000" by (rule searchNerEntitiesAcrossCollection_bound [OF assms(2,3)])
  show ?thesis
    unfolding modal_load_then_settle [OF assms(1)]
    using b nat_str_not_capped [of "length objs"]
    by (simp add: assms(3) getNerEntityRecordingCounts_single
        mentionCount_def recordingCount_def mentionCountDisplay_def Let_def)
qed

text \<open>
  C36: when the project-wide search of a newly opened entity fails, the load clears the
  counts and the loading flag but keeps the occurrences of the entity shown before:
  the project tab then counts and lists the previous entity's hits.
\<close>

theorem modal_load_failure_stale:
  assumes "modal_inv m" and "searchNerEntitiesAcrossCollection bk t l u 10000 = Inl e"
  shows "let m' = run_modal titleOf [ModalLoad True t l,
                    LoadSettled (md_runs m) (searchNerEntitiesAcrossCollection bk t l u 10000)
                      (getNerEntityRecordingCounts bk [(t, l)])] m
         in \<not> md_loading m' \<and> md_projectMentionCount m' = None \<and> md_projectRecordingCount m' = None \<and>
            md_collectionOccurrences m' = md_collectionOccurrences m \<and>
            mentionCount m' = length (md_collectionOccurrences m) \<and>
            modal_groups titleOf m' = modal_groups titleOf m"
  unfolding modal_load_then_settle [OF assms(1)]
  by (simp add: assms(2) mentionCount_def modal_groups_def Let_def)

subsection \<open>Clicks\<close>

text \<open>
  C37: choosing an occurrence in the current interview switches its label on and never
  off, leaves the other labels as they were and keeps the selection free of
  duplicates, and seeks to the occurrence's start.
\<close>

theorem handleCurrentInterviewClick_selects:
  assumes "distinct (selected_ner_labels st)"
  shows "let (st', t) = handleCurrentInterviewClick nerLabel occ st
         in nerLabel \<in> set (selected_ner_labels st') \<and>
            set (selected_ner_labels st') = insert nerLabel (set (selected_ner_labels st)) \<and>
            distinct (selected_ner_labels st') \<and> t = oc_start occ \<and>
            st' = st\<lparr>selected_ner_labels := selected_ner_labels st'\<rparr>"
  using assms by (auto simp: handleCurrentInterviewClick_def setUpdateSelectedNerLabel_def Let_def)

subsection \<open>Witnesses\<close>

definition example_corpus :: "wobj list" where
  "example_corpus = [chunk ''s1'' [''paris''] [''LOC''], chunk ''s2'' [''paris''] [''LOC''], chunk ''s3'' [''rome''] [''LOC'']]"

theorem modal_load_counts_witness:
  "md_collectionOccurrences (run_modal (\<lambda>_. []) [ModalLoad True ''paris'' ''LOC'',
      LoadSettled 0 (searchNerEntitiesAcrossCollection (list_backend example_corpus) ''paris'' ''LOC'' ''s9'' 10000)
        (getNerEntityRecordingCounts (list_backend example_corpus) [(''paris'', ''LOC'')])] initial_modal) =
     [chunk ''s1'' [''paris''] [''LOC''], chunk ''s2'' [''paris''] [''LOC'']] \<and>
   recordingCount (\<lambda>_. []) (run_modal (\<lambda>_. []) [ModalLoad True ''paris'' ''LOC'',
      LoadSettled 0 (searchNerEntitiesAcrossCollection (list_backend example_corpus) ''paris'' ''LOC'' ''s9'' 10000)
        (getNerEntityRecordingCounts (list_backend example_corpus) [(''paris'', ''LOC'')])] initial_modal) =
     count_for (list_backend example_corpus) (''paris'', ''LOC'')"
proof -
  have i: "modal_inv initial_modal" by (rule modal_inv_initial)
  have s: "backend_sound (list_backend example_corpus)" by (rule backend_sound_list_backend)
  have r: "searchNerEntitiesAcrossCollection (list_backend example_corpus) ''paris'' ''LOC'' ''s9'' 10000 =
           Inr [chunk ''s1'' [''paris''] [''LOC''], chunk ''s2'' [''paris''] [''LOC'']]"
    by (simp add: searchNerEntitiesAcrossCollection_def list_backend_def window_def example_corpus_def
        cross_collection_filter_def chunk_def to_lower_def lower_char_def)
  have "md_runs initial_modal = 0" by (simp add: initial_modal_def)
  then show ?thesis
    using modal_load_counts [OF i s r, where titleOf = "\<lambda>_. []"] by (simp add: Let_def)
qed

theorem modal_load_failure_stale_witness:
  "md_collectionOccurrences (run_modal (\<lambda>_. []) [ModalLoad True ''rome'' ''LOC'',
      LoadSettled 0 (searchNerEntitiesAcrossCollection ((list_backend [])\<lparr>bk_fetch := \<lambda>f l off. Inl (DependencyUnavailable ''down'')\<rparr>)
        ''rome'' ''LOC'' ''s9'' 10000)
        (getNerEntityRecordingCounts ((list_backend [])\<lparr>bk_fetch := \<lambda>f l off. Inl (DependencyUnavailable ''down'')\<rparr>) [(''rome'', ''LOC'')])]
      (initial_modal\<lparr>md_collectionOccurrences := example_corpus\<rparr>)) =
     example_corpus \<and>
   mentionCount (run_modal (\<lambda>_. []) [ModalLoad True ''rome'' ''LOC'',
      LoadSettled 0 (searchNerEntitiesAcrossCollection ((list_backend [])\<lparr>bk_fetch := \<lambda>f l off. Inl (DependencyUnavailable ''down'')\<rparr>)
        ''rome'' ''LOC'' ''s9'' 10000)
        (getNerEntityRecordingCounts ((list_backend [])\<lparr>bk_fetch := \<lambda>f l off. Inl (DependencyUnavailable ''down'')\<rparr>) [(''rome'', ''LOC'')])]
      (initial_modal\<lparr>md_collectionOccurrences := example_corpus\<rparr>)) = 3"
proof -
  have i: "modal_inv (initial_modal\<lparr>md_collectionOccurrences := example_corpus\<rparr>)"
    by (simp add: modal_inv_def initial_modal_def)
  have e: "searchNerEntitiesAcrossCollection ((list_backend [])\<lparr>bk_fetch := \<lambda>f l off. Inl (DependencyUnavailable ''down'')\<rparr>)
        ''rome'' ''LOC'' ''s9'' 10000 = Inl (DependencyUnavailable ''Failed to search NER entities across collection'')"
    by (simp add: searchNerEntitiesAcrossCollection_def)
  have "md_runs (initial_modal\<lparr>md_collectionOccurrences := example_corpus\<rparr>) = 0"
    by (simp add: initial_modal_def)
  moreover note modal_load_failure_stale [OF i e, where titleOf = "\<lambda>_. []"]
  ultimately show ?thesis
    by (simp add: Let_def initial_modal_def example_corpus_def)
qed

theorem handleCurrentInterviewClick_selects_witness:
  "selected_ner_labels (fst (handleCurrentInterviewClick ''LOC''
      \<lparr>oc_text = ''Paris'', oc_start = 5, oc_end = 6, oc_context = [], oc_expandedContext = []\<rparr>
      (initial_store\<lparr>selected_ner_labels := [''PER'']\<rparr>))) = [''PER'', ''LOC'']"
proof -
  have d: "distinct (selected_ner_labels (initial_store\<lparr>selected_ner_labels := [''PER'']\<rparr>))" by simp
  show ?thesis
    using handleCurrentInterviewClick_selects [OF d, where nerLabel = "''LOC''"
        and occ = "\<lparr>oc_text = ''Paris'', oc_start = 5, oc_end = 6, oc_context = [], oc_expandedContext = []\<rparr>"]
    by (simp add: handleCurrentInterviewClick_def setUpdateSelectedNerLabel_def Let_def)
qed

end
