(* ===== verification/Highlight.thy ===== *)
theory Highlight
  imports Modal
begin

text \<open>
  The highlighted contexts of the entity modal (\<open>NerEntityModal.tsx\<close>).
  \<open>createHighlightedParts\<close> (lines 169--183) builds the regular expression
  \<open>\b<entity>\b\<close> with flags \<open>gi\<close> from the entity text escaped by \<open>escapeRegExp\<close>
  (line 167), which escapes every character that is special outside a class, so the
  pattern matches the entity literally, ignoring case, between two word boundaries.
  The model states that matching directly: \<open>\w\<close> is \<open>[A-Za-z0-9_]\<close>, a boundary is a
  position where a word character meets a non-word character or an end, and case is
  folded on ASCII as by \<open>to_lower\<close>. \<open>String.prototype.match\<close> with \<open>g\<close> lists the
  leftmost non-overlapping matches (an empty match advances by one);
  \<open>String.prototype.split\<close> cuts at the matches, skipping an empty match at its last
  cut or at the end. The component \<open>ExpandableHighlightedText\<close> (lines 91--165)
  chooses the parts it draws and whether to offer "Expand more".
\<close>

subsection \<open>Matching\<close>

definition is_word_char :: "char \<Rightarrow> bool" where
  "is_word_char c \<longleftrightarrow>
     (CHR ''a'' \<le> c \<and> c \<le> CHR ''z'') \<or> (CHR ''A'' \<le> c \<and> c \<le> CHR ''Z'') \<or>
     (CHR ''0'' \<le> c \<and> c \<le> CHR ''9'') \<or> c = CHR ''_''"

text \<open>\<open>\b\<close> at position \<open>p\<close>.\<close>

definition boundary :: "string \<Rightarrow> nat \<Rightarrow> bool" where
  "boundary s p \<longleftrightarrow>
     (0 < p \<and> p \<le> length s \<and> is_word_char (s ! (p - 1))) \<noteq> (p < length s \<and> is_word_char (s ! p))"

text \<open>The pattern matches at \<open>p\<close>.\<close>

definition matches_at :: "string \<Rightarrow> string \<Rightarrow> nat \<Rightarrow> bool" where
  "matches_at s e p \<longleftrightarrow>
     p + length e \<le> length s \<and> to_lower (take (length e) (drop p s)) = to_lower e \<and>
     boundary s p \<and> boundary s (p + length e)"

text \<open>The start positions of the global search from \<open>p\<close> (\<open>lastIndex\<close>).\<close>

function match_positions :: "string \<Rightarrow> string \<Rightarrow> nat \<Rightarrow> nat list" where
  "match_positions s e p =
     (if length s < p then []
      else if matches_at s e p then p # match_positions s e (p + max 1 (length e))
      else match_positions s e (Suc p))"
  by pat_completeness auto
termination by (relation "measure (\<lambda>(s, e, p). Suc (length s) - p)") auto

declare match_positions.simps [simp del]

text \<open>\<open>text.match(entityRegex)\<close>: the matched strings (an empty list is \<open>null\<close>).\<close>

definition js_match :: "string \<Rightarrow> string \<Rightarrow> string list" where
  "js_match s e = map (\<lambda>q. take (length e) (drop q s)) (match_positions s e 0)"

text \<open>The positions \<open>text.split(entityRegex)\<close> cuts at.\<close>

definition split_positions :: "string \<Rightarrow> string \<Rightarrow> nat list" where
  "split_positions s e =
     (if e = [] then filter (\<lambda>q. 0 < q \<and> q < length s) (match_positions s e 0) else match_positions s e 0)"

text \<open>The pieces between the cuts, each cut removing \<open>n\<close> characters.\<close>

fun cut_parts :: "string \<Rightarrow> nat \<Rightarrow> nat \<Rightarrow> nat list \<Rightarrow> string list" where
  "cut_parts s n p [] = [drop p s]"
| "cut_parts s n p (q # qs) = take (q - p) (drop p s) # cut_parts s n (q + n) qs"

text \<open>The \<open>reduce\<close> of lines 174--182: each piece but the last is followed by a mark
  holding \<open>matches[matchIndex] || entityText\<close>.\<close>

fun interleave_parts :: "string list \<Rightarrow> string list \<Rightarrow> string \<Rightarrow> hpart list" where
  "interleave_parts [] ms d = []"
| "interleave_parts [x] ms d = [HText x]"
| "interleave_parts (x # y # xs) ms d =
     HText x # HMark (js_or (case ms of [] \<Rightarrow> [] | m # _ \<Rightarrow> m) d) # interleave_parts (y # xs) (tl ms) d"

definition createHighlightedParts :: "string \<Rightarrow> string \<Rightarrow> hpart list" where
  "createHighlightedParts text entityText =
     (let matches = js_match text entityText
      in if matches = [] then [HText text]
         else interleave_parts (cut_parts text (length entityText) 0 (split_positions text entityText))
                matches entityText)"

text \<open>The highlighted parts of \<open>getContextAroundTime\<close> (lines 218--243): the collapsed
  and expanded windows and their highlighted parts.\<close>

definition getHighlightedContext :: "word list \<Rightarrow> rat \<Rightarrow> rat \<Rightarrow> string \<Rightarrow> hpart list \<times> hpart list" where
  "getHighlightedContext words targetStartTime targetEndTime entityText =
     (if words = [] then ([], [])
      else (let (collapsed, expanded) = getContextAroundTime words targetStartTime targetEndTime
            in (createHighlightedParts collapsed entityText, createHighlightedParts expanded entityText)))"

subsection \<open>Expandable text\<close>

text \<open>The props of \<open>ExpandableHighlightedText\<close>; an absent array is \<open>None\<close>.\<close>

record expandable =
  ex_collapsedText :: string
  ex_expandedText :: string
  ex_collapsedParts :: "hpart list option"
  ex_expandedParts :: "hpart list option"

definition plain_text :: "hpart list \<Rightarrow> string" where
  "plain_text parts = concat (map hpart_text parts)"

text \<open>\<open>collapsedPlainText\<close> and \<open>expandedPlainText\<close> (lines 100--112).\<close>

definition collapsedPlainText :: "expandable \<Rightarrow> string" where
  "collapsedPlainText x =
     (case ex_collapsedParts x of Some ps \<Rightarrow> if ps \<noteq> [] then plain_text ps else ex_collapsedText x
      | None \<Rightarrow> ex_collapsedText x)"

definition expandedPlainText :: "expandable \<Rightarrow> string" where
  "expandedPlainText x =
     (case ex_expandedParts x of Some ps \<Rightarrow> if ps \<noteq> [] then plain_text ps else js_or (ex_expandedText x) (ex_collapsedText x)
      | None \<Rightarrow> js_or (ex_expandedText x) (ex_collapsedText x))"

text \<open>\<open>showExpand\<close> (lines 114--115): more text once trimmed, or an ellipsis.\<close>

definition showExpand :: "expandable \<Rightarrow> bool" where
  "showExpand x \<longleftrightarrow>
     length (trim (collapsedPlainText x)) < length (trim (expandedPlainText x)) \<or>
     sublist ''...'' (collapsedPlainText x)"

text \<open>\<open>partsToRender\<close> (lines 117--119): an array, even an empty one, is truthy.\<close>

definition partsToRender :: "bool \<Rightarrow> expandable \<Rightarrow> hpart list" where
  "partsToRender expanded x =
     (if expanded then (case ex_expandedParts x of Some ps \<Rightarrow> ps | None \<Rightarrow> [HText (js_or (ex_expandedText x) (ex_collapsedText x))])
      else (case ex_collapsedParts x of Some ps \<Rightarrow> ps | None \<Rightarrow> [HText (ex_collapsedText x)]))"


subsection \<open>The parts cover the text\<close>

text \<open>Cut positions in order, each cut inside the text.\<close>

fun spaced :: "nat \<Rightarrow> nat \<Rightarrow> nat \<Rightarrow> nat list \<Rightarrow> bool" where
  "spaced len n p [] = True"
| "spaced len n p (q # qs) = (p \<le> q \<and> q + n \<le> len \<and> spaced len n (q + n) qs)"

lemma spaced_mono: "spaced len n p qs \<Longrightarrow> p' \<le> p \<Longrightarrow> spaced len n p' qs"
  by (cases qs) auto

lemma spaced_filter: "spaced len 0 p qs \<Longrightarrow> spaced len 0 p (filter P qs)"
  by (induction qs arbitrary: p) (auto intro: spaced_mono)

lemma match_positions_spaced:
  "spaced (length s) (length e) p (match_positions s e p)"
proof (induction s e p rule: match_positions.induct)
  case (1 s e p)
  show ?case
  proof (cases "length s < p")
    case False
    show ?thesis
    proof (cases "matches_at s e p")
      case True
      then have "p + length e \<le> length s" by (simp add: matches_at_def)
      moreover have "spaced (length s) (length e) (p + length e) (match_positions s e (p + max 1 (length e)))"
        using "1.IH"(1) [OF False True] by (rule spaced_mono) simp
      ultimately show ?thesis using False True by (simp add: match_positions.simps [of s e p])
    next
      case nm: False
      have "spaced (length s) (length e) p (match_positions s e (Suc p))"
        using "1.IH"(2) [OF False nm] by (rule spaced_mono) simp
      then show ?thesis using False nm by (simp add: match_positions.simps [of s e p])
    qed
  qed (simp add: match_positions.simps [of s e p])
qed

lemma match_positions_matches: "q \<in> set (match_positions s e p) \<Longrightarrow> matches_at s e q"
proof (induction s e p rule: match_positions.induct)
  case (1 s e p)
  then show ?case
    by (cases "length s < p"; cases "matches_at s e p") (auto simp: match_positions.simps [of s e p])
qed

text \<open>The mark after the \<open>i\<close>-th piece reads \<open>matches[i] || d\<close>.\<close>

definition mark_of :: "string list \<Rightarrow> string \<Rightarrow> nat \<Rightarrow> string" where
  "mark_of ms d i = js_or (if i < length ms then ms ! i else []) d"

lemma cut_parts_Cons: "\<exists>y ys. cut_parts s n p qs = y # ys"
  by (cases qs) simp_all

lemma interleave_parts_cut:
  assumes "spaced (length s) n p qs"
    and "\<forall>i < length qs. mark_of ms d i = take n (drop (qs ! i) s)"
  shows "concat (map hpart_text (interleave_parts (cut_parts s n p qs) ms d)) = drop p s \<and>
         set [m. HMark m \<leftarrow> interleave_parts (cut_parts s n p qs) ms d] =
           (\<lambda>q. take n (drop q s)) ` set qs"
  using assms
proof (induction qs arbitrary: p ms)
  case Nil
  then show ?case by simp
next
  case (Cons q qs)
  obtain y ys where c: "cut_parts s n (q + n) qs = y # ys" using cut_parts_Cons by blast
  have m0: "js_or (case ms of [] \<Rightarrow> [] | m # _ \<Rightarrow> m) d = take n (drop q s)"
    using Cons.prems(2) [rule_format, of 0] by (cases ms) (simp_all add: mark_of_def)
  have ms: "\<forall>i < length qs. mark_of (tl ms) d i = take n (drop (qs ! i) s)"
    using Cons.prems(2) by (cases ms) (auto simp: mark_of_def)
  have sp: "p \<le> q" "q + n \<le> length s" "spaced (length s) n (q + n) qs" using Cons.prems(1) by simp_all
  have ih: "concat (map hpart_text (interleave_parts (y # ys) (tl ms) d)) = drop (q + n) s \<and>
      set [m. HMark m \<leftarrow> interleave_parts (y # ys) (tl ms) d] = (\<lambda>q. take n (drop q s)) ` set qs"
    using Cons.IH [OF sp(3) ms] c by simp
  have "take (q - p) (drop p s) @ take n (drop q s) @ drop (q + n) s = drop p s"
  proof -
    have "take n (drop q s) @ drop (q + n) s = drop q s" by (metis add.commute append_take_drop_id drop_drop)
    moreover have "take (q - p) (drop p s) @ drop q s = drop p s"
      using sp(1) by (metis append_take_drop_id drop_drop le_add_diff_inverse2)
    ultimately show ?thesis by simp
  qed
  then show ?case using ih m0 c by simp
qed

lemma cut_parts_length: "length (cut_parts s n p qs) = Suc (length qs)"
  by (induction qs arbitrary: p) simp_all

text \<open>
  C38: the highlighted parts of a text concatenate back to the text, and every
  highlighted part is an occurrence of the entity, equal to it up to case, that
  \<open>createHighlightedParts\<close> found between two word boundaries; with no occurrence the
  text is one plain part.
\<close>

theorem createHighlightedParts_roundtrip:
  "concat (map hpart_text (createHighlightedParts src e)) = src \<and>
   set [m. HMark m \<leftarrow> createHighlightedParts src e] =
     (\<lambda>q. take (length e) (drop q src)) ` set (split_positions src e) \<and>
   (\<forall>q \<in> set (split_positions src e). matches_at src e q) \<and>
   (js_match src e = [] \<longrightarrow> createHighlightedParts src e = [HText src])"
proof -
  let ?qs = "split_positions src e"
  have sp: "spaced (length src) (length e) 0 ?qs"
    using match_positions_spaced [of src e 0]
    by (auto simp: split_positions_def intro: spaced_filter)
  have sub: "set ?qs \<subseteq> set (match_positions src e 0)" by (auto simp: split_positions_def)
  have mk: "\<forall>i < length ?qs. mark_of (js_match src e) e i = take (length e) (drop (?qs ! i) src)"
  proof (cases "e = []")
    case True
    then show ?thesis by (simp add: mark_of_def js_match_def js_or_def)
  next
    case False
    then have q: "?qs = match_positions src e 0" by (simp add: split_positions_def)
    have "take (length e) (drop (?qs ! i) src) \<noteq> []" if "i < length ?qs" for i
    proof -
      have "matches_at src e (?qs ! i)" using that match_positions_matches q by (metis nth_mem)
      then show ?thesis using False by (cases e) (auto simp: matches_at_def)
    qed
    then show ?thesis using q by (simp add: mark_of_def js_match_def js_or_def)
  qed
  have m: "\<forall>q \<in> set ?qs. matches_at src e q" using sub match_positions_matches by blast
  show ?thesis
  proof (cases "js_match src e = []")
    case True
    then show ?thesis using m by (auto simp: createHighlightedParts_def js_match_def split_positions_def)
  next
    case False
    then show ?thesis
      using interleave_parts_cut [OF sp mk] m by (simp add: createHighlightedParts_def)
  qed
qed

subsection \<open>Examples\<close>

theorem createHighlightedParts_roundtrip_witness:
  "concat (map hpart_text (createHighlightedParts ''a Paris.'' ''paris'')) = ''a Paris.'' \<and>
   createHighlightedParts ''a Paris.'' ''paris'' = [HText ''a '', HMark ''Paris'', HText ''.'']"
proof
  show "concat (map hpart_text (createHighlightedParts ''a Paris.'' ''paris'')) = ''a Paris.''"
    by (rule createHighlightedParts_roundtrip [THEN conjunct1])
  show "createHighlightedParts ''a Paris.'' ''paris'' = [HText ''a '', HMark ''Paris'', HText ''.'']"
    by code_simp
qed

text \<open>An entity that ends with a non-word character needs a word character after it for
  the closing \<open>\b\<close>, so it is not highlighted before a space.\<close>

lemma createHighlightedParts_trailing_punctuation:
  "createHighlightedParts ''the U.S. army'' ''U.S.'' = [HText ''the U.S. army'']"
  by code_simp

end
