(* ===== verification/IndexesPage.thy ===== *)
theory IndexesPage
  imports Indexes
begin

text \<open>
  The state and the view of the indexes page \<open>src/app/indexes/page.tsx\<close>; its memos
  and the story filter are in \<open>Indexes\<close>. The page loads \<open>/api/indexes\<close> once in an
  effect (lines 55--76) whose cleanup sets its \<open>cancelled\<close> flag, so a response that
  arrives after the cleanup writes nothing. As in \<open>Container\<close>, the effect is split at
  its \<open>fetch\<close>: \<open>PageMount\<close> starts a run, \<open>PageCleanup\<close> cancels it and
  \<open>FetchSettled i r\<close> resumes run \<open>i\<close> with the response \<open>r\<close>; React may run the
  effect, clean it up and run it again, and responses may arrive in any order. The
  response body is the \<open>IndexesApiResponse\<close> (stories and chapters by story id), and
  the messages of a network or parse error are values of the response.
\<close>

subsection \<open>State and steps\<close>

record idx_data =
  d_stories :: "indexes_story list"
  d_chaptersByStoryId :: "(string \<times> index_chapter list) list"

datatype view_mode = ListView | HorizontalView

text \<open>What \<open>fetch('/api/indexes')\<close> and \<open>res.json()\<close> give: a rejected fetch with its
  message, or a response with its \<open>ok\<close> flag and its parsed body or the parse error's
  message.\<close>

datatype fetch_response = FetchRejected string | FetchResponse bool "string + idx_data"

record idx_page =
  ip_viewMode :: view_mode
  ip_data :: "idx_data option"
  ip_loading :: bool
  ip_error :: "string option"
  ip_searchQuery :: string
  ip_selectedCollectionIds :: "string list"
  ip_collectionMenuOpen :: bool
  ip_collectionFilterTerm :: string
  ip_runs :: nat
  ip_live :: "nat set"
  ip_pending :: "nat list"

text \<open>The first render (lines 45--52).\<close>

definition initial_idx_page :: idx_page where
  "initial_idx_page =
     \<lparr>ip_viewMode = ListView, ip_data = None, ip_loading = True, ip_error = None, ip_searchQuery = [],
      ip_selectedCollectionIds = [], ip_collectionMenuOpen = False, ip_collectionFilterTerm = [],
      ip_runs = 0, ip_live = {}, ip_pending = []\<rparr>"

datatype idx_event =
    PageMount | PageCleanup nat | FetchSettled nat fetch_response
  | SetSearchQuery string | CollectionToggle string | OpenCollectionMenu | CloseCollectionMenu
  | SetCollectionFilterTerm string | ViewChange "view_mode option"

text \<open>The effect up to \<open>fetch\<close> (lines 55--59); its run's \<open>cancelled\<close> is false while
  the run is live.\<close>

definition page_mount :: "idx_page \<Rightarrow> idx_page" where
  "page_mount p =
     (let i = ip_runs p
      in p\<lparr>ip_loading := True, ip_error := None, ip_runs := Suc i, ip_live := insert i (ip_live p),
           ip_pending := ip_pending p @ [i]\<rparr>)"

text \<open>The cleanup of run \<open>i\<close> (lines 73--75).\<close>

definition page_cleanup :: "nat \<Rightarrow> idx_page \<Rightarrow> idx_page" where
  "page_cleanup i p = p\<lparr>ip_live := ip_live p - {i}\<rparr>"

text \<open>The outcome of the promise chain (lines 59--69): the body, or the message it
  rejects with.\<close>

definition fetch_outcome :: "fetch_response \<Rightarrow> string + idx_data" where
  "fetch_outcome r =
     (case r of
        FetchRejected msg \<Rightarrow> Inl msg
      | FetchResponse ok body \<Rightarrow> if \<not> ok then Inl ''Failed to load indexes'' else body)"

text \<open>Run \<open>i\<close> resumes (lines 59--72): each \<open>set\<close> only if it was not cancelled.\<close>

definition fetch_settled :: "nat \<Rightarrow> fetch_response \<Rightarrow> idx_page \<Rightarrow> idx_page" where
  "fetch_settled i r p =
     (if i \<notin> set (ip_pending p) then p
      else
        (let p1 = p\<lparr>ip_pending := filter (\<lambda>j. j \<noteq> i) (ip_pending p)\<rparr>
         in if i \<notin> ip_live p then p1
            else (case fetch_outcome r of
                    Inl msg \<Rightarrow> p1\<lparr>ip_error := Some msg, ip_loading := False\<rparr>
                  | Inr json \<Rightarrow> p1\<lparr>ip_data := Some json, ip_loading := False\<rparr>)))"

text \<open>\<open>closeCollectionMenu\<close> (lines 140--143) and \<open>handleViewChange\<close> (lines 145--147).\<close>

definition closeCollectionMenu :: "idx_page \<Rightarrow> idx_page" where
  "closeCollectionMenu p = p\<lparr>ip_collectionMenuOpen := False, ip_collectionFilterTerm := []\<rparr>"

definition handleViewChange :: "view_mode option \<Rightarrow> idx_page \<Rightarrow> idx_page" where
  "handleViewChange newView p = (case newView of Some v \<Rightarrow> p\<lparr>ip_viewMode := v\<rparr> | None \<Rightarrow> p)"

fun idx_step :: "idx_event \<Rightarrow> idx_page \<Rightarrow> idx_page" where
  "idx_step PageMount p = page_mount p"
| "idx_step (PageCleanup i) p = page_cleanup i p"
| "idx_step (FetchSettled i r) p = fetch_settled i r p"
| "idx_step (SetSearchQuery q) p = p\<lparr>ip_searchQuery := q\<rparr>"
| "idx_step (CollectionToggle cid) p =
     p\<lparr>ip_selectedCollectionIds := handleCollectionToggle cid (ip_selectedCollectionIds p)\<rparr>"
| "idx_step OpenCollectionMenu p = p\<lparr>ip_collectionMenuOpen := True\<rparr>"
| "idx_step CloseCollectionMenu p = closeCollectionMenu p"
| "idx_step (SetCollectionFilterTerm t) p = p\<lparr>ip_collectionFilterTerm := t\<rparr>"
| "idx_step (ViewChange v) p = handleViewChange v p"

definition run_idx :: "idx_event list \<Rightarrow> idx_page \<Rightarrow> idx_page" where
  "run_idx evs p = fold idx_step evs p"

text \<open>The states the page reaches from its first render.\<close>

inductive idx_reachable :: "idx_page \<Rightarrow> bool" where
  idx_init: "idx_reachable initial_idx_page"
| idx_next: "idx_reachable p \<Longrightarrow> idx_reachable (idx_step ev p)"

subsection \<open>The view\<close>

text \<open>The blocks of the main column (lines 344--417): the spinner, the error message
  and the content, each under its own condition.\<close>

datatype idx_block =
    IdxSpinner | IdxError string | IdxNoIndexes | IdxNoMatch
  | IdxResults string view_mode "indexes_story list"

definition idx_collections :: "idx_page \<Rightarrow> (string \<times> string) list" where
  "idx_collections p = (case ip_data p of None \<Rightarrow> [] | Some d \<Rightarrow> indexCollections (d_stories d))"

definition idx_filteredStories :: "idx_page \<Rightarrow> indexes_story list" where
  "idx_filteredStories p =
     (case ip_data p of None \<Rightarrow> []
      | Some d \<Rightarrow> filterStories (d_stories d) (ip_searchQuery p) (ip_selectedCollectionIds p) (d_chaptersByStoryId d))"

definition idx_blocks :: "idx_page \<Rightarrow> idx_block list" where
  "idx_blocks p =
     (if ip_loading p then [IdxSpinner] else []) @
     (case ip_error p of Some e \<Rightarrow> if e \<noteq> [] then [IdxError e] else [] | None \<Rightarrow> []) @
     (if \<not> ip_loading p \<and> (ip_error p = None \<or> ip_error p = Some []) \<and> ip_data p \<noteq> None
      then (case ip_data p of None \<Rightarrow> []
            | Some d \<Rightarrow>
                if d_stories d = [] then [IdxNoIndexes]
                else if idx_filteredStories p = [] then [IdxNoMatch]
                else [IdxResults (''Results: 1'' @ [CHR 0xE2, CHR 0x80, CHR 0x93] @ nat_str (length (idx_filteredStories p)) @ '' of '' @
                                  nat_str (length (idx_filteredStories p)))
                        (ip_viewMode p) (idx_filteredStories p)])
      else [])"

text \<open>The sidebar, the view toggle and the collection menu show once stories are loaded
  (lines 164, 267, 285, 419).\<close>

definition idx_controls_shown :: "idx_page \<Rightarrow> bool" where
  "idx_controls_shown p \<longleftrightarrow> \<not> ip_loading p \<and> (case ip_data p of Some d \<Rightarrow> d_stories d \<noteq> [] | None \<Rightarrow> False)"

text \<open>The collection button's label and the chips of the selected collections (lines
  216--238, 316--329).\<close>

definition collection_button_label :: "idx_page \<Rightarrow> string" where
  "collection_button_label p =
     (if ip_selectedCollectionIds p = [] then ''All collections''
      else nat_str (length (ip_selectedCollectionIds p)) @ '' selected'')"

definition selected_collection_chips :: "idx_page \<Rightarrow> (string \<times> string) list" where
  "selected_collection_chips p =
     map (\<lambda>cid. (cid, case find (\<lambda>x. fst x = cid) (idx_collections p) of Some c \<Rightarrow> snd c | None \<Rightarrow> cid))
         (ip_selectedCollectionIds p)"

text \<open>The items of the collection menu (lines 445--466): name, count label and checked.\<close>

definition collection_menu_items :: "idx_page \<Rightarrow> (string \<times> string \<times> bool) list" where
  "collection_menu_items p =
     (let counts = (case ip_data p of None \<Rightarrow> Map.empty | Some d \<Rightarrow> recordingsPerCollectionId (d_stories d))
      in map (\<lambda>c. let count = nullish (counts (fst c)) 0
                  in (snd c, '' ('' @ nat_str count @ '' recording'' @ plural_s count @ '')'',
                      fst c \<in> set (ip_selectedCollectionIds p)))
             (filteredCollectionsForDropdown (idx_collections p) (ip_collectionFilterTerm p)))"


subsection \<open>One block at a time\<close>

text \<open>While loading there is no error; every pending fetch and every live run belongs
  to an earlier run.\<close>

definition idx_inv :: "idx_page \<Rightarrow> bool" where
  "idx_inv p \<longleftrightarrow>
     (ip_loading p \<longrightarrow> ip_error p = None) \<and> (\<forall>i \<in> set (ip_pending p). i < ip_runs p) \<and>
     (\<forall>i \<in> ip_live p. i < ip_runs p)"

lemma idx_inv_step: "idx_inv p \<Longrightarrow> idx_inv (idx_step ev p)"
proof (cases ev)
  case (FetchSettled i r)
  assume "idx_inv p"
  then show ?thesis using FetchSettled
    by (auto simp: idx_inv_def fetch_settled_def Let_def split: sum.split)
qed (auto simp: idx_inv_def page_mount_def page_cleanup_def closeCollectionMenu_def handleViewChange_def
       Let_def split: option.split)

lemma idx_reachable_inv: "idx_reachable p \<Longrightarrow> idx_inv p"
proof (induction rule: idx_reachable.induct)
  case idx_init
  show ?case by (simp add: idx_inv_def initial_idx_page_def)
next
  case (idx_next p ev)
  then show ?case using idx_inv_step by blast
qed

text \<open>
  C39: in every state the indexes page reaches by any interleaving of effect runs,
  cleanups, responses and user events, its main column shows at most one block: never
  the spinner together with an error or the content.
\<close>

theorem idx_blocks_single:
  assumes "idx_reachable p"
  shows "length (idx_blocks p) \<le> 1"
proof -
  have "ip_loading p \<longrightarrow> ip_error p = None" using idx_reachable_inv [OF assms] by (simp add: idx_inv_def)
  then show ?thesis by (auto simp: idx_blocks_def split: option.split)
qed

subsection \<open>A cancelled run writes nothing\<close>

lemma run_idx_Cons [simp]: "run_idx (ev # evs) p = run_idx evs (idx_step ev p)"
  by (simp add: run_idx_def)

lemma run_idx_Nil [simp]: "run_idx [] p = p"
  by (simp add: run_idx_def)

text \<open>
  C40: when the load effect runs, is cleaned up and runs again (as React does in
  development), the page ends with the second run's response, whichever of the two
  responses arrives last: the first run's response is ignored.
\<close>

theorem idx_cancelled_response_ignored:
  assumes "(a, b) = (0, 1) \<or> (a, b) = (1, 0)"
  shows "let p = run_idx [PageMount, PageCleanup 0, PageMount, FetchSettled a (if a = 0 then r0 else r1),
                          FetchSettled b (if b = 0 then r0 else r1)] initial_idx_page
         in \<not> ip_loading p \<and> ip_pending p = [] \<and>
            ip_data p = (case fetch_outcome r1 of Inr d \<Rightarrow> Some d | Inl _ \<Rightarrow> None) \<and>
            ip_error p = (case fetch_outcome r1 of Inl msg \<Rightarrow> Some msg | Inr _ \<Rightarrow> None)"
  using assms
  by (auto simp: initial_idx_page_def page_mount_def page_cleanup_def fetch_settled_def Let_def
      split: sum.split)

subsection \<open>Witnesses\<close>

definition example_idx_data :: idx_data where
  "example_idx_data =
     \<lparr>d_stories = [\<lparr>s_uuid = ''u1'', s_interview_title = ''Oral history'', s_collection_id = ''c1'',
                     s_collection_name = ''Veterans''\<rparr>],
      d_chaptersByStoryId = []\<rparr>"

theorem idx_blocks_single_witness:
  "length (idx_blocks (idx_step (FetchSettled 0 (FetchResponse True (Inr example_idx_data)))
     (idx_step PageMount initial_idx_page))) \<le> 1 \<and>
   ip_data (idx_step (FetchSettled 0 (FetchResponse True (Inr example_idx_data)))
     (idx_step PageMount initial_idx_page)) = Some example_idx_data"
proof
  have r: "idx_reachable (idx_step (FetchSettled 0 (FetchResponse True (Inr example_idx_data)))
     (idx_step PageMount initial_idx_page))"
    by (intro idx_next idx_init)
  show "length (idx_blocks (idx_step (FetchSettled 0 (FetchResponse True (Inr example_idx_data)))
     (idx_step PageMount initial_idx_page))) \<le> 1"
    by (rule idx_blocks_single [OF r])
  show "ip_data (idx_step (FetchSettled 0 (FetchResponse True (Inr example_idx_data)))
     (idx_step PageMount initial_idx_page)) = Some example_idx_data"
    by (simp add: initial_idx_page_def page_mount_def fetch_settled_def fetch_outcome_def)
qed

theorem idx_cancelled_response_ignored_witness:
  "ip_data (run_idx [PageMount, PageCleanup 0, PageMount, FetchSettled 1 (FetchRejected ''Failed to fetch''),
       FetchSettled 0 (FetchResponse True (Inr example_idx_data))] initial_idx_page) = None \<and>
   ip_error (run_idx [PageMount, PageCleanup 0, PageMount, FetchSettled 1 (FetchRejected ''Failed to fetch''),
       FetchSettled 0 (FetchResponse True (Inr example_idx_data))] initial_idx_page) = Some ''Failed to fetch''"
proof -
  have ab: "((1::nat), (0::nat)) = (0, 1) \<or> ((1::nat), (0::nat)) = (1, 0)" by simp
  show ?thesis
    using idx_cancelled_response_ignored [OF ab, of "FetchResponse True (Inr example_idx_data)"
        "FetchRejected ''Failed to fetch''"]
    by (simp add: Let_def fetch_outcome_def)
qed

end
