(* ===== verification/Spec2Isabelle.thy ===== *)
theory Spec2Isabelle
  imports Entities Store Occurrences Indexes EntityGroups ProgressBar Config Transcript ActiveFilters Container Widgets Modal Highlight IndexesPage
begin

text \<open>
  \<^bold>\<open>A verification library for ts-portal-gmu.\<close>

  \<^bold>\<open>The program.\<close> An archive browser for recorded interviews. Its core is
  \<open>src/lib/weaviate/search.ts\<close>:
  \<^item> lexical (BM25), vector and hybrid search of transcript chunks against a Weaviate
    datastore, with min-max normalization and weighted fusion of the scores;
  \<^item> deduplication of hits by start time and a pagination probe;
  \<^item> the collection listing;
  \<^item> the entity aggregator, which counts the distinct recordings mentioning each
    (entity text, label).

  The client store \<open>src/app/stores/useSemanticSearchStore.ts\<close> calls these functions
  and keeps the UI's state: the search term, the results, the current match, the
  selected labels and collections, and the page. The pages and components under
  \<open>src/app\<close> and \<open>src/components\<close> read the store and call its actions. The datastore
  and the embedding service are external.

  \<^bold>\<open>Theories and what they model.\<close> The theories import each other in this order;
  each opens with a text naming the source lines it translates.
  \<^item> \<open>Prelude\<close>: shared vocabulary.
    \<^item> The Weaviate object as a record \<open>wobj\<close>.
    \<^item> JavaScript's \<open>??\<close> (\<open>nullish\<close>) and \<open>Map.set\<close> on an insertion-ordered
      association list (\<open>am_set\<close>).
    \<^item> ASCII \<open>toLowerCase\<close> and \<open>trim\<close>.
    \<^item> The error type and the result bind \<open>bind_r\<close>, which models an \<open>await\<close> that may
      raise.
    \<^item> Facts about ranked lists and sublists.
  \<^item> \<open>Filters\<close>: \<open>buildCombinedFilters\<close> and the inline filters, with their meaning
    \<open>filter_holds\<close>.
  \<^item> \<open>Scores\<close>: the normalizer of \<open>bm25Search\<close> and the BM25 map of \<open>hybridSearch\<close>.
  \<^item> \<open>Dedup\<close>: the two start-time deduplications, both proved equal to the reference
    \<open>keep_first\<close>.
  \<^item> \<open>Retrieval\<close>: the search functions.
    \<^item> The datastore as a record of functions \<open>backend\<close>, each of which returns a value
      or raises.
    \<^item> The reference datastore \<open>list_backend\<close>, which answers every query with a window
      of its filtered corpus.
  \<^item> \<open>Entities\<close>: the count key, the on-demand lookup, the snapshot reader and the
    rebuild loop \<open>build_loop\<close>.
  \<^item> \<open>Collections\<close>: \<open>loadCollectionMetadataMap\<close>, \<open>getAllStoriesFromCollection\<close> and
    \<open>getAvailableCollections\<close>.
  \<^item> \<open>Store\<close>: the zustand store as a state machine.
    \<^item> A record \<open>store\<close> of its fields.
    \<^item> One function per action, returning the new state and the error the action
      rejects with, if any.
    \<^item> A record \<open>api\<close> of the server functions it calls, and \<open>server\<close>, which
      instantiates \<open>api\<close> with the Retrieval and Collections models.
    \<^item> The dispatcher \<open>store_step\<close> and the reachable states \<open>reachable\<close>.
  \<^item> \<open>Occurrences\<close>: the pure helpers of \<open>NerEntityModal.tsx\<close> and
    \<open>handleCategoryClick\<close> of \<open>StoryMetadataEntity.tsx\<close>.
    \<^item> The entity records.
    \<^item> The close-duplicate filter \<open>dedupe_close\<close>.
    \<^item> The context window and the target word.
    \<^item> The highlighted context of a hit.
    \<^item> The grouping of hits by recording.
  \<^item> \<open>EntityGroups\<close>: the memos \<open>groupedEntities\<close>, \<open>entityList\<close> and \<open>entityListKey\<close>
    of \<open>StoryMetadataEntity.tsx\<close>, with lodash \<open>groupBy\<close> modelled from its
    documentation.
  \<^item> \<open>Indexes\<close>: the indexes page \<open>src/app/indexes/page.tsx\<close> (story filter, memos,
    collection toggle) and the pagination bar \<open>src/components/Pagination.tsx\<close>.
  \<^item> \<open>ProgressBar\<close>: \<open>StoryProgressBar.tsx\<close>.
    \<^item> Its chapter and NER markers.
    \<^item> The click-to-seek.
    \<^item> The hover state, changed by the pointer events of the bar and the markers, as the
      step function \<open>bar_step\<close> and the reachable states \<open>bar_reachable\<close>.
  \<^item> \<open>Config\<close>: the NER label helpers of \<open>src/config/organizationConfig.ts\<close>, over the
    \<open>ner\<close> part of the configuration as a record \<open>ner_config\<close>. \<open>hashString\<close> is a
    fold over \<open>32 word\<close>, since \<open>(hash * 31 + code) | 0\<close> is JavaScript's \<open>ToInt32\<close>
    of the exact value, and \<open>Math.abs\<close> reads it by \<open>sint\<close>.
  \<^item> \<open>Transcript\<close>: \<open>StoryTranscriptParagraph.tsx\<close>.
    \<^item> The render as a \<open>fold\<close> of the \<open>map\<close> callback \<open>render_step\<close> over the words,
      threading the list of drawn segments and the set \<open>renderedWordIndexes\<close>.
    \<^item> The reference recursion \<open>segments\<close>, which terminates on the measure
      \<open>length ws - i\<close> because every group is non-empty.
    \<^item> The decisions of the scroll effects, as functions of the paragraph and the stores.
  \<^item> \<open>ActiveFilters\<close>: \<open>src/components/ActiveFiltersDisplay.tsx\<close>.
    \<^item> The chips the bar draws, from the store's filters and collections.
    \<^item> Each handler as the list of store actions (\<open>Store.event\<close>) it issues, computed
      from the values its render captured; \<open>Store.run_events\<close> runs the list.
    \<^item> The scroll arrows from the strip's scroll geometry.
  \<^item> \<open>Container\<close>: \<open>StoryContainer.tsx\<close>, the story page.
    \<^item> Its state as a record \<open>container\<close>: the store, the effect runs with their
      \<open>isMounted\<close> flags, the two \<open>useState\<close> hooks, and the pending transcript fetches.
    \<^item> The transcript effect split at its \<open>await\<close>: \<open>Mount\<close>, \<open>Cleanup\<close> and
      \<open>FetchResolved\<close> are steps of \<open>container_step\<close>, and a run is any sequence of
      them, so fetches of earlier runs may resolve in any order. The store half after
      the \<open>await\<close> is \<open>Store.transcript_response\<close>.
    \<^item> The URL-parameter effect, the view and its panels.
  \<^item> \<open>Widgets\<close>: the search-type selector \<open>SearchTypeSelector.tsx\<close> and the NER chips
    of a story in the list view \<open>ListViewNerChips.tsx\<close>.
  \<^item> \<open>Modal\<close>: the state of \<open>NerEntityModal.tsx\<close>.
    \<^item> The NER data records typed against \<open>NerDataItem\<close>: a JSON schema and
      \<open>conforms\<close>.
    \<^item> The modal's \<open>useState\<close> hooks as a record \<open>modal\<close>.
    \<^item> The uncancelled load effect, split at its \<open>Promise.all\<close> into \<open>ModalLoad\<close> and
      \<open>LoadSettled\<close> steps of \<open>modal_step\<close>.
    \<^item> The counts and tab labels, the project tab's view and the two click handlers.
  \<^item> \<open>Highlight\<close>: \<open>createHighlightedParts\<close> and \<open>ExpandableHighlightedText\<close>.
    The word-boundary \<open>RegExp\<close> of the escaped entity is stated as the matching it
    performs: \<open>matches_at\<close>, the global search \<open>match_positions\<close> (a \<open>function\<close> with
    a measure), and the cuts of \<open>split\<close>.
  \<^item> \<open>IndexesPage\<close>: the state of \<open>src/app/indexes/page.tsx\<close>.
    \<^item> Its \<open>useState\<close> hooks as a record \<open>idx_page\<close>, with the effect runs, the live
      (uncancelled) runs and the pending fetches.
    \<^item> The load effect split at its \<open>fetch\<close>: \<open>PageMount\<close>, \<open>PageCleanup\<close> and
      \<open>FetchSettled\<close> steps of \<open>idx_step\<close>; a settled response writes only when its run
      is live, as the \<open>cancelled\<close> flag does.
    \<^item> The view toggle, the search box and the collection menu's handlers, the
      reachable states \<open>idx_reachable\<close>, and the main column's blocks, controls,
      chips and menu items.

  \<^bold>\<open>How the code's effects are modelled.\<close>
  \<^item> Each \<open>async\<close> function is a HOL function of the backend or of the \<open>api\<close>. The
    \<open>await\<close>ed calls run in the code's order, chained by \<open>bind_r\<close>, so a raise aborts the
    rest as it does in JavaScript. A \<open>try/catch\<close> is a case on the call's result.
  \<^item> A store action's \<open>set\<close> calls are record updates applied in order.
  \<^item> An \<open>async\<close> effect whose \<open>await\<close> may interleave with other events is split at the
    \<open>await\<close> into two steps of a step function, as \<open>Container\<close> does.
  \<^item> A React handler is a function from the render's state to the new state. Its guards
    read the state of that render. A handler that calls several store actions is the
    list of those actions, run in order by \<open>run_events\<close>; its arguments are the
    values of the render, as the closure captured them.
  \<^item> JavaScript \<open>Map\<close>s are HOL maps where only lookup matters, and association lists
    where insertion order matters.
  \<^item> \<open>Array.prototype.sort\<close> with a comparator is the stable \<open>sort_key\<close>, and
    \<open>localeCompare\<close> is a collation key into a linear order.
  \<^item> Loops are \<open>fold\<close> or structural recursion. The one loop with a computed bound, the
    rebuild's paging loop \<open>build_loop\<close>, is a \<open>function\<close> that terminates on the measure
    \<open>BUILD_ENTITY_COUNTS_MAX_OFFSET + 1 - offset\<close>: each round advances the offset by
    the page size, and the loop exits past the ceiling. No fuel is needed.

  \<^bold>\<open>What the lemmas show.\<close> The claims C1--C40 each follow a text naming them:
  \<^item> the ranked-result invariant of hybrid search and the meaning of the filter builder;
  \<^item> the normalizer's behaviour, and both deduplications equal to one reference;
  \<^item> the counts of the entity aggregator over the first \<open>10000\<close> chunks, that its
    count key identifies an entity up to case when no text holds the separator, and that
    the rebuild terminates reading only whole-page offsets;
  \<^item> the collection listing;
  \<^item> the store's current-match invariant over all reachable states, the match-navigation
    round trip, the label toggle, the pagination probe and the failure paths of the
    searches (a corpus-wide failure leaves \<open>loading\<close> set; a story-scoped one clears the
    matches but not the current index);
  \<^item> the helpers of the entity modal and the story page;
  \<^item> the indexes page's filter and pagination; at most one main-column block (spinner,
    error or content) in every reachable state; and a cleaned-up run's response
    ignored whichever order the two responses arrive in;
  \<^item> the progress bar's seek bounds, hover invariant and marker search;
  \<^item> the paragraph render: every word drawn once and in order, the mutable render loop
    equal to the recursion, at most one current word, and at most one paragraph
    scrolling to a target or a match;
  \<^item> the filter bar: the stale NER filters that "Clear all" still searches
    with, and the story list after removing a collection;
  \<^item> the story page: the spinner while the mounted run's fetch is pending, over every
    interleaving; its end once that fetch resolves; the stale transcript an earlier
    run's late fetch leaves; and the URL effect's label merge and idempotence;
  \<^item> the entity modal: the type of the NER records; the counts a load shows against
    the server functions, capped at \<open>10000\<close>; the previous entity's occurrences kept
    after a failed load; the label a click switches on; and the highlighted parts,
    which concatenate back to the context and mark only boundary-delimited
    occurrences of the entity;
  \<^item> the 32-bit wrap-around of \<open>hashString\<close>, and the colour of a label: configured,
    or a fallback at an index in range, the same for ids equal up to trim and case.

  \<^bold>\<open>Abstractions and what is not modelled.\<close>
  \<^item> Scores, times and widths are exact rationals, not doubles. \<open>toLowerCase\<close> and
    \<open>trim\<close> act on ASCII, and characters are bytes.
  \<^item> The datastore's filter semantics is exact string membership. Its BM25 and vector
    ranking are the backend's, and only the contract \<open>backend_sound\<close> is assumed of
    them.
  \<^item> The progress bar's width is positive wherever a position is computed, since the bar
    is rendered.
  \<^item> Outside the model:
    \<^item> \<open>initWeaviateClient\<close>, the network and the file system;
    \<^item> React rendering beyond the choices it makes (which view, which parts, which
      labels);
    \<^item> the player and transcript-panel stores (\<open>usePlayerStore\<close>,
      \<open>useTranscriptPanelStore\<close>), whose sources are not in the repository, and the
      transcript panel \<open>StoryTranscriptPanel.tsx\<close>, whose logic is theirs: section
      expansion and the user-scroll detection;
    \<^item> the top bar, the layouts and the list and table views of results, which only
      compose components and read the store;
    \<^item> the DOM side of the paragraph's effects: the element lookups, timers and
      scrolling; the model assumes the paragraph and the scroll container are mounted;
    \<^item> the branding and theme parts of the configuration, which are plain data;
    \<^item> \<open>formatTime\<close>, imported from \<open>src/app/utils\<close>, which is not in the repository, and
      the paragraph's own \<open>formatTime\<close>, which only formats a heading;
    \<^item> Unicode case folding and word characters: the \<open>RegExp\<close> of the highlight folds
      and classifies ASCII only, as \<open>to_lower\<close> does.
\<close>

end
